(* ===== verification/Prelude.thy ===== *)
theory Prelude
  imports Main "HOL-Library.Word"
begin

text \<open>
  What every component shares: the outcome of a C++ computation (a value, a thrown
  exception, a call of \<open>exit\<close>, or undefined behaviour with its cause), sequencing and
  catching of outcomes, reads of possibly indeterminate variables and possibly null
  pointers, the lifetime of a pointer that the code frees, and generic list lemmas.
\<close>

section \<open>Collections of facts\<close>

named_theorems outcome_simps \<open>evaluation of outcomes\<close>
named_theorems text_simps \<open>facts on the printed form of numbers\<close>
named_theorems callback_simps \<open>unfolding of the callbacks and their helpers\<close>


section \<open>Outcomes of C++ computations\<close>

text \<open>
  The causes of undefined behaviour the sources can run into: dereferencing a null
  pointer, reading an uninitialised variable, reading an inactive member of the
  \<open>sr_val_t\<close> union, dereferencing the end iterator, writing past an array,
  overflowing a signed integer, freeing twice, and reading memory that was freed.
\<close>

datatype ub =
    NullPointer
  | Indeterminate
  | InactiveMember
  | EndIterator
  | BufferOverflow
  | SignedOverflow
  | DoubleFree
  | UseAfterFree

datatype exn =
    Runtime_error string
  | Invalid_argument
  | Out_of_range
  | Library_error string

datatype 'a outcome =
    Val 'a
  | Throw exn
  | Exit nat
  | Undef ub

fun bindO :: "'a outcome \<Rightarrow> ('a \<Rightarrow> 'b outcome) \<Rightarrow> 'b outcome" where
  "bindO (Val x) f = f x"
| "bindO (Throw e) f = Throw e"
| "bindO (Exit n) f = Exit n"
| "bindO (Undef u) f = Undef u"

text \<open>\<open>try { m } catch (std::exception &e) { h e }\<close>\<close>

fun catchO :: "'a outcome \<Rightarrow> (exn \<Rightarrow> 'a outcome) \<Rightarrow> 'a outcome" where
  "catchO (Val x) h = Val x"
| "catchO (Throw e) h = h e"
| "catchO (Exit n) h = Exit n"
| "catchO (Undef u) h = Undef u"

text \<open>
  A variable whose declaration has no initialiser is an option: \<open>None\<close> is the
  indeterminate value of the C++ standard, \<open>Some x\<close> a known content. A pointer is
  an option as well, with \<open>None\<close> for the null pointer.
\<close>

definition load :: "'a option \<Rightarrow> 'a outcome" where
  "load x = (case x of None \<Rightarrow> Undef Indeterminate | Some v \<Rightarrow> Val v)"

definition deref :: "'a option \<Rightarrow> 'a outcome" where
  "deref p = (case p of None \<Rightarrow> Undef NullPointer | Some v \<Rightarrow> Val v)"

fun is_val :: "'a outcome \<Rightarrow> bool" where
  "is_val (Val x) = True"
| "is_val _ = False"

text \<open>The state of a pointer variable that is handed to a deallocation function.\<close>

datatype lifetime = Uninit | Null | Live | Freed

text \<open>Deallocating a null pointer does nothing; a freed pointer may not be freed again.\<close>

fun free_ptr :: "lifetime \<Rightarrow> lifetime outcome" where
  "free_ptr Uninit = Undef Indeterminate"
| "free_ptr Null = Val Null"
| "free_ptr Live = Val Freed"
| "free_ptr Freed = Undef DoubleFree"


section \<open>Evaluation of outcomes\<close>

lemma load_simps [simp]: "load (Some x) = Val x" "load None = Undef Indeterminate"
  by (simp_all add: load_def)

lemma deref_simps [simp]: "deref (Some x) = Val x" "deref None = Undef NullPointer"
  by (simp_all add: deref_def)

lemma load_eq_Val [outcome_simps]: "load x = Val v \<longleftrightarrow> x = Some v"
  by (cases x) simp_all

lemma deref_eq_Val [outcome_simps]: "deref x = Val v \<longleftrightarrow> x = Some v"
  by (cases x) simp_all

lemma bindO_eq_Val [outcome_simps]:
  "bindO m f = Val y \<longleftrightarrow> (\<exists>x. m = Val x \<and> f x = Val y)"
  by (cases m) simp_all

lemma bindO_eq_Undef [outcome_simps]:
  "bindO m f = Undef u \<longleftrightarrow> m = Undef u \<or> (\<exists>x. m = Val x \<and> f x = Undef u)"
  by (cases m) auto

lemma catchO_eq_Val [outcome_simps]:
  "catchO m h = Val y \<longleftrightarrow> m = Val y \<or> (\<exists>e. m = Throw e \<and> h e = Val y)"
  by (cases m) auto

lemma bindO_assoc: "bindO (bindO m f) g = bindO m (\<lambda>x. bindO (f x) g)"
  by (cases m) simp_all

lemma bindO_Val_right [simp]: "bindO m Val = m"
  by (cases m) simp_all

lemma bindO_cong [fundef_cong]:
  "m = m' \<Longrightarrow> (\<And>x. m' = Val x \<Longrightarrow> f x = g x) \<Longrightarrow> bindO m f = bindO m' g"
  by (cases m') simp_all

lemma is_val_iff: "is_val m \<longleftrightarrow> (\<exists>x. m = Val x)"
  by (cases m) simp_all

lemma free_ptr_eq_Val [outcome_simps]:
  "free_ptr p = Val q \<longleftrightarrow> p = Null \<and> q = Null \<or> p = Live \<and> q = Freed"
  by (cases p) auto


section \<open>Words\<close>

lemma unat_drop_bit_1: "unat (drop_bit 1 w) = unat w div 2" for w :: "32 word"
  by (simp add: drop_bit_eq_div unat_div)

lemma unat_gt_0_word: "0 < w \<longleftrightarrow> 0 < unat w" for w :: "'a::len word"
  by (simp add: word_less_nat_alt)

lemma unat_word8_of_nat: "n \<le> 255 \<Longrightarrow> unat (word_of_nat n :: 8 word) = n"
  by (simp add: unat_of_nat)

lemma word8_of_nat_inject:
  "m \<le> 255 \<Longrightarrow> n \<le> 255 \<Longrightarrow> (word_of_nat m :: 8 word) = word_of_nat n \<longleftrightarrow> m = n"
  by (metis unat_word8_of_nat)

lemma word16_of_int_mod: "(word_of_int (n mod 65536) :: 16 word) = word_of_int n"
  by (simp add: word_of_int_eq_iff take_bit_eq_mod)


section \<open>Lists\<close>

lemma takeWhile_append_stop:
  "\<forall>x \<in> set xs. P x \<Longrightarrow> \<not> P y \<Longrightarrow> takeWhile P (xs @ y # ys) = xs"
  by (induction xs) simp_all

lemma append_sep_inj:
  assumes "xs @ c # ys = xs' @ c # ys'" "c \<notin> set ys" "c \<notin> set ys'"
  shows "xs = xs' \<and> ys = ys'"
proof -
  have "takeWhile (\<lambda>x. x \<noteq> c) (rev ys @ c # rev xs) = rev ys"
    using assms(2) by (intro takeWhile_append_stop) auto
  moreover have "takeWhile (\<lambda>x. x \<noteq> c) (rev ys' @ c # rev xs') = rev ys'"
    using assms(3) by (intro takeWhile_append_stop) auto
  moreover have "rev ys @ c # rev xs = rev ys' @ c # rev xs'"
    using assms(1) by (metis append.assoc append_Cons append_Nil rev.simps(2) rev_append)
  ultimately have "ys = ys'"
    by (metis rev_rev_ident)
  then show ?thesis
    using assms(1) by simp
qed

text \<open>The last element, or a default.\<close>

definition last_or :: "'a \<Rightarrow> 'a list \<Rightarrow> 'a" where
  "last_or d xs = (if xs = [] then d else last xs)"

lemma last_or_simps [simp]: "last_or d [] = d" "last_or d (x # xs) = last_or x xs"
  by (simp_all add: last_or_def)

lemma last_or_nonempty: "xs \<noteq> [] \<Longrightarrow> last_or d xs = last xs"
  by (simp add: last_or_def)

lemma last_or_map: "xs \<noteq> [] \<Longrightarrow> last_or d (map f xs) = f (last xs)"
  by (simp add: last_or_def last_map)

lemma fold_ignore: "fold (\<lambda>x m. m) xs = (\<lambda>m. m)"
  by (induction xs) simp_all

lemma map_filter_Cons [simp]:
  "List.map_filter f (x # xs) = (case f x of None \<Rightarrow> List.map_filter f xs | Some y \<Rightarrow> y # List.map_filter f xs)"
  by (simp add: List.map_filter_def split: option.split)

lemma map_filter_Nil [simp]: "List.map_filter f [] = []"
  by (simp add: List.map_filter_def)

end
