(* ===== verification/Cpp_Text.thy ===== *)
theory Cpp_Text
  imports Prelude
begin

text \<open>
  The text primitives of the C and C++ standard libraries that the plugins call:
  decimal output of unsigned integers (\<open>std::to_string\<close>, \<open>operator<<\<close>),
  \<open>std::stoi\<close>, \<open>atoi\<close>, \<open>std::string::find_last_of\<close>, \<open>strtok\<close>
  with a single-space delimiter, \<open>snprintf\<close> truncation and the \<open>%02x\<close>
  conversion.
\<close>

section \<open>Definitions\<close>

subsection \<open>Decimal output\<close>

definition digit_char :: "nat \<Rightarrow> char" where
  "digit_char d = char_of (48 + d)"

fun nat_to_dec :: "nat \<Rightarrow> string" where
  "nat_to_dec n =
     (if n < 10 then [digit_char n]
      else nat_to_dec (n div 10) @ [digit_char (n mod 10)])"

declare nat_to_dec.simps [simp del]

definition to_dec :: "'a::len word \<Rightarrow> string" where
  "to_dec w = nat_to_dec (unat w)"


subsection \<open>Decimal input\<close>

definition is_digit :: "char \<Rightarrow> bool" where
  "is_digit c \<longleftrightarrow> 48 \<le> (of_char c :: nat) \<and> (of_char c :: nat) \<le> 57"

definition digit_val :: "char \<Rightarrow> nat" where
  "digit_val c = of_char c - 48"

fun dec_value :: "nat \<Rightarrow> string \<Rightarrow> nat" where
  "dec_value acc [] = acc"
| "dec_value acc (c # cs) = dec_value (10 * acc + digit_val c) cs"

text \<open>\<open>isspace\<close> of the "C" locale: tab, newline, vertical tab, form feed, return, space.\<close>

definition is_space :: "char \<Rightarrow> bool" where
  "is_space c \<longleftrightarrow> (of_char c :: nat) \<in> {9, 10, 11, 12, 13, 32}"

definition split_sign :: "string \<Rightarrow> int \<times> string" where
  "split_sign s =
     (case s of
        [] \<Rightarrow> (1, [])
      | c # cs \<Rightarrow> if c = CHR ''-'' then (-1, cs) else if c = CHR ''+'' then (1, cs) else (1, s))"

text \<open>
  \<open>strtol\<close> in base ten: skip white space, take an optional sign, then the longest run
  of digits. \<open>None\<close>: there is no digit, no conversion is performed.
\<close>

definition strtol :: "string \<Rightarrow> int option" where
  "strtol s =
     (case split_sign (dropWhile is_space s) of (sg, t) \<Rightarrow>
        (let ds = takeWhile is_digit t
         in if ds = [] then None else Some (sg * int (dec_value 0 ds))))"

definition int_min :: int where "int_min = - (2 ^ 31)"

definition int_max :: int where "int_max = 2 ^ 31 - 1"

definition stoi :: "string \<Rightarrow> int outcome" where
  "stoi s =
     (case strtol s of
        None \<Rightarrow> Throw Invalid_argument
      | Some n \<Rightarrow> if int_min \<le> n \<and> n \<le> int_max then Val n else Throw Out_of_range)"

text \<open>\<open>atoi\<close>: 0 where nothing converts, undefined where the value is not an \<open>int\<close>.\<close>

definition atoi :: "string \<Rightarrow> int outcome" where
  "atoi s =
     (case strtol s of
        None \<Rightarrow> Val 0
      | Some n \<Rightarrow> if int_min \<le> n \<and> n \<le> int_max then Val n else Undef SignedOverflow)"


subsection \<open>Strings and buffers\<close>

definition find_last_of :: "char \<Rightarrow> string \<Rightarrow> nat option" where
  "find_last_of c s =
     (if c \<in> set s then Some (length s - 1 - length (takeWhile (\<lambda>x. x \<noteq> c) (rev s))) else None)"

text \<open>The C string at the start of a character buffer ends before the first zero byte.\<close>

definition c_str :: "string \<Rightarrow> string" where
  "c_str buf = takeWhile (\<lambda>c. of_char c \<noteq> (0 :: nat)) buf"

text \<open>The first call \<open>strtok(buf, " ")\<close>: the first maximal run of non-space characters.\<close>

definition strtok_space :: "string \<Rightarrow> string option" where
  "strtok_space buf =
     (case dropWhile (\<lambda>c. c = CHR '' '') (c_str buf) of
        [] \<Rightarrow> None
      | t \<Rightarrow> Some (takeWhile (\<lambda>c. c \<noteq> CHR '' '') t))"

text \<open>\<open>snprintf(buf, size, ...)\<close> keeps at most \<open>size - 1\<close> characters of the output.\<close>

definition snprintf_str :: "nat \<Rightarrow> string \<Rightarrow> string" where
  "snprintf_str sz out = take (sz - 1) out"

definition hex_char :: "nat \<Rightarrow> char" where
  "hex_char d = (if d < 10 then char_of (48 + d) else char_of (87 + d))"

definition hex_02x :: "8 word \<Rightarrow> string" where
  "hex_02x w = [hex_char (unat w div 16), hex_char (unat w mod 16)]"


section \<open>Decimal numbers\<close>

lemma of_char_digit_char [text_simps]: "d < 10 \<Longrightarrow> (of_char (digit_char d) :: nat) = 48 + d"
  by (simp add: digit_char_def)

lemma is_digit_digit_char [text_simps]: "d < 10 \<Longrightarrow> is_digit (digit_char d)"
  by (simp add: is_digit_def text_simps)

lemma digit_val_digit_char [text_simps]: "d < 10 \<Longrightarrow> digit_val (digit_char d) = d"
  by (simp add: digit_val_def text_simps)

lemma nat_to_dec_nonempty [simp]: "nat_to_dec n \<noteq> []"
  by (subst nat_to_dec.simps) simp

lemma nat_to_dec_digits: "c \<in> set (nat_to_dec n) \<Longrightarrow> is_digit c"
proof (induction n rule: nat_to_dec.induct)
  case (1 n)
  then show ?case
    by (subst (asm) (2) nat_to_dec.simps) (auto simp: text_simps split: if_splits)
qed

lemma to_dec_digits: "c \<in> set (to_dec w) \<Longrightarrow> is_digit c"
  by (auto simp: to_dec_def dest: nat_to_dec_digits)

lemma dec_value_append: "dec_value a (xs @ ys) = dec_value (dec_value a xs) ys"
  by (induction xs arbitrary: a) simp_all

lemma dec_value_nat_to_dec: "dec_value 0 (nat_to_dec n) = n"
proof (induction n rule: nat_to_dec.induct)
  case (1 n)
  then show ?case
    by (subst nat_to_dec.simps) (simp add: dec_value_append text_simps)
qed

text \<open>Distinct numbers print differently.\<close>

lemma nat_to_dec_inject [simp]: "nat_to_dec m = nat_to_dec n \<longleftrightarrow> m = n"
  by (metis dec_value_nat_to_dec)

lemma to_dec_inject [simp]: "to_dec v = to_dec w \<longleftrightarrow> v = w"
  by (simp add: to_dec_def word_unat_eq_iff)

lemma is_digit_not_space: "is_digit c \<Longrightarrow> \<not> is_space c"
  by (auto simp: is_digit_def is_space_def)

lemma is_digit_not_sign: "is_digit c \<Longrightarrow> c \<noteq> CHR ''-'' \<and> c \<noteq> CHR ''+''"
  by (auto simp: is_digit_def)

lemma strtol_digits:
  assumes "ds \<noteq> []" "\<forall>c \<in> set ds. is_digit c" "r = [] \<or> \<not> is_digit (hd r)"
  shows "strtol (ds @ r) = Some (int (dec_value 0 ds))"
proof -
  obtain d ds' where ds: "ds = d # ds'"
    using assms(1) by (cases ds) auto
  have d: "is_digit d"
    using assms(2) ds by simp
  have tw: "takeWhile is_digit (ds @ r) = ds"
    using assms(2,3) by (cases r) (simp_all add: takeWhile_append2)
  show ?thesis
    using tw d is_digit_not_space [OF d] is_digit_not_sign [OF d]
    by (simp add: strtol_def split_sign_def ds Let_def)
qed

lemma strtol_nat_to_dec: "strtol (nat_to_dec n) = Some (int n)"
  using strtol_digits [of "nat_to_dec n" "[]"]
  by (simp add: nat_to_dec_digits dec_value_nat_to_dec)

lemma stoi_nat_to_dec: "n < 2 ^ 31 \<Longrightarrow> stoi (nat_to_dec n) = Val (int n)"
  by (simp add: stoi_def strtol_nat_to_dec int_min_def int_max_def)

lemma atoi_nat_to_dec: "n < 2 ^ 31 \<Longrightarrow> atoi (nat_to_dec n) = Val (int n)"
  by (simp add: atoi_def strtol_nat_to_dec int_min_def int_max_def)

lemma stoi_range: "stoi s = Val n \<Longrightarrow> int_min \<le> n \<and> n \<le> int_max"
  by (auto simp: stoi_def split: option.splits if_splits)


section \<open>Separators\<close>

lemma find_last_of_append:
  assumes "c \<notin> set ys"
  shows "find_last_of c (xs @ c # ys) = Some (length xs)"
proof -
  have "takeWhile (\<lambda>x. x \<noteq> c) (rev ys @ c # rev xs) = rev ys"
    using assms by (intro takeWhile_append_stop) auto
  then show ?thesis
    by (simp add: find_last_of_def)
qed

lemma find_last_of_None: "find_last_of c s = None \<longleftrightarrow> c \<notin> set s"
  by (simp add: find_last_of_def)

lemma find_last_of_Some:
  assumes "find_last_of c s = Some i"
  shows "s = take i s @ c # drop (Suc i) s \<and> c \<notin> set (drop (Suc i) s)"
proof -
  have "c \<in> set s"
    using assms by (auto simp: find_last_of_def split: if_splits)
  then obtain xs ys where s: "s = xs @ c # ys" and "c \<notin> set ys"
    by (metis split_list_last)
  then have "i = length xs"
    using assms find_last_of_append [of c ys xs] by simp
  then show ?thesis
    using s \<open>c \<notin> set ys\<close> by simp
qed

lemma slash_not_digit: "\<not> is_digit CHR ''/''"
  by (simp add: is_digit_def)

lemma underscore_not_digit: "\<not> is_digit CHR ''_''"
  by (simp add: is_digit_def)


section \<open>Buffers\<close>

lemma snprintf_str_fits: "length out < sz \<Longrightarrow> snprintf_str sz out = out"
  by (simp add: snprintf_str_def)

lemma length_snprintf_str: "0 < sz \<Longrightarrow> length (snprintf_str sz out) < sz"
  by (simp add: snprintf_str_def)

lemma strtok_space_Some:
  assumes "strtok_space buf = Some t"
  shows "t \<noteq> [] \<and> CHR '' '' \<notin> set t"
proof -
  define u where "u = dropWhile (\<lambda>c. c = CHR '' '') (c_str buf)"
  have t: "t = takeWhile (\<lambda>c. c \<noteq> CHR '' '') u" and "u \<noteq> []"
    using assms by (cases u; simp add: strtok_space_def flip: u_def)+
  moreover from \<open>u \<noteq> []\<close> have "hd u \<noteq> CHR '' ''"
    unfolding u_def by (rule hd_dropWhile)
  ultimately show ?thesis
    by (cases u) (auto dest: set_takeWhileD)
qed

lemma hex_char_inject:
  assumes "a < 16" "b < 16" "hex_char a = hex_char b"
  shows "a = b"
proof -
  have "(of_char (hex_char a) :: nat) = of_char (hex_char b)"
    using assms(3) by simp
  then show ?thesis
    using assms(1,2) by (auto simp: hex_char_def split: if_splits)
qed

lemma length_hex_02x [simp]: "length (hex_02x w) = 2"
  by (simp add: hex_02x_def)

lemma hex_02x_inject [simp]: "hex_02x v = hex_02x w \<longleftrightarrow> v = w"
proof
  assume eq: "hex_02x v = hex_02x w"
  have bound: "unat x div 16 < 16" for x :: "8 word"
    using unsigned_less [of x, where ?'a = nat] by simp
  have "unat v div 16 = unat w div 16" "unat v mod 16 = unat w mod 16"
    using eq bound by (auto simp: hex_02x_def intro: hex_char_inject)
  then have "unat v = unat w"
    by (metis div_mult_mod_eq)
  then show "v = w"
    by (simp add: word_unat_eq_iff)
qed simp

end
