(* ===== verification/Sysrepo.thy ===== *)
theory Sysrepo
  imports Cpp_Text
begin

text \<open>
  The sysrepo vocabulary the plugins are written in, and the macros of
  \<open>src/plugins/sys_util.h\<close> that wrap it. The types are those of the sysrepo headers
  (result codes, notification events, change operations, values with their tagged
  union); the library functions the plugins call are fields of \<open>sr_api\<close> and
  \<open>session\<close>, so every definition takes them as an argument. The macro
  \<open>foreach_change\<close> is the loop of all configuration callbacks.
\<close>

section \<open>Types of the sysrepo headers\<close>

text \<open>
  The result codes the sources name; \<open>SR_ERR_CODE\<close> is any other code a library call
  returns and the plugins pass on.
\<close>

datatype sr_error =
    SR_ERR_OK
  | SR_ERR_INVAL_ARG
  | SR_ERR_NOMEM
  | SR_ERR_DISCONNECT
  | SR_ERR_UNSUPPORTED
  | SR_ERR_OPERATION_FAILED
  | SR_ERR_CODE nat

datatype sr_event = SR_EV_VERIFY | SR_EV_APPLY | SR_EV_ABORT | SR_EV_ENABLED

datatype sr_oper = SR_OP_CREATED | SR_OP_MODIFIED | SR_OP_DELETED | SR_OP_MOVED

datatype sr_data =
    SR_LIST_T
  | SR_STRING_T string
  | SR_ENUM_T string
  | SR_IDENTITYREF_T string
  | SR_BOOL_T bool
  | SR_UINT8_T "8 word"
  | SR_UINT16_T "16 word"
  | SR_UINT32_T "32 word"
  | SR_UINT64_T "64 word"
  | SR_INT32_T "32 word"
  | SR_OTHER_T

record sr_val =
  xpath :: string
  data :: sr_data

text \<open>One change of a commit, as \<open>sr_get_change_next\<close> delivers it.\<close>

record change =
  oper :: sr_oper
  old_val :: "sr_val option"
  new_val :: "sr_val option"

text \<open>
  Library functions on xpaths: \<open>sr_xpath_node_name_eq\<close> and \<open>sr_xpath_key_value\<close>
  (\<open>None\<close>: the null pointer). The change of the buffer that the latter makes, and
  \<open>sr_xpath_recover\<close> takes back, is the subject of \<open>Xpath_Buffer\<close>.
\<close>

record sr_api =
  sr_xpath_node_name_eq :: "string \<Rightarrow> string \<Rightarrow> bool"
  sr_xpath_key_value :: "string \<Rightarrow> string \<Rightarrow> string \<Rightarrow> string option"

text \<open>
  A session: the answer of \<open>sr_get_changes_iter\<close> for an xpath, with the changes that
  \<open>sr_get_change_next\<close> delivers before it first returns something else than
  \<open>SR_ERR_OK\<close>, and whether that last call stores null in its two output pointers.
\<close>

record session =
  sr_get_changes_iter :: "string \<Rightarrow> sr_error \<times> change list"
  end_clears :: bool


section \<open>Reading values\<close>

text \<open>
  The \<open>char *\<close> members of the union share their representation: \<open>string_val\<close> reads
  each of them.
\<close>

fun string_val :: "sr_val \<Rightarrow> string outcome" where
  "string_val v =
     (case data v of
        SR_STRING_T s \<Rightarrow> Val s
      | SR_ENUM_T s \<Rightarrow> Val s
      | SR_IDENTITYREF_T s \<Rightarrow> Val s
      | _ \<Rightarrow> Undef InactiveMember)"

fun bool_val :: "sr_val \<Rightarrow> bool outcome" where
  "bool_val v = (case data v of SR_BOOL_T b \<Rightarrow> Val b | _ \<Rightarrow> Undef InactiveMember)"

fun uint8_val :: "sr_val \<Rightarrow> 8 word outcome" where
  "uint8_val v = (case data v of SR_UINT8_T w \<Rightarrow> Val w | _ \<Rightarrow> Undef InactiveMember)"

fun uint32_val :: "sr_val \<Rightarrow> 32 word outcome" where
  "uint32_val v = (case data v of SR_UINT32_T w \<Rightarrow> Val w | _ \<Rightarrow> Undef InactiveMember)"


section \<open>Macros of sys\_util.h\<close>

definition XPATH_SIZE :: nat where "XPATH_SIZE = 2000"

text \<open>
  \<open>ARG_CHECK2\<close> to \<open>ARG_CHECK4\<close>: the early return of a null argument. The continuation
  gets the pointers that are known not to be null.
\<close>

definition ARG_CHECK :: "'r \<Rightarrow> 'a option \<Rightarrow> ('a \<Rightarrow> 'r outcome) \<Rightarrow> 'r outcome" where
  "ARG_CHECK retval arg k = (case arg of None \<Rightarrow> Val retval | Some a \<Rightarrow> k a)"

definition ARG_CHECK2 ::
    "'r \<Rightarrow> 'a option \<Rightarrow> 'b option \<Rightarrow> ('a \<Rightarrow> 'b \<Rightarrow> 'r outcome) \<Rightarrow> 'r outcome" where
  "ARG_CHECK2 retval arg1 arg2 k =
     ARG_CHECK retval arg1 (\<lambda>a. ARG_CHECK retval arg2 (\<lambda>b. k a b))"

definition ARG_CHECK3 ::
    "'r \<Rightarrow> 'a option \<Rightarrow> 'b option \<Rightarrow> 'c option \<Rightarrow> ('a \<Rightarrow> 'b \<Rightarrow> 'c \<Rightarrow> 'r outcome) \<Rightarrow> 'r outcome" where
  "ARG_CHECK3 retval arg1 arg2 arg3 k =
     ARG_CHECK retval arg1 (\<lambda>a. ARG_CHECK retval arg2 (\<lambda>b. ARG_CHECK retval arg3 (\<lambda>c. k a b c)))"

definition ARG_CHECK4 ::
    "'r \<Rightarrow> 'a option \<Rightarrow> 'b option \<Rightarrow> 'c option \<Rightarrow> 'd option \<Rightarrow> ('a \<Rightarrow> 'b \<Rightarrow> 'c \<Rightarrow> 'd \<Rightarrow> 'r outcome) \<Rightarrow> 'r outcome" where
  "ARG_CHECK4 retval arg1 arg2 arg3 arg4 k =
     ARG_CHECK retval arg1 (\<lambda>a. ARG_CHECK retval arg2 (\<lambda>b. ARG_CHECK retval arg3 (\<lambda>c. ARG_CHECK retval arg4 (\<lambda>d. k a b c d))))"

text \<open>
  How the body of the loop ends: with the next iteration, or by leaving the loop with a
  result code (\<open>goto\<close> to the cleanup label). Both carry the callback's variables.
\<close>

datatype 'l flow = Next 'l | Leave sr_error 'l

fun flow_state :: "'l flow \<Rightarrow> 'l" where
  "flow_state (Next l) = l"
| "flow_state (Leave rc l) = l"

fun walk_changes ::
    "(change \<Rightarrow> 'l \<Rightarrow> 'l flow outcome) \<Rightarrow> change list \<Rightarrow> 'l \<Rightarrow> 'l flow outcome" where
  "walk_changes step [] l = Val (Next l)"
| "walk_changes step (c # cs) l =
     bindO (step c l) (\<lambda>f. case f of Next l' \<Rightarrow> walk_changes step cs l' | Leave rc l' \<Rightarrow> Val (Leave rc l'))"

definition foreach_change ::
    "sr_event \<Rightarrow> (change \<Rightarrow> 'l \<Rightarrow> 'l flow outcome) \<Rightarrow> change list \<Rightarrow> 'l \<Rightarrow> 'l flow outcome" where
  "foreach_change event step cs l =
     (if event = SR_EV_ABORT then Val (Next l) else walk_changes step cs l)"

text \<open>A sequence of notifications to one callback; its result codes go to sysrepo.\<close>

fun deliver_events ::
    "(sr_event \<Rightarrow> 's \<Rightarrow> (sr_error \<times> 's) outcome) \<Rightarrow> sr_event list \<Rightarrow> 's \<Rightarrow> 's outcome" where
  "deliver_events cb [] s = Val s"
| "deliver_events cb (ev # evs) s = bindO (cb ev s) (\<lambda>r. deliver_events cb evs (snd r))"

text \<open>
  The two value pointers after the loop has ended normally: null if no change was
  delivered or if the last call cleared them, else pointing to values that the last
  iteration has freed.
\<close>

definition vals_after_loop :: "session \<Rightarrow> change list \<Rightarrow> lifetime" where
  "vals_after_loop ds cs = (if cs = [] \<or> end_clears ds then Null else Freed)"


text \<open>The new and the old values of a list of changes.\<close>

definition new_vals :: "change list \<Rightarrow> sr_val list" where
  "new_vals cs = List.map_filter new_val cs"

definition old_vals :: "change list \<Rightarrow> sr_val list" where
  "old_vals cs = List.map_filter old_val cs"

lemma new_vals_simps [simp]:
  "new_vals [] = []"
  "new_val c = Some v \<Longrightarrow> new_vals (c # cs) = v # new_vals cs"
  by (simp_all add: new_vals_def)

lemma old_vals_simps [simp]:
  "old_vals [] = []"
  "old_val c = Some v \<Longrightarrow> old_vals (c # cs) = v # old_vals cs"
  by (simp_all add: old_vals_def)


section \<open>Facts on the loop\<close>

lemma walk_changes_append:
  "walk_changes step (cs @ ds) l =
     bindO (walk_changes step cs l)
       (\<lambda>f. case f of Next l' \<Rightarrow> walk_changes step ds l' | Leave rc l' \<Rightarrow> Val (Leave rc l'))"
proof (induction cs arbitrary: l)
  case (Cons c cs)
  show ?case
  proof (cases "step c l")
    case (Val f)
    then show ?thesis
      using Cons.IH by (cases f) simp_all
  qed simp_all
qed simp

lemma walk_changes_cong:
  "(\<And>c l. c \<in> set cs \<Longrightarrow> step c l = step' c l) \<Longrightarrow> walk_changes step cs l = walk_changes step' cs l"
  by (induction cs arbitrary: l) (auto intro!: bindO_cong split: flow.split)

lemma foreach_change_simps [simp]:
  "foreach_change SR_EV_ABORT step cs l = Val (Next l)"
  "event \<noteq> SR_EV_ABORT \<Longrightarrow> foreach_change event step cs l = walk_changes step cs l"
  by (simp_all add: foreach_change_def)

text \<open>The loop leaves early only where one of its steps did.\<close>

lemma walk_changes_Leave:
  assumes "walk_changes step cs l = Val (Leave rc l')"
  shows "\<exists>c \<in> set cs. \<exists>m. step c m = Val (Leave rc l')"
  using assms
proof (induction cs arbitrary: l)
  case (Cons c cs)
  then obtain f where f: "step c l = Val f"
    by (auto simp: outcome_simps)
  then show ?case
    using Cons by (cases f) auto
qed simp

lemma walk_changes_Undef:
  assumes "walk_changes step cs l = Undef u"
  shows "\<exists>c \<in> set cs. \<exists>m. step c m = Undef u"
  using assms
proof (induction cs arbitrary: l)
  case (Cons c cs)
  show ?case
  proof (cases "step c l")
    case (Val f)
    with Cons show ?thesis
      by (cases f) auto
  qed (use Cons.prems in auto)
qed simp

lemma vals_after_loop_freed [simp]:
  "free_ptr (vals_after_loop ds cs) = (if cs = [] \<or> end_clears ds then Val Null else Undef DoubleFree)"
  by (simp add: vals_after_loop_def)

lemma ARG_CHECK_simps [simp]:
  "ARG_CHECK r None k = Val r"
  "ARG_CHECK r (Some a) k = k a"
  by (simp_all add: ARG_CHECK_def)

lemma ARG_CHECK2_simps [simp]:
  "ARG_CHECK2 r None b k2 = Val r"
  "ARG_CHECK2 r a None k2 = Val r"
  "ARG_CHECK2 r (Some x) (Some y) k2 = k2 x y"
  by (simp_all add: ARG_CHECK2_def ARG_CHECK_def split: option.split)

lemma ARG_CHECK3_simps [simp]:
  "ARG_CHECK3 r None b c k3 = Val r"
  "ARG_CHECK3 r a None c k3 = Val r"
  "ARG_CHECK3 r a b None k3 = Val r"
  "ARG_CHECK3 r (Some x) (Some y) (Some z) k3 = k3 x y z"
  by (simp_all add: ARG_CHECK3_def ARG_CHECK_def split: option.split)

lemma ARG_CHECK4_iff:
  "ARG_CHECK4 r a b c d k =
    (if None \<in> {map_option (\<lambda>_. ()) a, map_option (\<lambda>_. ()) b, map_option (\<lambda>_. ()) c, map_option (\<lambda>_. ()) d} then Val r
     else k (the a) (the b) (the c) (the d))"
  by (simp add: ARG_CHECK4_def ARG_CHECK_def split: option.split)


section \<open>The contract of a loop body\<close>

text \<open>
  A body that keeps a relation between the callback's variables on every admissible
  change: then the whole loop keeps it, on normal ends and on early ones.
\<close>

locale change_body =
  fixes step :: "change \<Rightarrow> 'l \<Rightarrow> 'l flow outcome"
    and admissible :: "change \<Rightarrow> bool"
    and keeps :: "'l \<Rightarrow> 'l \<Rightarrow> bool"
  assumes keeps_refl: "keeps l l"
    and keeps_trans: "keeps l m \<Longrightarrow> keeps m n \<Longrightarrow> keeps l n"
    and step_keeps: "admissible c \<Longrightarrow> step c l = Val f \<Longrightarrow> keeps l (flow_state f)"
begin

lemma walk_keeps:
  "walk_changes step cs l = Val f \<Longrightarrow> \<forall>c \<in> set cs. admissible c \<Longrightarrow> keeps l (flow_state f)"
proof (induction cs arbitrary: l)
  case Nil
  then show ?case
    by (auto simp: keeps_refl)
next
  case (Cons c cs)
  then obtain g where g: "step c l = Val g"
    by (auto simp: outcome_simps)
  from step_keeps [OF _ g] Cons show ?case
    by (cases g) (auto simp: g intro: keeps_trans)
qed

lemma foreach_keeps:
  "foreach_change event step cs l = Val f \<Longrightarrow> \<forall>c \<in> set cs. admissible c \<Longrightarrow> keeps l (flow_state f)"
  by (cases "event = SR_EV_ABORT") (auto simp: keeps_refl intro: walk_keeps)

end


section \<open>The contract of a configuration callback\<close>

text \<open>
  A callback that acts on \<open>SR_EV_VERIFY\<close> only. Sysrepo delivers \<open>SR_EV_VERIFY\<close>
  first and then \<open>SR_EV_APPLY\<close> or \<open>SR_EV_ABORT\<close>; the state after either pair is the
  state after the first notification.
\<close>

locale verify_only =
  fixes cb :: "sr_event \<Rightarrow> 's \<Rightarrow> (sr_error \<times> 's) outcome"
  assumes other_events: "event \<noteq> SR_EV_VERIFY \<Longrightarrow> cb event s = Val (SR_ERR_OK, s)"
begin

lemma commit_state:
  "bindO (cb SR_EV_VERIFY s) (\<lambda>(rc, s'). cb SR_EV_APPLY s') =
     bindO (cb SR_EV_VERIFY s) (\<lambda>(rc, s'). Val (SR_ERR_OK, s'))"
  by (cases "cb SR_EV_VERIFY s") (auto simp: other_events split: prod.split)

lemma abort_keeps_verify_effects:
  "bindO (cb SR_EV_VERIFY s) (\<lambda>(rc, s'). cb SR_EV_ABORT s') =
     bindO (cb SR_EV_VERIFY s) (\<lambda>(rc, s'). Val (SR_ERR_OK, s'))"
  by (cases "cb SR_EV_VERIFY s") (auto simp: other_events split: prod.split)

lemma deliver_verify_only:
  "deliver_events cb evs s = deliver_events cb (filter (\<lambda>ev. ev = SR_EV_VERIFY) evs) s"
proof (induction evs arbitrary: s)
  case (Cons ev evs)
  show ?case
  proof (cases "ev = SR_EV_VERIFY")
    case True
    then show ?thesis
      using Cons.IH by (simp cong: bindO_cong)
  next
    case False
    then show ?thesis
      using Cons.IH by (simp add: other_events)
  qed
qed simp

end


section \<open>A concrete instance of the xpath functions\<close>

text \<open>
  The name of the last node of an xpath, and the value of a key predicate. They
  instantiate \<open>sr_api\<close> where a property is applied at a concrete input.
\<close>

fun find_sub :: "string \<Rightarrow> string \<Rightarrow> string option" where
  "find_sub pat [] = None"
| "find_sub pat (c # cs) =
     (if take (length pat) (c # cs) = pat then Some (drop (length pat) (c # cs)) else find_sub pat cs)"

definition last_node :: "string \<Rightarrow> string" where
  "last_node xp = takeWhile (\<lambda>c. c \<noteq> CHR ''['') (rev (takeWhile (\<lambda>c. c \<noteq> CHR ''/'') (rev xp)))"

definition sample_api :: sr_api where
  "sample_api = \<lparr>
     sr_xpath_node_name_eq = (\<lambda>xp n. last_node xp = n),
     sr_xpath_key_value = (\<lambda>xp n k.
       map_option (takeWhile (\<lambda>c. c \<noteq> CHR 0x27)) (find_sub (n @ ''['' @ k @ ''='' @ [CHR 0x27]) xp))\<rparr>"

text \<open>The xpath of a node below the interface \<open>eth0\<close>, and changes of it.\<close>

definition eth0_path :: "string \<Rightarrow> string" where
  "eth0_path n = ''/interfaces/interface[name='' @ [CHR 0x27] @ ''eth0'' @ [CHR 0x27] @ '']/'' @ n"

definition sample_created :: "string \<Rightarrow> sr_data \<Rightarrow> change" where
  "sample_created xp d = \<lparr>oper = SR_OP_CREATED, old_val = None, new_val = Some \<lparr>xpath = xp, data = d\<rparr>\<rparr>"

definition sample_modified :: "string \<Rightarrow> sr_data \<Rightarrow> sr_data \<Rightarrow> change" where
  "sample_modified xp d d' =
     \<lparr>oper = SR_OP_MODIFIED, old_val = Some \<lparr>xpath = xp, data = d\<rparr>, new_val = Some \<lparr>xpath = xp, data = d'\<rparr>\<rparr>"

definition sample_deleted :: "string \<Rightarrow> sr_data \<Rightarrow> change" where
  "sample_deleted xp d = \<lparr>oper = SR_OP_DELETED, old_val = Some \<lparr>xpath = xp, data = d\<rparr>, new_val = None\<rparr>"

definition sample_session :: "change list \<Rightarrow> session" where
  "sample_session cs = \<lparr>sr_get_changes_iter = (\<lambda>xp. (SR_ERR_OK, cs)), end_clears = True\<rparr>"

lemma sample_session_iter [simp]: "sr_get_changes_iter (sample_session cs) xp = (SR_ERR_OK, cs)"
  by (simp add: sample_session_def)

lemmas sample_change_defs = sample_created_def sample_modified_def sample_deleted_def

end
