(* ===== verification/Vom.thy ===== *)
theory Vom
  imports Sysrepo
begin

text \<open>
  The VPP Object Model (VOM) library as the plugins see it: a record of the functions
  they call, over an abstract state \<open>'s\<close> of the library and of VPP behind it. Every
  callback takes this record as an argument; nothing is assumed about the functions but
  where a property says so.
\<close>

section \<open>Types\<close>

text \<open>
  How a call of \<open>OM::write\<close> ends: with a \<open>VOM::rc_t\<close>, which the sources only compare
  with \<open>rc_t::OK\<close>, or with an exception.
\<close>

datatype rc_t = RC_OK | RC_FAILED nat | RC_THROWN exn

text \<open>\<open>VOM::interface::stats_t\<close>\<close>

record counter_t =
  packets :: "64 word"
  bytes :: "64 word"

record stats_t =
  m_rx :: counter_t
  m_tx :: counter_t
  m_rx_unicast :: counter_t
  m_tx_unicast :: counter_t
  m_rx_multicast :: counter_t
  m_tx_multicast :: counter_t
  m_rx_broadcast :: counter_t
  m_tx_broadcast :: counter_t

text \<open>The fields of \<open>vapi_payload_sw_interface_details\<close> that the plugins read.\<close>

record sw_interface_details =
  interface_name :: string
  flags :: "32 word"
  link_duplex :: "32 word"
  l2_address :: "8 word list"
  sw_if_index :: "32 word"
  link_speed :: "32 word"
  link_mtu :: "16 word"

text \<open>The request of \<open>sw_interface_dump\<close>.\<close>

record dump_payload =
  name_filter_valid :: "8 word"
  name_filter :: string


section \<open>The functions of the library\<close>

text \<open>
  \<open>'i\<close> are shared pointers to interface objects, \<open>'p\<close> values of
  \<open>VOM::route::prefix_t\<close>, \<open>'a\<close> addresses. \<open>prefix_t\<close> yields \<open>Inl\<close> where the
  constructor throws. Each \<open>OM::write\<close> may fail or throw, and leaves a state in either
  case. The other functions are taken not to throw: \<open>make_shared\<close> throws only when memory
  is exhausted, which is not modelled, the lookups and the setter have nothing to throw,
  and what \<open>OM::remove\<close> drops is swept by destructors, which no exception may leave.

  \<open>dump\<close> is the execution of a dump request by \<open>HW::write\<close>, with
  the records it returns; \<open>name_filter_size\<close> the size of the request's name buffer.
\<close>

record ('s, 'i, 'p, 'a) vom_api =
  make_interface :: "string \<Rightarrow> string \<Rightarrow> bool \<Rightarrow> 's \<Rightarrow> 'i \<times> 's"
  interface_find :: "string \<Rightarrow> 's \<Rightarrow> 'i option"
  interface_set :: "'i \<Rightarrow> bool \<Rightarrow> 's \<Rightarrow> 's"
  interface_key :: "'i \<Rightarrow> 's \<Rightarrow> string"
  interface_itf_name :: "'i \<Rightarrow> 's \<Rightarrow> string"
  get_stats :: "'i \<Rightarrow> 's \<Rightarrow> stats_t"
  prefix_t :: "string \<Rightarrow> 8 word \<Rightarrow> exn + 'p"
  prefix_t_to_string :: "'p \<Rightarrow> string"
  om_write_interface :: "string \<Rightarrow> 'i \<Rightarrow> 's \<Rightarrow> rc_t \<times> 's"
  om_write_l3 :: "string \<Rightarrow> 'i \<Rightarrow> 'p \<Rightarrow> 's \<Rightarrow> rc_t \<times> 's"
  om_write_nat :: "string \<Rightarrow> 'a \<Rightarrow> 'a \<Rightarrow> 's \<Rightarrow> rc_t \<times> 's"
  om_remove :: "string \<Rightarrow> 's \<Rightarrow> 's"
  dump :: "dump_payload \<Rightarrow> 's \<Rightarrow> sw_interface_details list"
  name_filter_size :: nat


section \<open>A concrete instance\<close>

text \<open>
  A small object database that instantiates the parameters where a property is applied
  at a concrete input: interface objects are reached by name, and the database keeps the
  objects written under each key, most recent first.
\<close>

datatype sample_obj =
    Sample_Itf string
  | Sample_L3 string string
  | Sample_Nat "8 word list" "8 word list"

record sample_db =
  itfs :: "(string \<times> string \<times> bool) list"
  objs :: "(string \<times> sample_obj) list"

definition sample_prefix_t :: "string \<Rightarrow> 8 word \<Rightarrow> exn + string" where
  "sample_prefix_t a l =
     (if a = ''bad'' then Inl (Library_error ''from_string'') else Inr (a @ ''/'' @ to_dec l))"

definition sample_put :: "string \<Rightarrow> sample_obj \<Rightarrow> sample_db \<Rightarrow> rc_t \<times> sample_db" where
  "sample_put k ob s =
     (if (k, ob) \<in> set (objs s) then (RC_OK, s) else (RC_OK, s\<lparr>objs := (k, ob) # objs s\<rparr>))"

definition zero_counter :: counter_t where
  "zero_counter = \<lparr>packets = 0, bytes = 0\<rparr>"

definition sample_stats :: stats_t where
  "sample_stats = \<lparr>
     m_rx = \<lparr>packets = 1, bytes = 100\<rparr>, m_tx = \<lparr>packets = 2, bytes = 200\<rparr>,
     m_rx_unicast = \<lparr>packets = 3, bytes = 0\<rparr>, m_tx_unicast = \<lparr>packets = 4, bytes = 0\<rparr>,
     m_rx_multicast = \<lparr>packets = 5, bytes = 0\<rparr>, m_tx_multicast = \<lparr>packets = 6, bytes = 0\<rparr>,
     m_rx_broadcast = \<lparr>packets = 7, bytes = 0\<rparr>, m_tx_broadcast = \<lparr>packets = 8, bytes = 0\<rparr>\<rparr>"

definition sample_details :: "nat \<Rightarrow> string \<times> string \<times> bool \<Rightarrow> sw_interface_details" where
  "sample_details i x =
     \<lparr>interface_name = fst x, flags = (if snd (snd x) then 1 else 0), link_duplex = 2,
      l2_address = [0x02, 0xfe, 0, 0, 0, 0xab], sw_if_index = word_of_nat i,
      link_speed = 1000000, link_mtu = 9000\<rparr>"

definition sample_vom :: "(sample_db, string, string, 8 word list) vom_api" where
  "sample_vom = \<lparr>
     make_interface = (\<lambda>n t b s. (n, s\<lparr>itfs := (n, t, b) # filter (\<lambda>x. fst x \<noteq> n) (itfs s)\<rparr>)),
     interface_find = (\<lambda>n s. if (n, Sample_Itf n) \<in> set (objs s) then Some n else None),
     interface_set = (\<lambda>i b s. s\<lparr>itfs := map (\<lambda>(n, t, b'). (n, t, if n = i then b else b')) (itfs s)\<rparr>),
     interface_key = (\<lambda>i s. i),
     interface_itf_name = (\<lambda>i s. i),
     get_stats = (\<lambda>i s. sample_stats),
     prefix_t = sample_prefix_t,
     prefix_t_to_string = (\<lambda>p. p),
     om_write_interface = (\<lambda>k i. sample_put k (Sample_Itf i)),
     om_write_l3 = (\<lambda>k i p. sample_put k (Sample_L3 i p)),
     om_write_nat = (\<lambda>k x y. sample_put k (Sample_Nat x y)),
     om_remove = (\<lambda>k s. s\<lparr>objs := filter (\<lambda>x. fst x \<noteq> k) (objs s)\<rparr>),
     dump = (\<lambda>req s. map (\<lambda>x. sample_details 1 x)
        (filter (\<lambda>x. name_filter_valid req = 0 \<or> fst x = name_filter req) (itfs s))),
     name_filter_size = 64\<rparr>"

definition sample_empty :: sample_db where
  "sample_empty = \<lparr>itfs = [], objs = []\<rparr>"

end
