(* ===== verification/Interface_Builder.thy ===== *)
theory Interface_Builder
  imports Vom
begin

text \<open>
  What \<open>ietf_interface.cpp\<close> and \<open>openconfig_interfaces.cpp\<close> share, statement for
  statement: the class \<open>interface_builder\<close>, the variables of the configuration
  callback, the reaction to created leaves, and the part of the callback behind the loop
  that commits the collected changes.
\<close>

section \<open>Class interface\_builder\<close>

text \<open>
  The constructor \<open>interface_builder() {}\<close> leaves \<open>m_state\<close> uninitialised; the content
  of that memory is its argument.
\<close>

record interface_builder =
  m_name :: string
  m_type :: string
  m_state :: "bool option"

definition new_builder :: "bool option \<Rightarrow> interface_builder" where
  "new_builder mem = \<lparr>m_name = [], m_type = [], m_state = mem\<rparr>"

definition set_name :: "string \<Rightarrow> interface_builder \<Rightarrow> interface_builder" where
  "set_name n b = b\<lparr>m_name := n\<rparr>"

definition set_type :: "string \<Rightarrow> interface_builder \<Rightarrow> interface_builder" where
  "set_type t b = (if t = ''iana-if-type:ethernetCsmacd'' then b\<lparr>m_type := ''ETHERNET''\<rparr> else b)"

definition set_state :: "bool \<Rightarrow> interface_builder \<Rightarrow> interface_builder" where
  "set_state enable b = b\<lparr>m_state := Some enable\<rparr>"

text \<open>\<open>None\<close>: the null pointer that signals an incomplete description.\<close>

definition build ::
    "('s, 'i, 'p, 'a) vom_api \<Rightarrow> interface_builder \<Rightarrow> 's \<Rightarrow> ('i option \<times> 's) outcome" where
  "build vom b s =
     (if m_name b = [] \<or> m_type b = [] then Val (None, s)
      else bindO (load (m_state b))
        (\<lambda>st. case make_interface vom (m_name b) (m_type b) st s of (i, s') \<Rightarrow> Val (Some i, s')))"

definition builder_name :: "interface_builder \<Rightarrow> string" where
  "builder_name b = m_name b"

text \<open>\<open>m_name << "," << m_type << "," << m_state\<close>; a bool prints as 1 or 0.\<close>

definition builder_to_string :: "interface_builder \<Rightarrow> string outcome" where
  "builder_to_string b =
     bindO (load (m_state b))
       (\<lambda>st. Val (m_name b @ '','' @ m_type b @ '','' @ (if st then ''1'' else ''0'')))"


section \<open>Variables of the callbacks\<close>

text \<open>
  \<open>bool create, remove, modify;\<close> have no initialiser: what the memory holds on entry is
  part of \<open>uninit\<close>, with the builder's \<open>m_state\<close>.
\<close>

record uninit =
  mem_create :: "bool option"
  mem_remove :: "bool option"
  mem_modify :: "bool option"
  mem_state :: "bool option"

text \<open>Memory that the C++ standard calls indeterminate, and memory that happens to be zero.\<close>

definition indeterminate :: uninit where
  "indeterminate = \<lparr>mem_create = None, mem_remove = None, mem_modify = None, mem_state = None\<rparr>"

definition zeroed :: uninit where
  "zeroed = \<lparr>mem_create = Some False, mem_remove = Some False, mem_modify = Some False,
             mem_state = Some False\<rparr>"

record ('s, 'i) intf_locals =
  builder :: interface_builder
  intf :: "'i option"
  create :: "bool option"
  remove :: "bool option"
  modify :: "bool option"
  db :: 's

definition intf_start :: "uninit \<Rightarrow> 's \<Rightarrow> ('s, 'i) intf_locals" where
  "intf_start mem s =
     \<lparr>builder = new_builder (mem_state mem), intf = None, create = mem_create mem,
      remove = mem_remove mem, modify = mem_modify mem, db = s\<rparr>"


section \<open>Branches of the loop\<close>

text \<open>\<open>case SR_OP_CREATED\<close>\<close>

definition intf_created ::
    "sr_api \<Rightarrow> sr_val \<Rightarrow> ('s, 'i) intf_locals \<Rightarrow> ('s, 'i) intf_locals flow outcome" where
  "intf_created api v l =
     (if sr_xpath_node_name_eq api (xpath v) ''name''
      then bindO (string_val v) (\<lambda>n. Val (Next (l\<lparr>builder := set_name n (builder l), create := Some True\<rparr>)))
      else if sr_xpath_node_name_eq api (xpath v) ''type''
      then bindO (string_val v) (\<lambda>t. Val (Next (l\<lparr>builder := set_type t (builder l)\<rparr>)))
      else if sr_xpath_node_name_eq api (xpath v) ''enabled''
      then bindO (bool_val v) (\<lambda>b. Val (Next (l\<lparr>builder := set_state b (builder l)\<rparr>)))
      else Val (Next l))"

text \<open>\<open>case SR_OP_MODIFIED\<close>: \<open>intf->set\<close> changes the object that VOM shares.\<close>

definition intf_modified ::
    "sr_api \<Rightarrow> ('s, 'i, 'p, 'a) vom_api \<Rightarrow> sr_val \<Rightarrow> ('s, 'i) intf_locals \<Rightarrow>
     ('s, 'i) intf_locals flow outcome" where
  "intf_modified api vom v l =
     (if sr_xpath_node_name_eq api (xpath v) ''enabled''
      then bindO (deref (sr_xpath_key_value api (xpath v) ''interface'' ''name''))
        (\<lambda>n. case interface_find vom n (db l) of
           None \<Rightarrow> Val (Leave SR_ERR_OPERATION_FAILED (l\<lparr>intf := None\<rparr>))
         | Some i \<Rightarrow> bindO (bool_val v)
             (\<lambda>b. Val (Next (l\<lparr>intf := Some i, db := interface_set vom i b (db l), modify := Some True\<rparr>))))
      else Val (Next l))"

text \<open>\<open>case SR_OP_DELETED\<close>\<close>

definition intf_deleted ::
    "sr_api \<Rightarrow> sr_val \<Rightarrow> ('s, 'i) intf_locals \<Rightarrow> ('s, 'i) intf_locals flow outcome" where
  "intf_deleted api v l =
     (if sr_xpath_node_name_eq api (xpath v) ''name''
      then bindO (string_val v) (\<lambda>n. Val (Next (l\<lparr>builder := set_name n (builder l), remove := Some True\<rparr>)))
      else Val (Next l))"


section \<open>Behind the loop\<close>

text \<open>
  Build the interface if one was created, write it (or the modified one) to the object
  model, else remove. The jumps to \<open>nothing_todo\<close> free the value pointers once more.
\<close>

definition intf_finish ::
    "('s, 'i, 'p, 'a) vom_api \<Rightarrow> lifetime \<Rightarrow> ('s, 'i) intf_locals \<Rightarrow> (sr_error \<times> 's) outcome" where
  "intf_finish vom vals l =
     bindO (load (create l)) (\<lambda>c.
     bindO
       (if c then bindO (build vom (builder l) (db l)) (\<lambda>(i, s). Val (l\<lparr>intf := i, db := s\<rparr>))
        else Val l)
       (\<lambda>l.
        if c \<and> intf l = None
        then bindO (free_ptr vals) (\<lambda>_. Val (SR_ERR_INVAL_ARG, db l))
        else bindO (if c then Val True else load (modify l)) (\<lambda>wr.
          if wr
          then bindO (deref (intf l)) (\<lambda>i.
            (case om_write_interface vom (interface_key vom i (db l)) i (db l) of
               (RC_OK, s) \<Rightarrow> Val (SR_ERR_OK, s)
             | (RC_FAILED _, s) \<Rightarrow>
                 bindO (builder_to_string (builder l)) (\<lambda>_.
                 bindO (free_ptr vals) (\<lambda>_. Val (SR_ERR_OPERATION_FAILED, s)))
             | (RC_THROWN e, s) \<Rightarrow> Throw e))
          else bindO (load (remove l)) (\<lambda>rm.
            if rm then Val (SR_ERR_OK, om_remove vom (builder_name (builder l)) (db l))
            else Val (SR_ERR_OK, db l)))))"

text \<open>The loop over the changes and the code behind it.\<close>

definition intf_run ::
    "(change \<Rightarrow> ('s, 'i) intf_locals \<Rightarrow> ('s, 'i) intf_locals flow outcome) \<Rightarrow>
     ('s, 'i, 'p, 'a) vom_api \<Rightarrow> uninit \<Rightarrow> session \<Rightarrow> sr_event \<Rightarrow> change list \<Rightarrow> 's \<Rightarrow>
     (sr_error \<times> 's) outcome" where
  "intf_run step vom mem ds event cs s =
     bindO (foreach_change event step cs (intf_start mem s))
       (\<lambda>f. case f of
          Leave rc l \<Rightarrow> Val (rc, db l)
        | Next l \<Rightarrow> intf_finish vom (vals_after_loop ds cs) l)"


section \<open>What the changes of a commit describe\<close>

text \<open>The leaves among a list of values, in order.\<close>

definition str_of :: "sr_val \<Rightarrow> string" where
  "str_of v = (case string_val v of Val x \<Rightarrow> x | _ \<Rightarrow> [])"

definition flag_of :: "sr_val \<Rightarrow> bool" where
  "flag_of v = (case bool_val v of Val b \<Rightarrow> b | _ \<Rightarrow> False)"

definition names_of :: "sr_api \<Rightarrow> sr_val list \<Rightarrow> string list" where
  "names_of api vs = map str_of (filter (\<lambda>v. sr_xpath_node_name_eq api (xpath v) ''name'') vs)"

definition types_of :: "sr_api \<Rightarrow> sr_val list \<Rightarrow> string list" where
  "types_of api vs = map str_of (filter (\<lambda>v. \<not> sr_xpath_node_name_eq api (xpath v) ''name'' \<and>
     sr_xpath_node_name_eq api (xpath v) ''type'') vs)"

definition states_of :: "sr_api \<Rightarrow> sr_val list \<Rightarrow> bool list" where
  "states_of api vs = map flag_of (filter (\<lambda>v. \<not> sr_xpath_node_name_eq api (xpath v) ''name'' \<and>
     \<not> sr_xpath_node_name_eq api (xpath v) ''type'' \<and> sr_xpath_node_name_eq api (xpath v) ''enabled'') vs)"

text \<open>The leaves carry the types that the YANG models give them.\<close>

definition typed_leaf :: "sr_api \<Rightarrow> sr_val \<Rightarrow> bool" where
  "typed_leaf api v \<longleftrightarrow>
     (if sr_xpath_node_name_eq api (xpath v) ''name'' \<or> sr_xpath_node_name_eq api (xpath v) ''type''
      then is_val (string_val v)
      else if sr_xpath_node_name_eq api (xpath v) ''enabled'' then is_val (bool_val v) else True)"

definition ethernet :: string where
  "ethernet = ''iana-if-type:ethernetCsmacd''"

text \<open>The variables after a loop over created leaves only.\<close>

definition intf_collect :: "sr_api \<Rightarrow> sr_val list \<Rightarrow> ('s, 'i) intf_locals \<Rightarrow> ('s, 'i) intf_locals" where
  "intf_collect api vs l =
     l\<lparr>builder :=
         \<lparr>m_name = last_or (m_name (builder l)) (names_of api vs),
          m_type = (if ethernet \<in> set (types_of api vs) then ''ETHERNET'' else m_type (builder l)),
          m_state = last_or (m_state (builder l)) (map Some (states_of api vs))\<rparr>,
       create := (if names_of api vs = [] then create l else Some True)\<rparr>"


section \<open>The builder\<close>

declare builder_name_def [simp]

lemmas builder_defs [callback_simps] =
  new_builder_def set_name_def set_type_def set_state_def build_def

lemma build_complete:
  assumes "m_name b \<noteq> []" "m_type b \<noteq> []" "m_state b = Some st"
  shows "build vom b s =
    Val (Some (fst (make_interface vom (m_name b) (m_type b) st s)),
         snd (make_interface vom (m_name b) (m_type b) st s))"
  using assms by (simp add: build_def split: prod.split)

lemma build_incomplete: "m_name b = [] \<or> m_type b = [] \<Longrightarrow> build vom b s = Val (None, s)"
  by (simp add: build_def)


section \<open>Created leaves\<close>

lemmas leaf_defs = names_of_def types_of_def states_of_def

lemma intf_collect_Nil [simp]: "intf_collect api [] l = l"
  by (simp add: intf_collect_def leaf_defs)

lemma intf_created_collect:
  assumes "typed_leaf api v"
  shows "intf_created api v l = Val (Next (intf_collect api [v] l))"
  using assms
  by (cases "builder l")
    (auto simp: intf_created_def intf_collect_def typed_leaf_def leaf_defs ethernet_def str_of_def
      flag_of_def set_name_def set_type_def set_state_def is_val_iff simp del: string_val.simps bool_val.simps)

lemma intf_collect_Cons: "intf_collect api vs (intf_collect api [v] l) = intf_collect api (v # vs) l"
  by (auto simp: intf_collect_def leaf_defs)

text \<open>A change that creates a leaf; \<open>good\<close> is what the callback checks of its xpath.\<close>

definition creates :: "sr_api \<Rightarrow> (sr_val \<Rightarrow> bool) \<Rightarrow> change \<Rightarrow> bool" where
  "creates api good c \<longleftrightarrow>
     oper c = SR_OP_CREATED \<and>
     (case new_val c of None \<Rightarrow> False | Some v \<Rightarrow> good v \<and> typed_leaf api v)"

definition creates_name :: "sr_api \<Rightarrow> change \<Rightarrow> bool" where
  "creates_name api c \<longleftrightarrow>
     oper c = SR_OP_CREATED \<and>
     (case new_val c of None \<Rightarrow> False | Some v \<Rightarrow> sr_xpath_node_name_eq api (xpath v) ''name'')"

text \<open>A change of an interface's \<open>enabled\<close> leaf to \<open>b\<close>, with the interface's name.\<close>

definition enables :: "sr_api \<Rightarrow> (sr_val \<Rightarrow> bool) \<Rightarrow> change \<Rightarrow> string \<Rightarrow> bool \<Rightarrow> bool" where
  "enables api good c n b \<longleftrightarrow>
     oper c = SR_OP_MODIFIED \<and>
     (case new_val c of None \<Rightarrow> False | Some v \<Rightarrow>
        good v \<and> sr_xpath_node_name_eq api (xpath v) ''enabled'' \<and>
        sr_xpath_key_value api (xpath v) ''interface'' ''name'' = Some n \<and> data v = SR_BOOL_T b)"

text \<open>
  Writing an interface object to the object model; \<open>vals\<close> is the state of the value
  pointers that the error path frees.
\<close>

definition write_result ::
    "('s, 'i, 'p, 'a) vom_api \<Rightarrow> lifetime \<Rightarrow> 'i \<Rightarrow> 's \<Rightarrow> (sr_error \<times> 's) outcome" where
  "write_result vom vals i s =
     (case om_write_interface vom (interface_key vom i s) i s of
        (RC_OK, s') \<Rightarrow> Val (SR_ERR_OK, s')
      | (RC_FAILED _, s') \<Rightarrow> bindO (free_ptr vals) (\<lambda>_. Val (SR_ERR_OPERATION_FAILED, s'))
      | (RC_THROWN e, s') \<Rightarrow> Throw e)"


text \<open>What the branches of the loop do to the variables that the code behind it reads.\<close>

lemma intf_created_Val:
  assumes "intf_created api v l = Val f"
  obtains l' where "f = Next l'" "db l' = db l"
    "create l' = create l \<or> sr_xpath_node_name_eq api (xpath v) ''name''"
  using assms by (auto simp: intf_created_def outcome_simps split: if_splits)

lemma intf_modified_Val:
  assumes "intf_modified api vom v l = Val f"
  shows "create (flow_state f) = create l \<and> (\<forall>rc l'. f = Leave rc l' \<longrightarrow> rc \<noteq> SR_ERR_OK)"
  using assms by (auto simp: intf_modified_def outcome_simps split: if_splits option.splits)

lemma intf_deleted_Val:
  assumes "intf_deleted api v l = Val f"
  obtains l' where "f = Next l'" "db l' = db l" "create l' = create l"
  using assms by (auto simp: intf_deleted_def outcome_simps split: if_splits)


section \<open>The contract of the two loop bodies\<close>

text \<open>
  Both callbacks treat created and modified leaves alike once their own checks of the
  xpath passed (\<open>good\<close>); only a created name sets \<open>create\<close>, only a modified leaf
  changes the state, and the loop is never left with \<open>SR_ERR_OK\<close>.
\<close>

locale intf_body =
  fixes step :: "change \<Rightarrow> ('s, 'i) intf_locals \<Rightarrow> ('s, 'i) intf_locals flow outcome"
    and api :: sr_api
    and vom :: "('s, 'i, 'p, 'a) vom_api"
    and good :: "sr_val \<Rightarrow> bool"
  assumes step_created:
      "oper c = SR_OP_CREATED \<Longrightarrow> new_val c = Some v \<Longrightarrow> good v \<Longrightarrow> step c l = intf_created api v l"
    and step_modified:
      "oper c = SR_OP_MODIFIED \<Longrightarrow> new_val c = Some v \<Longrightarrow> good v \<Longrightarrow> step c l = intf_modified api vom v l"
    and step_create_flag:
      "step c l = Val f \<Longrightarrow> create (flow_state f) \<noteq> create l \<Longrightarrow> creates_name api c"
    and step_db: "step c l = Val f \<Longrightarrow> oper c \<noteq> SR_OP_MODIFIED \<Longrightarrow> db (flow_state f) = db l"
    and step_leave: "step c l = Val (Leave rc l') \<Longrightarrow> rc \<noteq> SR_ERR_OK"
begin

lemma walk_created:
  "\<forall>c \<in> set cs. creates api good c \<Longrightarrow>
    walk_changes step cs l = Val (Next (intf_collect api (new_vals cs) l))"
proof (induction cs arbitrary: l)
  case (Cons c cs)
  then obtain v where "oper c = SR_OP_CREATED" "new_val c = Some v" "good v" "typed_leaf api v"
    by (auto simp: creates_def split: option.splits)
  with Cons show ?case
    by (simp add: step_created intf_created_collect intf_collect_Cons)
qed simp

lemma walk_create_flag:
  assumes "walk_changes step cs l = Val f" "\<forall>c \<in> set cs. \<not> creates_name api c"
  shows "create (flow_state f) = create l"
  using assms
proof (induction cs arbitrary: l)
  case (Cons c cs)
  then obtain g where g: "step c l = Val g"
    by (auto simp: outcome_simps)
  have "create (flow_state g) = create l"
    using step_create_flag [OF g] Cons.prems(2) by auto
  with g Cons show ?case
    by (cases g) auto
qed auto

lemma run_created:
  assumes "\<forall>c \<in> set cs. creates api good c" "names_of api (new_vals cs) \<noteq> []"
  shows "intf_run step vom mem ds SR_EV_VERIFY cs s =
    (let vs = new_vals cs; vals = vals_after_loop ds cs in
     if last (names_of api vs) = [] \<or> ethernet \<notin> set (types_of api vs)
     then bindO (free_ptr vals) (\<lambda>_. Val (SR_ERR_INVAL_ARG, s))
     else bindO (load (last_or (mem_state mem) (map Some (states_of api vs)))) (\<lambda>st.
       case make_interface vom (last (names_of api vs)) ''ETHERNET'' st s of
         (i, s') \<Rightarrow> write_result vom vals i s'))"
  using assms(2)
  by (auto simp: intf_run_def walk_created [OF assms(1)] intf_finish_def intf_collect_def intf_start_def
      build_def new_builder_def last_or_def write_result_def builder_to_string_def Let_def bindO_assoc
      outcome_simps load_def split: prod.split rc_t.split option.split)

lemma run_enabled:
  assumes "enables api good c n b" "interface_find vom n s = Some i" "mem_create mem = Some False"
    and "mem_state mem = Some st"
  shows "intf_run step vom mem ds SR_EV_VERIFY [c] s =
    write_result vom (vals_after_loop ds [c]) i (interface_set vom i b s)"
proof -
  obtain v where v: "oper c = SR_OP_MODIFIED" "new_val c = Some v" "good v"
    "sr_xpath_node_name_eq api (xpath v) ''enabled''"
    "sr_xpath_key_value api (xpath v) ''interface'' ''name'' = Some n" "data v = SR_BOOL_T b"
    using assms(1) by (auto simp: enables_def split: option.splits)
  then have "step c l = intf_modified api vom v l" for l
    by (intro step_modified)
  with v assms(2-4) show ?thesis
    by (simp add: intf_run_def intf_modified_def intf_start_def intf_finish_def write_result_def
        builder_to_string_def new_builder_def split: prod.split rc_t.split)
qed

lemma run_enabled_written:
  assumes "enables api good c n b" "interface_find vom n s = Some i" "mem_create mem = Some False"
    and "om_write_interface vom (interface_key vom i (interface_set vom i b s)) i (interface_set vom i b s) = (RC_OK, s')"
  shows "intf_run step vom mem ds SR_EV_VERIFY [c] s = Val (SR_ERR_OK, s')"
proof -
  obtain v where v: "oper c = SR_OP_MODIFIED" "new_val c = Some v" "good v"
    "sr_xpath_node_name_eq api (xpath v) ''enabled''"
    "sr_xpath_key_value api (xpath v) ''interface'' ''name'' = Some n" "data v = SR_BOOL_T b"
    using assms(1) by (auto simp: enables_def split: option.splits)
  then have "step c l = intf_modified api vom v l" for l
    by (intro step_modified)
  with v assms(2-4) show ?thesis
    by (simp add: intf_run_def intf_modified_def intf_start_def intf_finish_def)
qed

lemma run_enabled_unknown:
  assumes "enables api good c n b" "interface_find vom n s = None"
  shows "intf_run step vom mem ds SR_EV_VERIFY (c # cs) s = Val (SR_ERR_OPERATION_FAILED, s)"
proof -
  obtain v where v: "oper c = SR_OP_MODIFIED" "new_val c = Some v" "good v"
    "sr_xpath_node_name_eq api (xpath v) ''enabled''"
    "sr_xpath_key_value api (xpath v) ''interface'' ''name'' = Some n"
    using assms(1) by (auto simp: enables_def split: option.splits)
  then have "step c l = intf_modified api vom v l" for l
    by (intro step_modified)
  with v assms(2) show ?thesis
    by (simp add: intf_run_def intf_modified_def intf_start_def)
qed

text \<open>With indeterminate flags, only a commit that creates a name can succeed.\<close>

lemma run_ok_creates_name:
  assumes "intf_run step vom mem ds SR_EV_VERIFY cs s = Val (SR_ERR_OK, s')" "mem_create mem = None"
  shows "\<exists>c \<in> set cs. creates_name api c"
proof (rule ccontr)
  assume no: "\<not> ?thesis"
  obtain f where f: "walk_changes step cs (intf_start mem s) = Val f"
    and r: "(case f of Leave rc l \<Rightarrow> Val (rc, db l) | Next l \<Rightarrow> intf_finish vom (vals_after_loop ds cs) l)
      = Val (SR_ERR_OK, s')"
    using assms(1) by (auto simp: intf_run_def outcome_simps)
  show False
  proof (cases f)
    case (Leave rc l)
    with walk_changes_Leave f step_leave r show ?thesis
      by fastforce
  next
    case (Next l)
    with walk_create_flag [OF f] no assms(2) have "create l = None"
      by (simp add: intf_start_def)
    with r Next show ?thesis
      by (simp add: intf_finish_def)
  qed
qed

end

end
