(* ===== verification/Sys_Util.thy ===== *)
theory Sys_Util
  imports Sysrepo
begin

text \<open>
  The helpers of \<open>src/plugins/sys_util.h\<close> and \<open>sys_util.cpp\<close>: the conversion of a
  netmask to a prefix length and the class \<open>utils::prefix\<close>. The address class of
  Boost.Asio and \<open>inet_pton\<close> are parameters, collected in \<open>net_api\<close>.
\<close>

unbundle bit_operations_syntax

section \<open>Parameters\<close>

datatype address_family = AF_INET | AF_INET6

text \<open>
  The functions of \<open>boost::asio::ip::address\<close> that the sources call (\<open>from_string\<close>
  throws where \<open>None\<close>), and \<open>inet_pton\<close>: the bytes of the address in network order, or
  \<open>None\<close> where it returns no positive value.
\<close>

record 'a net_api =
  addr_default :: 'a
  is_v4 :: "'a \<Rightarrow> bool"
  is_v6 :: "'a \<Rightarrow> bool"
  addr_to_string :: "'a \<Rightarrow> string"
  addr_from_string :: "string \<Rightarrow> 'a option"
  inet_pton :: "address_family \<Rightarrow> string \<Rightarrow> 8 word list option"

datatype byte_order = Little_Endian | Big_Endian


section \<open>netmask\_to\_plen\<close>

fun bytes_value :: "8 word list \<Rightarrow> nat" where
  "bytes_value [] = 0"
| "bytes_value (b # bs) = unat b + 256 * bytes_value bs"

text \<open>
  What \<open>in_addr_t n\<close> holds after the bytes were stored at its address: four bytes are
  its value in the host's order, fewer leave the rest of the initial zero, more run over
  the end of the variable.
\<close>

definition store_in_addr :: "byte_order \<Rightarrow> 8 word list \<Rightarrow> 32 word outcome" where
  "store_in_addr order bs =
     (if 4 < length bs then Undef BufferOverflow
      else let padded = bs @ replicate (4 - length bs) 0
           in Val (word_of_nat (bytes_value
                (case order of Little_Endian \<Rightarrow> padded | Big_Endian \<Rightarrow> rev padded))))"

text \<open>\<open>while (n > 0) { n = n >> 1; i++; }\<close> with \<open>uint8_t i\<close>\<close>

function plen_loop :: "32 word \<Rightarrow> 8 word \<Rightarrow> 8 word" where
  "plen_loop n i = (if n > 0 then plen_loop (drop_bit 1 n) (i + 1) else i)"
  by pat_completeness auto
termination
proof (relation "measure (\<lambda>(n, i). unat n)")
  fix n :: "32 word" and i :: "8 word"
  assume "0 < n"
  then show "((drop_bit 1 n, i + 1), n, i) \<in> measure (\<lambda>(n, i). unat n)"
    by (simp add: unat_drop_bit_1 unat_gt_0_word del: One_nat_def)
qed simp

declare plen_loop.simps [simp del]

definition netmask_to_plen :: "byte_order \<Rightarrow> 'a net_api \<Rightarrow> 'a \<Rightarrow> 8 word outcome" where
  "netmask_to_plen order net netmask =
     bindO
       (if is_v4 net netmask then Val AF_INET
        else if is_v6 net netmask then Val AF_INET6
        else Throw (Runtime_error ''Invalid address family''))
       (\<lambda>af. case inet_pton net af (addr_to_string net netmask) of
          None \<Rightarrow> Throw (Runtime_error ''Fail converting netmask to prefix length'')
        | Some bs \<Rightarrow> bindO (store_in_addr order bs) (\<lambda>n. Val (plen_loop n 0)))"


section \<open>Class prefix\<close>

text \<open>
  The default constructor leaves \<open>m_prefix_len\<close> uninitialised; the content of that
  memory is an argument of the constructor.
\<close>

record 'a prefix =
  m_address :: 'a
  m_prefix_len :: "16 word option"

definition prefix_default :: "'a net_api \<Rightarrow> 16 word option \<Rightarrow> 'a prefix" where
  "prefix_default net mem = \<lparr>m_address = addr_default net, m_prefix_len = mem\<rparr>"

definition prefix_length :: "'a prefix \<Rightarrow> 16 word outcome" where
  "prefix_length p = load (m_prefix_len p)"

definition prefix_address :: "'a prefix \<Rightarrow> 'a" where
  "prefix_address p = m_address p"

definition prefix_copy :: "'a prefix \<Rightarrow> 'a prefix outcome" where
  "prefix_copy p =
     bindO (prefix_length p) (\<lambda>l. Val \<lparr>m_address = prefix_address p, m_prefix_len = Some l\<rparr>)"

text \<open>
  The constructor from a string. \<open>std::stoi\<close> yields an \<open>int\<close>, which the assignment
  to \<open>unsigned short\<close> reduces modulo \<open>2 ^ 16\<close>.
\<close>

definition prefix_of_string :: "'a net_api \<Rightarrow> string \<Rightarrow> 'a prefix outcome" where
  "prefix_of_string net p =
     (case find_last_of (CHR ''/'') p of
        None \<Rightarrow> Throw (Runtime_error (''missing '' @ [CHR 0x27, CHR ''/'', CHR 0x27] @ '' in '' @ p))
      | Some found \<Rightarrow>
          (case addr_from_string net (take found p) of
             None \<Rightarrow> Throw (Library_error ''from_string'')
           | Some a \<Rightarrow>
               bindO (stoi (drop (found + 1) p))
                 (\<lambda>n. Val \<lparr>m_address = a, m_prefix_len = Some (word_of_int n)\<rparr>)))"

definition make_prefix :: "'a net_api \<Rightarrow> string \<Rightarrow> 'a prefix outcome" where
  "make_prefix net str = bindO (prefix_of_string net str) prefix_copy"

definition prefix_to_string :: "'a net_api \<Rightarrow> 'a prefix \<Rightarrow> string outcome" where
  "prefix_to_string net p =
     bindO (load (m_prefix_len p))
       (\<lambda>l. Val (addr_to_string net (m_address p) @ ''/'' @ to_dec l))"

text \<open>\<open>operator<<\<close> on a stream with the given content\<close>

definition prefix_output :: "'a net_api \<Rightarrow> string \<Rightarrow> 'a prefix \<Rightarrow> string outcome" where
  "prefix_output net os p = bindO (prefix_to_string net p) (\<lambda>s. Val (os @ s))"

definition prefix_empty :: "'a net_api \<Rightarrow> 'a prefix \<Rightarrow> bool outcome" where
  "prefix_empty net p = bindO (prefix_to_string net p) (\<lambda>s. Val (s = []))"


section \<open>Reference definitions\<close>

text \<open>The number of binary digits of a number.\<close>

fun bit_length :: "nat \<Rightarrow> nat" where
  "bit_length n = (if n = 0 then 0 else Suc (bit_length (n div 2)))"

declare bit_length.simps [simp del]

text \<open>The octets, most significant first, of a contiguous netmask of length \<open>p\<close>.\<close>

definition mask_octet :: "nat \<Rightarrow> 8 word" where
  "mask_octet k = NOT (mask (8 - k))"

definition netmask_octets :: "nat \<Rightarrow> 8 word list" where
  "netmask_octets p = map (\<lambda>k. mask_octet (min 8 (p - 8 * k))) [0, 1, 2, 3]"


section \<open>The shift loop\<close>

lemma plen_loop_bit_length: "plen_loop n i = i + word_of_nat (bit_length (unat n))"
proof (induction n i rule: plen_loop.induct)
  case (1 n i)
  show ?case
  proof (cases "0 < n")
    case True
    then have "bit_length (unat n) = Suc (bit_length (unat (drop_bit 1 n)))"
      by (subst bit_length.simps) (simp add: unat_gt_0_word unat_drop_bit_1 del: One_nat_def)
    with 1 True show ?thesis
      by (subst plen_loop.simps) (simp del: One_nat_def)
  next
    case False
    then show ?thesis
      by (subst plen_loop.simps, subst bit_length.simps) (simp add: unat_gt_0_word)
  qed
qed

lemma bit_length_le_iff: "bit_length n \<le> k \<longleftrightarrow> n < 2 ^ k"
proof (induction n arbitrary: k rule: bit_length.induct)
  case (1 n)
  show ?case
  proof (cases "n = 0")
    case False
    show ?thesis
    proof (cases k)
      case 0
      with False show ?thesis
        by (subst bit_length.simps) simp
    next
      case (Suc j)
      have "bit_length n \<le> k \<longleftrightarrow> bit_length (n div 2) \<le> j"
        using False Suc by (subst bit_length.simps) simp
      also have "\<dots> \<longleftrightarrow> n div 2 < 2 ^ j"
        using 1 False by simp
      also have "\<dots> \<longleftrightarrow> n < 2 ^ k"
        using Suc by (simp add: div_less_iff_less_mult mult.commute)
      finally show ?thesis .
    qed
  qed (subst bit_length.simps, simp)
qed

lemma bit_length_word32: "bit_length (unat n) \<le> 32" for n :: "32 word"
  using unsigned_less [of n, where ?'a = nat] by (simp add: bit_length_le_iff)

lemma unat_plen_loop: "unat (plen_loop n 0) = bit_length (unat n)"
  using bit_length_word32 [of n]
  by (simp add: plen_loop_bit_length unat_of_nat)


section \<open>Netmasks\<close>

lemma netmask_to_plen_v4:
  assumes "is_v4 net m" "inet_pton net AF_INET (addr_to_string net m) = Some bs" "length bs = 4"
  shows "netmask_to_plen order net m =
    Val (word_of_nat (bit_length (bytes_value
      (case order of Little_Endian \<Rightarrow> bs | Big_Endian \<Rightarrow> rev bs))))"
proof -
  have "bytes_value xs < 256 ^ length xs" for xs
  proof (induction xs)
    case (Cons x xs)
    then show ?case
      using unsigned_less [of x, where ?'a = nat] by simp
  qed simp
  from this [of bs] this [of "rev bs"] show ?thesis
    using assms
    by (auto simp: netmask_to_plen_def store_in_addr_def plen_loop_bit_length unat_of_nat
        split: byte_order.split)
qed

lemma mask_octets_evaluated: "list_all (\<lambda>k. unat (mask_octet k) = 256 - 2 ^ (8 - k)) [0..<9]"
  by code_simp

lemma unat_mask_octet: "k \<le> 8 \<Longrightarrow> unat (mask_octet k) = 256 - 2 ^ (8 - k)"
  using mask_octets_evaluated unfolding list_all_iff by auto

lemma mask_octet_0: "mask_octet 0 = 0"
  using unat_mask_octet [of 0] by (simp add: unat_eq_zero)

lemma mask_octet_le_255: "unat (mask_octet k) \<le> 255"
  using unsigned_less [of "mask_octet k", where ?'a = nat] by simp

lemma mask_octet_ge_128:
  assumes "0 < k"
  shows "128 \<le> unat (mask_octet (min 8 k))"
proof -
  have "2 ^ (8 - min 8 k) \<le> (2 :: nat) ^ 7"
    using assms by (intro power_increasing) auto
  then show ?thesis
    by (simp add: unat_mask_octet)
qed

lemmas mask_octet_bounds = mask_octet_ge_128 mask_octet_le_255 [of "min 8 k" for k]

lemma bit_length_eqI: "n < 2 ^ k \<Longrightarrow> k = 0 \<or> 2 ^ (k - 1) \<le> n \<Longrightarrow> bit_length n = k"
  using bit_length_le_iff [of n k] bit_length_le_iff [of n "k - 1"]
  by (cases k) (auto simp: not_less [symmetric])

lemma netmask_octets_eq:
  "netmask_octets p =
     [mask_octet (min 8 p), mask_octet (min 8 (p - 8)),
      mask_octet (min 8 (p - 16)), mask_octet (min 8 (p - 24))]"
  by (simp add: netmask_octets_def)

text \<open>Read with the least significant byte first, a netmask ends with its last used octet.\<close>

lemma bit_length_netmask_le:
  assumes "p \<le> 32"
  shows "bit_length (bytes_value (netmask_octets p)) = 8 * ((p + 7) div 8)"
proof -
  note b = mask_octet_bounds [of p] mask_octet_bounds [of "p - 8"]
    mask_octet_bounds [of "p - 16"] mask_octet_bounds [of "p - 24"]
  consider "p = 0" | "0 < p" "p \<le> 8" | "8 < p" "p \<le> 16" | "16 < p" "p \<le> 24" | "24 < p"
    by linarith
  then show ?thesis
  proof cases
    case 1
    then show ?thesis
      by (intro bit_length_eqI) (simp_all add: netmask_octets_eq mask_octet_0)
  next
    case 2
    then have "(p + 7) div 8 = 1" by simp
    with 2 b show ?thesis
      by (intro bit_length_eqI) (simp_all add: netmask_octets_eq mask_octet_0)
  next
    case 3
    then have "(p + 7) div 8 = 2" by simp
    with 3 b show ?thesis
      by (intro bit_length_eqI) (simp_all add: netmask_octets_eq mask_octet_0)
  next
    case 4
    then have "(p + 7) div 8 = 3" by simp
    with 4 b show ?thesis
      by (intro bit_length_eqI) (simp_all add: netmask_octets_eq mask_octet_0)
  next
    case 5
    with assms have "(p + 7) div 8 = 4" by simp
    with 5 b show ?thesis
      by (intro bit_length_eqI) (simp_all add: netmask_octets_eq)
  qed
qed

lemma bit_length_netmask_be:
  "bit_length (bytes_value (rev (netmask_octets p))) = (if p = 0 then 0 else 32)"
proof (cases "p = 0")
  case False
  with mask_octet_bounds [of p] mask_octet_le_255 [of "min 8 (p - 8)"]
    mask_octet_le_255 [of "min 8 (p - 16)"] mask_octet_le_255 [of "min 8 (p - 24)"] show ?thesis
    by (auto intro!: bit_length_eqI simp: netmask_octets_eq)
qed (auto intro!: bit_length_eqI simp: netmask_octets_eq mask_octet_0)


section \<open>Class prefix\<close>

lemma prefix_copy_of_initialised:
  "m_prefix_len p = Some l \<Longrightarrow> prefix_copy p = Val p"
  by (cases p) (simp add: prefix_copy_def prefix_length_def prefix_address_def)

text \<open>Copying the freshly parsed prefix changes nothing: parsing determines the result.\<close>

lemma make_prefix_eq: "make_prefix net s = prefix_of_string net s"
proof (cases "prefix_of_string net s")
  case (Val p)
  then have "\<exists>l. m_prefix_len p = Some l"
    by (auto simp: prefix_of_string_def outcome_simps split: option.splits)
  then show ?thesis
    by (auto simp: make_prefix_def Val prefix_copy_of_initialised)
qed (simp_all add: make_prefix_def)

lemma make_prefix_no_undef: "make_prefix net str \<noteq> Undef u"
proof -
  have "stoi t \<noteq> Undef u" for t
    by (simp add: stoi_def split: option.split)
  then show ?thesis
    by (auto simp: make_prefix_eq prefix_of_string_def outcome_simps split: option.split)
qed

lemma make_prefix_slash:
  assumes "CHR ''/'' \<notin> set t"
  shows "make_prefix net (a @ CHR ''/'' # t) =
    (case addr_from_string net a of
       None \<Rightarrow> Throw (Library_error ''from_string'')
     | Some x \<Rightarrow> bindO (stoi t) (\<lambda>n. Val \<lparr>m_address = x, m_prefix_len = Some (word_of_int n)\<rparr>))"
  by (simp add: make_prefix_eq prefix_of_string_def find_last_of_append [OF assms] split: option.split)

lemma slash_notin_to_dec: "CHR ''/'' \<notin> set (to_dec w)"
  using to_dec_digits slash_not_digit by blast


section \<open>A concrete instance of the parameters\<close>

text \<open>
  Addresses as byte lists, printed and read in dotted decimal. It instantiates
  \<open>net_api\<close> where a property is applied at a concrete input.
\<close>

fun dotted :: "8 word list \<Rightarrow> string" where
  "dotted [] = []"
| "dotted [b] = to_dec b"
| "dotted (b # bs) = to_dec b @ CHR ''.'' # dotted bs"

fun split_dots :: "string \<Rightarrow> string \<Rightarrow> string list" where
  "split_dots acc [] = [acc]"
| "split_dots acc (c # cs) =
     (if c = CHR ''.'' then acc # split_dots [] cs else split_dots (acc @ [c]) cs)"

fun read_octets :: "string list \<Rightarrow> 8 word list option" where
  "read_octets [] = Some []"
| "read_octets (t # ts) =
     (if t = [] \<or> \<not> list_all is_digit t \<or> 255 < dec_value 0 t then None
      else map_option (\<lambda>bs. word_of_nat (dec_value 0 t) # bs) (read_octets ts))"

definition sample_net :: "8 word list net_api" where
  "sample_net = \<lparr>
     addr_default = [0, 0, 0, 0],
     is_v4 = (\<lambda>a. length a = 4),
     is_v6 = (\<lambda>a. length a = 16),
     addr_to_string = dotted,
     addr_from_string = (\<lambda>s. read_octets (split_dots [] s)),
     inet_pton = (\<lambda>af s. read_octets (split_dots [] s))\<rparr>"


section \<open>Properties\<close>

text \<open>
  (C17) On a little-endian host the prefix length computed for a contiguous IPv4 netmask of
  length \<open>p\<close> is \<open>p\<close> rounded up to a multiple of eight, so it is right exactly for
  the netmasks that end at an octet boundary (255.255.254.0 yields 24).
\<close>

theorem netmask_to_plen_little_endian:
  assumes "p \<le> 32" "is_v4 net m"
    and "inet_pton net AF_INET (addr_to_string net m) = Some (netmask_octets p)"
  shows "netmask_to_plen Little_Endian net m = Val (word_of_nat (8 * ((p + 7) div 8))) \<and>
    (netmask_to_plen Little_Endian net m = Val (word_of_nat p) \<longleftrightarrow> 8 dvd p)"
proof -
  have eq: "netmask_to_plen Little_Endian net m = Val (word_of_nat (8 * ((p + 7) div 8)))"
    using netmask_to_plen_v4 [OF assms(2,3)] assms(1)
    by (simp add: netmask_octets_eq flip: bit_length_netmask_le)
  have "(word_of_nat (8 * ((p + 7) div 8)) :: 8 word) = word_of_nat p \<longleftrightarrow> 8 * ((p + 7) div 8) = p"
    using assms(1) by (intro word8_of_nat_inject) simp_all
  also have "\<dots> \<longleftrightarrow> 8 dvd p"
    by presburger
  finally show ?thesis
    using eq by simp
qed

theorem netmask_to_plen_little_endian_witness:
  "netmask_to_plen Little_Endian sample_net [255, 255, 254, 0] = Val 24"
proof -
  have "is_v4 sample_net [255, 255, 254, 0]"
    by (simp add: sample_net_def)
  moreover have "inet_pton sample_net AF_INET (addr_to_string sample_net [255, 255, 254, 0])
      = Some (netmask_octets 23)"
    by code_simp
  ultimately show ?thesis
    using netmask_to_plen_little_endian [of 23 sample_net "[255, 255, 254, 0]"] by simp
qed

text \<open>
  On a big-endian host every non-empty netmask yields 32: the shift loop counts the
  position of the highest set bit, and the first octet is then the highest.
\<close>

lemma netmask_to_plen_big_endian:
  assumes "is_v4 net m"
    and "inet_pton net AF_INET (addr_to_string net m) = Some (netmask_octets p)"
  shows "netmask_to_plen Big_Endian net m = Val (if p = 0 then 0 else 32)"
  using netmask_to_plen_v4 [OF assms] bit_length_netmask_be [of p]
  by (simp add: netmask_octets_eq)

text \<open>
  A netmask that is an IPv6 address makes \<open>inet_pton\<close> write its sixteen bytes over
  the four bytes of the local variable \<open>n\<close>.
\<close>

lemma netmask_to_plen_v6_overflow:
  assumes "\<not> is_v4 net m" "is_v6 net m"
    and "inet_pton net AF_INET6 (addr_to_string net m) = Some bs" "length bs = 16"
  shows "netmask_to_plen order net m = Undef BufferOverflow"
  using assms by (simp add: netmask_to_plen_def store_in_addr_def)

text \<open>
  The shift loop returns the number of binary digits of its argument; its counter
  never wraps.
\<close>

lemma plen_loop_counts_digits:
  "unat (plen_loop n 0) \<le> k \<longleftrightarrow> unat n < 2 ^ k"
  by (simp add: unat_plen_loop bit_length_le_iff)

text \<open>
  (C18) Round trip of \<open>utils::prefix\<close>: the string of an initialised prefix reads back as
  that prefix, provided Boost reads back the address it prints.
\<close>

theorem make_prefix_roundtrip:
  assumes "addr_from_string net (addr_to_string net (m_address p)) = Some (m_address p)"
    and "prefix_to_string net p = Val s"
  shows "make_prefix net s = Val p"
proof -
  obtain l where l: "m_prefix_len p = Some l"
    and s: "s = addr_to_string net (m_address p) @ CHR ''/'' # to_dec l"
    using assms(2) by (auto simp: prefix_to_string_def outcome_simps)
  have "stoi (to_dec l) = Val (int (unat l))"
    unfolding to_dec_def using unsigned_less [of l, where ?'a = nat] by (intro stoi_nat_to_dec) simp
  then show ?thesis
    using assms(1) l by (cases p) (simp add: s make_prefix_slash slash_notin_to_dec)
qed

theorem make_prefix_roundtrip_witness:
  "make_prefix sample_net ''10.0.0.2/32'' = Val \<lparr>m_address = [10, 0, 0, 2], m_prefix_len = Some 32\<rparr>"
  by (rule make_prefix_roundtrip) (code_simp, code_simp)

text \<open>
  What \<open>make_prefix\<close> does with every string: no slash, an address Boost rejects and
  a length \<open>std::stoi\<close> rejects throw; otherwise the text before the last slash gives the
  address and the number after it, reduced modulo \<open>2 ^ 16\<close>, the length.
\<close>

lemma make_prefix_cases:
  "make_prefix net s =
     (if CHR ''/'' \<notin> set s
      then Throw (Runtime_error (''missing '' @ [CHR 0x27, CHR ''/'', CHR 0x27] @ '' in '' @ s))
      else
        (let t = rev (takeWhile (\<lambda>c. c \<noteq> CHR ''/'') (rev s));
             a = take (length s - length t - 1) s
         in case addr_from_string net a of
              None \<Rightarrow> Throw (Library_error ''from_string'')
            | Some x \<Rightarrow>
                (case stoi t of
                   Val n \<Rightarrow> Val \<lparr>m_address = x, m_prefix_len = Some (word_of_int (n mod 2 ^ 16))\<rparr>
                 | Throw e \<Rightarrow> Throw e
                 | Exit k \<Rightarrow> Exit k
                 | Undef u \<Rightarrow> Undef u)))"
proof (cases "CHR ''/'' \<in> set s")
  case False
  then show ?thesis
    by (simp add: make_prefix_eq prefix_of_string_def find_last_of_None [THEN iffD2])
next
  case True
  then obtain a t where s: "s = a @ CHR ''/'' # t" and t: "CHR ''/'' \<notin> set t"
    by (metis split_list_last)
  have tw: "takeWhile (\<lambda>c. c \<noteq> CHR ''/'') (rev t @ CHR ''/'' # rev a) = rev t"
    using t by (intro takeWhile_append_stop) auto
  show ?thesis
    using t by (simp add: s tw make_prefix_slash word16_of_int_mod Let_def split: option.split outcome.split)
qed

text \<open>
  \<open>prefix::empty\<close> is never true, whatever the prefix and whatever the uninitialised
  memory of a default-constructed one holds: the printed form always contains a slash.
\<close>

lemma prefix_empty_never:
  "prefix_empty net p \<noteq> Val True \<and> prefix_empty net (prefix_default net (Some w)) = Val False"
  by (auto simp: prefix_empty_def prefix_to_string_def prefix_default_def outcome_simps)

end
