(* ===== verification/Ietf_Interface.thy ===== *)
theory Ietf_Interface
  imports Interface_Builder Sys_Util
begin

text \<open>
  \<open>src/plugins/ietf/ietf_interface.cpp\<close>: the callback for interfaces, the callbacks for
  IPv4 and IPv6 addresses with their helpers, and the subscription of the callbacks. The
  providers of operational data are in \<open>Interface_State\<close>.
\<close>

section \<open>ietf\_interface\_create\_cb\<close>

text \<open>
  One iteration of the loop. The first statement logs the xpath of the old value, or of
  the new one where there is no old value.
\<close>

definition ietf_create_step ::
    "sr_api \<Rightarrow> ('s, 'i, 'p, 'a) vom_api \<Rightarrow> change \<Rightarrow> ('s, 'i) intf_locals \<Rightarrow>
     ('s, 'i) intf_locals flow outcome" where
  "ietf_create_step api vom c l =
     bindO (deref (case old_val c of Some v \<Rightarrow> Some v | None \<Rightarrow> new_val c)) (\<lambda>_.
     (case oper c of
        SR_OP_MODIFIED \<Rightarrow> bindO (deref (new_val c)) (\<lambda>v. intf_modified api vom v l)
      | SR_OP_CREATED \<Rightarrow> bindO (deref (new_val c)) (\<lambda>v. intf_created api v l)
      | SR_OP_DELETED \<Rightarrow> bindO (deref (old_val c)) (\<lambda>v. intf_deleted api v l)
      | _ \<Rightarrow> Val (Leave SR_ERR_UNSUPPORTED l)))"

definition ietf_interface_create_cb ::
    "sr_api \<Rightarrow> ('s, 'i, 'p, 'a) vom_api \<Rightarrow> uninit \<Rightarrow> session \<Rightarrow> string \<Rightarrow> sr_event \<Rightarrow> 's \<Rightarrow>
     (sr_error \<times> 's) outcome" where
  "ietf_interface_create_cb api vom mem ds xp event s =
     (if event \<noteq> SR_EV_VERIFY then Val (SR_ERR_OK, s)
      else case sr_get_changes_iter ds xp of (rc, cs) \<Rightarrow>
        if rc \<noteq> SR_ERR_OK then Val (SR_ERR_OPERATION_FAILED, s)
        else intf_run (ietf_create_step api vom) vom mem ds event cs s)"


section \<open>IP addresses\<close>

text \<open>The macro \<open>KEY(l3)\<close>\<close>

definition l3_key :: "string \<Rightarrow> string \<Rightarrow> string" where
  "l3_key name pfx = ''l3_'' @ name @ ''_'' @ pfx"

text \<open>
  The body of the \<open>try\<close> block and its handler: an exception of the prefix constructor or of
  \<open>OM::write\<close> is caught and reported as \<open>SR_ERR_OPERATION_FAILED\<close>, with the state that the
  throwing call left behind.
\<close>

definition ipv46_config_add_remove ::
    "('s, 'i, 'p, 'a) vom_api \<Rightarrow> string \<Rightarrow> string \<Rightarrow> 8 word \<Rightarrow> bool \<Rightarrow> 's \<Rightarrow> sr_error \<times> 's" where
  "ipv46_config_add_remove vom if_name addr plen add s =
     (case interface_find vom if_name s of
        None \<Rightarrow> (SR_ERR_INVAL_ARG, s)
      | Some i \<Rightarrow>
          (case prefix_t vom addr plen of
             Inl exc \<Rightarrow> (SR_ERR_OPERATION_FAILED, s)
           | Inr pfx \<Rightarrow>
               (let key = l3_key (interface_itf_name vom i s) (prefix_t_to_string vom pfx)
                in if add
                   then (case om_write_l3 vom key i pfx s of
                           (RC_OK, s') \<Rightarrow> (SR_ERR_OK, s')
                         | (RC_FAILED _, s') \<Rightarrow> (SR_ERR_OPERATION_FAILED, s')
                         | (RC_THROWN exc, s') \<Rightarrow> (SR_ERR_OPERATION_FAILED, s'))
                   else (SR_ERR_OK, om_remove vom key s))))"

text \<open>
  The variables \<open>addr\<close> and \<open>prefix\<close> are passed by reference: the result has their new
  contents. An exception leaves both as they were, since it precedes the assignment.
\<close>

definition parse_interface_ipv46_address ::
    "byte_order \<Rightarrow> sr_api \<Rightarrow> 'a net_api \<Rightarrow> sr_val option \<Rightarrow> string \<times> 8 word \<Rightarrow>
     (string \<times> 8 word) outcome" where
  "parse_interface_ipv46_address order api net val ap =
     (case val of
        None \<Rightarrow> Throw (Runtime_error ''Null pointer'')
      | Some v \<Rightarrow>
          if data v = SR_LIST_T then Val ([], snd ap)
          else if sr_xpath_node_name_eq api (xpath v) ''ip''
          then bindO (string_val v) (\<lambda>a. Val (a, snd ap))
          else if sr_xpath_node_name_eq api (xpath v) ''prefix-length''
          then bindO (uint8_val v) (\<lambda>p. Val (fst ap, p))
          else if sr_xpath_node_name_eq api (xpath v) ''netmask''
          then bindO (string_val v) (\<lambda>m.
            (case addr_from_string net m of
               None \<Rightarrow> Throw (Library_error ''from_string'')
             | Some a \<Rightarrow> bindO (netmask_to_plen order net a) (\<lambda>p. Val (fst ap, p))))
          else Val ap)"

text \<open>The variables of \<open>ietf_interface_ipv46_address_change_cb\<close>\<close>

record 's addr_locals =
  new_ap :: "string \<times> 8 word"
  old_ap :: "string \<times> 8 word"
  addr_create :: bool
  addr_del :: bool
  op_rc :: sr_error
  addr_db :: 's

definition addr_start :: "'s \<Rightarrow> 's addr_locals" where
  "addr_start s =
     \<lparr>new_ap = ([], 0), old_ap = ([], 0), addr_create = False, addr_del = False,
      op_rc = SR_ERR_OK, addr_db = s\<rparr>"

text \<open>The switch inside the try block; a caught exception is only logged.\<close>

definition addr_switch ::
    "byte_order \<Rightarrow> sr_api \<Rightarrow> 'a net_api \<Rightarrow> change \<Rightarrow> 's addr_locals \<Rightarrow> 's addr_locals outcome" where
  "addr_switch order api net c l =
     (let parse = parse_interface_ipv46_address order api net in
      case oper c of
        SR_OP_CREATED \<Rightarrow>
          (let l1 = l\<lparr>addr_create := True\<rparr>
           in catchO (bindO (parse (new_val c) (new_ap l1)) (\<lambda>ap. Val (l1\<lparr>new_ap := ap\<rparr>))) (\<lambda>_. Val l1))
      | SR_OP_MODIFIED \<Rightarrow>
          (let l1 = l\<lparr>addr_create := True, addr_del := True\<rparr>
           in catchO (bindO (parse (old_val c) (old_ap l1)) (\<lambda>ap.
                (let l2 = l1\<lparr>old_ap := ap\<rparr>
                 in catchO (bindO (parse (new_val c) (new_ap l2)) (\<lambda>ap. Val (l2\<lparr>new_ap := ap\<rparr>)))
                      (\<lambda>_. Val l2)))) (\<lambda>_. Val l1))
      | SR_OP_DELETED \<Rightarrow>
          (let l1 = l\<lparr>addr_del := True\<rparr>
           in catchO (bindO (parse (old_val c) (old_ap l1)) (\<lambda>ap. Val (l1\<lparr>old_ap := ap\<rparr>))) (\<lambda>_. Val l1))
      | _ \<Rightarrow> Val l)"

text \<open>The two calls behind the switch.\<close>

definition addr_apply :: "('s, 'i, 'p, 'a) vom_api \<Rightarrow> string \<Rightarrow> 's addr_locals \<Rightarrow> 's addr_locals" where
  "addr_apply vom if_name l =
     (let l1 =
        (if addr_del l \<and> fst (old_ap l) \<noteq> []
         then (case ipv46_config_add_remove vom if_name (fst (old_ap l)) (snd (old_ap l)) False (addr_db l) of
                 (rc, s) \<Rightarrow> l\<lparr>op_rc := rc, addr_db := s\<rparr>)
         else l)
      in if addr_create l1 \<and> fst (new_ap l1) \<noteq> []
         then (case ipv46_config_add_remove vom if_name (fst (new_ap l1)) (snd (new_ap l1)) True (addr_db l1) of
                 (rc, s) \<Rightarrow> l1\<lparr>op_rc := rc, addr_db := s\<rparr>)
         else l1)"

definition addr_step ::
    "byte_order \<Rightarrow> sr_api \<Rightarrow> 'a net_api \<Rightarrow> ('s, 'i, 'p, 'a) vom_api \<Rightarrow> change \<Rightarrow> 's addr_locals \<Rightarrow>
     's addr_locals flow outcome" where
  "addr_step order api net vom c l =
     bindO (deref (case new_val c of Some v \<Rightarrow> Some v | None \<Rightarrow> old_val c)) (\<lambda>v.
     bindO (deref (sr_xpath_key_value api (xpath v) ''interface'' ''name'')) (\<lambda>if_name.
     if if_name = [] then Val (Leave SR_ERR_OPERATION_FAILED l)
     else bindO (addr_switch order api net c l) (\<lambda>l. Val (Next (addr_apply vom if_name l)))))"

definition ietf_interface_ipv46_address_change_cb ::
    "byte_order \<Rightarrow> sr_api \<Rightarrow> 'a net_api \<Rightarrow> ('s, 'i, 'p, 'a) vom_api \<Rightarrow> session \<Rightarrow> string \<Rightarrow> sr_event \<Rightarrow>
     's \<Rightarrow> (sr_error \<times> 's) outcome" where
  "ietf_interface_ipv46_address_change_cb order api net vom ds xp event s =
     (if event = SR_EV_APPLY then Val (SR_ERR_OK, s)
      else case sr_get_changes_iter ds xp of (rc, cs) \<Rightarrow>
        if rc \<noteq> SR_ERR_OK then Val (rc, s)
        else bindO (foreach_change event (addr_step order api net vom) cs (addr_start s))
          (\<lambda>f. case f of
             Leave rc l \<Rightarrow> Val (rc, addr_db l)
           | Next l \<Rightarrow> Val (op_rc l, addr_db l)))"



section \<open>The interface callback meets the shared contracts\<close>

interpretation ietf_body: intf_body "ietf_create_step api vom" api vom "\<lambda>v. True" for api vom
proof unfold_locales
  fix c :: change and l :: "('a, 'b) intf_locals" and f
  assume "ietf_create_step api vom c l = Val f"
  then have f: "f = Leave SR_ERR_UNSUPPORTED l \<or>
      oper c = SR_OP_CREATED \<and> (\<exists>v. new_val c = Some v \<and> intf_created api v l = Val f) \<or>
      oper c = SR_OP_MODIFIED \<and> (\<exists>v. intf_modified api vom v l = Val f) \<or>
      oper c = SR_OP_DELETED \<and> (\<exists>v. intf_deleted api v l = Val f)"
    by (cases "oper c") (auto simp: ietf_create_step_def outcome_simps split: if_splits)
  show "creates_name api c" if "create (flow_state f) \<noteq> create l"
    using f that by (auto simp: creates_name_def elim: intf_created_Val intf_deleted_Val dest: intf_modified_Val)
  show "db (flow_state f) = db l" if "oper c \<noteq> SR_OP_MODIFIED"
    using f that by (auto elim: intf_created_Val intf_deleted_Val)
next
  fix c :: change and l l' :: "('a, 'b) intf_locals" and rc
  assume "ietf_create_step api vom c l = Val (Leave rc l')"
  then show "rc \<noteq> SR_ERR_OK"
    by (cases "oper c") (auto simp: ietf_create_step_def outcome_simps
        elim: intf_created_Val intf_deleted_Val dest: intf_modified_Val)
qed (auto simp: ietf_create_step_def split: option.split)

interpretation ietf_cb: verify_only "ietf_interface_create_cb api vom mem ds xp" for api vom mem ds xp
  by unfold_locales (simp add: ietf_interface_create_cb_def)

lemma ietf_interface_create_cb_verify:
  "sr_get_changes_iter ds xp = (SR_ERR_OK, cs) \<Longrightarrow>
    ietf_interface_create_cb api vom mem ds xp SR_EV_VERIFY s =
    intf_run (ietf_create_step api vom) vom mem ds SR_EV_VERIFY cs s"
  by (simp add: ietf_interface_create_cb_def)


section \<open>Deleted interfaces\<close>

definition deletes :: "sr_api \<Rightarrow> change \<Rightarrow> bool" where
  "deletes api c \<longleftrightarrow>
     oper c = SR_OP_DELETED \<and>
     (case old_val c of None \<Rightarrow> False | Some v \<Rightarrow>
        sr_xpath_node_name_eq api (xpath v) ''name'' \<longrightarrow> is_val (string_val v))"

lemma walk_deleted:
  "\<forall>c \<in> set cs. deletes api c \<Longrightarrow>
    walk_changes (ietf_create_step api vom) cs l =
    Val (Next (l\<lparr>builder := (builder l)\<lparr>m_name := last_or (m_name (builder l)) (names_of api (old_vals cs))\<rparr>,
                 remove := (if names_of api (old_vals cs) = [] then remove l else Some True)\<rparr>))"
proof (induction cs arbitrary: l)
  case (Cons c cs)
  then obtain v where v: "oper c = SR_OP_DELETED" "old_val c = Some v"
    "sr_xpath_node_name_eq api (xpath v) ''name'' \<Longrightarrow> \<exists>n. string_val v = Val n"
    by (auto simp: deletes_def is_val_iff simp del: string_val.simps split: option.splits)
  show ?case
  proof (cases "sr_xpath_node_name_eq api (xpath v) ''name''")
    case True
    with v obtain n where "string_val v = Val n"
      by blast
    with Cons v True show ?thesis
      by (simp add: ietf_create_step_def intf_deleted_def names_of_def str_of_def set_name_def
          del: string_val.simps)
  next
    case False
    with Cons v show ?thesis
      by (simp add: ietf_create_step_def intf_deleted_def names_of_def)
  qed
qed (simp add: names_of_def)


lemma ietf_cb_deleted:
  assumes "sr_get_changes_iter ds xp = (SR_ERR_OK, cs)"
    and "\<forall>c \<in> set cs. deletes api c" "names_of api (old_vals cs) \<noteq> []"
  shows "ietf_interface_create_cb api vom mem ds xp SR_EV_VERIFY s =
    (case mem_create mem of
       None \<Rightarrow> Undef Indeterminate
     | Some True \<Rightarrow> bindO (free_ptr (vals_after_loop ds cs)) (\<lambda>_. Val (SR_ERR_INVAL_ARG, s))
     | Some False \<Rightarrow>
         (case mem_modify mem of
            None \<Rightarrow> Undef Indeterminate
          | Some True \<Rightarrow> Undef NullPointer
          | Some False \<Rightarrow> Val (SR_ERR_OK, om_remove vom (last (names_of api (old_vals cs))) s)))"
  using assms(3)
  by (auto simp: ietf_interface_create_cb_verify [OF assms(1)] intf_run_def walk_deleted [OF assms(2)]
      intf_finish_def intf_start_def new_builder_def build_def last_or_nonempty split: option.split bool.split)


section \<open>Properties of the interface callback\<close>

text \<open>
  (C1) A commit of created leaves only, with at least one interface name: the callback
  builds one interface from the last name, writes it to the object model and reports the
  outcome; an empty name or a type other than \<open>ethernetCsmacd\<close> is refused with
  \<open>SR_ERR_INVAL_ARG\<close> without touching the model. The error paths free the value pointers
  of the last change again unless sysrepo cleared them. However many interfaces the
  commit creates, only the last is written.
\<close>

theorem ietf_create_interface:
  assumes "sr_get_changes_iter ds xp = (SR_ERR_OK, cs)"
    and "\<forall>c \<in> set cs. creates api (\<lambda>v. True) c" "names_of api (new_vals cs) \<noteq> []"
  shows "ietf_interface_create_cb api vom mem ds xp SR_EV_VERIFY s =
    (let vs = new_vals cs; vals = vals_after_loop ds cs in
     if last (names_of api vs) = [] \<or> ethernet \<notin> set (types_of api vs)
     then bindO (free_ptr vals) (\<lambda>_. Val (SR_ERR_INVAL_ARG, s))
     else bindO (load (last_or (mem_state mem) (map Some (states_of api vs)))) (\<lambda>st.
       case make_interface vom (last (names_of api vs)) ''ETHERNET'' st s of
         (i, s') \<Rightarrow> write_result vom vals i s'))"
  by (simp only: ietf_interface_create_cb_verify [OF assms(1)] ietf_body.run_created [OF assms(2,3)])

definition create_eth0 :: "change list" where
  "create_eth0 =
     [sample_created (eth0_path ''name'') (SR_STRING_T ''eth0''),
      sample_created (eth0_path ''type'') (SR_IDENTITYREF_T ''iana-if-type:ethernetCsmacd''),
      sample_created (eth0_path ''enabled'') (SR_BOOL_T True)]"

theorem ietf_create_interface_witness:
  "ietf_interface_create_cb sample_api sample_vom indeterminate (sample_session create_eth0) [] SR_EV_VERIFY
      sample_empty =
    Val (SR_ERR_OK, \<lparr>itfs = [(''eth0'', ''ETHERNET'', True)], objs = [(''eth0'', Sample_Itf ''eth0'')]\<rparr>)"
proof -
  have it: "sr_get_changes_iter (sample_session create_eth0) [] = (SR_ERR_OK, create_eth0)"
    by (simp add: sample_session_def)
  have cr: "\<forall>c \<in> set create_eth0. creates sample_api (\<lambda>v. True) c"
    by code_simp
  have names: "names_of sample_api (new_vals create_eth0) = [''eth0'']"
    by code_simp
  have leaves: "types_of sample_api (new_vals create_eth0) = [ethernet]"
    "states_of sample_api (new_vals create_eth0) = [True]"
    by code_simp+
  show ?thesis
    by (subst ietf_create_interface [OF it cr])
      (simp_all add: names leaves Let_def sample_vom_def sample_empty_def write_result_def sample_put_def)
qed

text \<open>
  A change of the \<open>enabled\<close> leaf: for a known interface whose flags happen to start
  as false, the callback sets the administrative state of the shared object and writes
  that object; for an unknown interface it reports \<open>SR_ERR_OPERATION_FAILED\<close> and changes
  nothing, whatever the remaining changes are.
\<close>

lemma ietf_modify_enabled:
  assumes "sr_get_changes_iter ds xp = (SR_ERR_OK, c # cs)" "enables api (\<lambda>v. True) c n b"
  shows "(case interface_find vom n s of
      None \<Rightarrow> ietf_interface_create_cb api vom mem ds xp SR_EV_VERIFY s = Val (SR_ERR_OPERATION_FAILED, s)
    | Some i \<Rightarrow> cs = [] \<longrightarrow>
        ietf_interface_create_cb api vom zeroed ds xp SR_EV_VERIFY s =
        write_result vom (vals_after_loop ds [c]) i (interface_set vom i b s))"
proof (cases "interface_find vom n s")
  case None
  then show ?thesis
    by (simp add: ietf_interface_create_cb_verify [OF assms(1)] ietf_body.run_enabled_unknown [OF assms(2)])
next
  case (Some i)
  have "cs = [] \<Longrightarrow> ietf_interface_create_cb api vom zeroed ds xp SR_EV_VERIFY s =
      write_result vom (vals_after_loop ds [c]) i (interface_set vom i b s)"
    using ietf_body.run_enabled [OF assms(2) Some, of zeroed False ds]
    by (simp add: zeroed_def ietf_interface_create_cb_verify [OF assms(1)])
  with Some show ?thesis
    by simp
qed

definition disable_eth0 :: change where
  "disable_eth0 = sample_modified (eth0_path ''enabled'') (SR_BOOL_T True) (SR_BOOL_T False)"

definition eth0_db :: sample_db where
  "eth0_db = \<lparr>itfs = [(''eth0'', ''ETHERNET'', True)], objs = [(''eth0'', Sample_Itf ''eth0'')]\<rparr>"

text \<open>
  (C34) A commit that enables or disables two interfaces, of which only the first is known:
  the callback fails with \<open>SR_ERR_OPERATION_FAILED\<close>, after it has changed the object of the
  first one. That object is shared with VOM and never written, so VOM's view and VPP
  differ from then on.
\<close>

theorem ietf_modify_unwritten:
  assumes "sr_get_changes_iter ds xp = (SR_ERR_OK, c # c' # cs)"
    and "enables api (\<lambda>v. True) c n b" "interface_find vom n s = Some i"
    and "enables api (\<lambda>v. True) c' n' b'" "interface_find vom n' (interface_set vom i b s) = None"
  shows "ietf_interface_create_cb api vom mem ds xp SR_EV_VERIFY s =
    Val (SR_ERR_OPERATION_FAILED, interface_set vom i b s)"
  using assms
  by (auto simp: ietf_interface_create_cb_def intf_run_def intf_start_def enables_def ietf_create_step_def
      intf_modified_def split: option.splits)

definition disable_eth1 :: change where
  "disable_eth1 = sample_modified (''/interfaces/interface[name='' @ [CHR 0x27] @ ''eth1'' @ [CHR 0x27] @ '']/enabled'')
     (SR_BOOL_T True) (SR_BOOL_T False)"

theorem ietf_modify_unwritten_witness:
  "ietf_interface_create_cb sample_api sample_vom zeroed (sample_session [disable_eth0, disable_eth1]) []
      SR_EV_VERIFY eth0_db = Val (SR_ERR_OPERATION_FAILED, eth0_db\<lparr>itfs := [(''eth0'', ''ETHERNET'', False)]\<rparr>)"
proof -
  have e: "enables sample_api (\<lambda>v. True) disable_eth0 ''eth0'' False" "enables sample_api (\<lambda>v. True) disable_eth1 ''eth1'' False"
    by code_simp+
  have f: "interface_find sample_vom ''eth0'' eth0_db = Some ''eth0''"
    "interface_find sample_vom ''eth1'' (interface_set sample_vom ''eth0'' False eth0_db) = None"
    by (simp_all add: sample_vom_def eth0_db_def)
  show ?thesis
    using ietf_modify_unwritten [OF sample_session_iter [of _ "[]"] e(1) f(1) e(2) f(2)]
    by (simp add: sample_vom_def eth0_db_def)
qed

text \<open>
  (C22) A commit that deletes interface leaves, with at least one name among them, by what
  the memory of the uninitialised flags holds: the last deleted name is removed from the
  object model if \<open>create\<close> and \<open>modify\<close> are false there; if they are indeterminate the
  behaviour is undefined, and a true one makes the callback fail or dereference null.
\<close>

theorem ietf_delete_interface:
  assumes "sr_get_changes_iter ds xp = (SR_ERR_OK, cs)"
    and "\<forall>c \<in> set cs. deletes api c" "names_of api (old_vals cs) \<noteq> []"
  shows "ietf_interface_create_cb api vom mem ds xp SR_EV_VERIFY s =
    (case mem_create mem of
       None \<Rightarrow> Undef Indeterminate
     | Some True \<Rightarrow> bindO (free_ptr (vals_after_loop ds cs)) (\<lambda>_. Val (SR_ERR_INVAL_ARG, s))
     | Some False \<Rightarrow>
         (case mem_modify mem of
            None \<Rightarrow> Undef Indeterminate
          | Some True \<Rightarrow> Undef NullPointer
          | Some False \<Rightarrow> Val (SR_ERR_OK, om_remove vom (last (names_of api (old_vals cs))) s)))"
  by (rule ietf_cb_deleted [OF assms])

theorem ietf_delete_interface_witness:
  "ietf_interface_create_cb sample_api sample_vom zeroed
      (sample_session [sample_deleted (eth0_path ''name'') (SR_STRING_T ''eth0'')]) [] SR_EV_VERIFY eth0_db
    = Val (SR_ERR_OK, \<lparr>itfs = [(''eth0'', ''ETHERNET'', True)], objs = []\<rparr>)"
proof -
  let ?cs = "[sample_deleted (eth0_path ''name'') (SR_STRING_T ''eth0'')]"
  have it: "sr_get_changes_iter (sample_session ?cs) [] = (SR_ERR_OK, ?cs)"
    by (simp add: sample_session_def)
  have del: "\<forall>c \<in> set ?cs. deletes sample_api c"
    by code_simp
  have names: "names_of sample_api (old_vals ?cs) = [''eth0'']"
    by code_simp
  show ?thesis
    by (subst ietf_delete_interface [OF it del]) (simp_all add: names zeroed_def sample_vom_def eth0_db_def)
qed

text \<open>
  The flags \<open>create\<close>, \<open>remove\<close> and \<open>modify\<close> are read without having been
  initialised: under the C++ rules only a commit that creates an interface name can make
  the callback return \<open>SR_ERR_OK\<close>. Modifications and deletions alone are undefined
  behaviour or fail.
\<close>

lemma ietf_create_cb_uninitialised_flags:
  assumes "sr_get_changes_iter ds xp = (SR_ERR_OK, cs)"
    and "ietf_interface_create_cb api vom indeterminate ds xp SR_EV_VERIFY s = Val (SR_ERR_OK, s')"
  shows "\<exists>c \<in> set cs. creates_name api c"
  using assms(2) unfolding ietf_interface_create_cb_verify [OF assms(1)]
  by (rule ietf_body.run_ok_creates_name) (simp add: indeterminate_def)

section \<open>Sequences of address changes\<close>

text \<open>
  The changes that sysrepo reports for a created (or deleted) address: the list entry, its
  key \<open>ip\<close> and its \<open>prefix-length\<close>, below the interface \<open>n\<close>; \<open>sel\<close> is the value
  that carries them.
\<close>

definition address_block ::
    "sr_api \<Rightarrow> sr_oper \<Rightarrow> (change \<Rightarrow> sr_val option) \<Rightarrow> string \<Rightarrow> string \<times> 8 word \<Rightarrow>
     change \<Rightarrow> change \<Rightarrow> change \<Rightarrow> bool" where
  "address_block api op sel n ap c0 c1 c2 \<longleftrightarrow>
     oper c0 = op \<and> oper c1 = op \<and> oper c2 = op \<and>
     (case (sel c0, sel c1, sel c2) of
        (Some v0, Some v1, Some v2) \<Rightarrow>
          sr_xpath_key_value api (xpath v0) ''interface'' ''name'' = Some n \<and>
          sr_xpath_key_value api (xpath v1) ''interface'' ''name'' = Some n \<and>
          sr_xpath_key_value api (xpath v2) ''interface'' ''name'' = Some n \<and>
          data v0 = SR_LIST_T \<and>
          sr_xpath_node_name_eq api (xpath v1) ''ip'' \<and> data v1 = SR_STRING_T (fst ap) \<and>
          \<not> sr_xpath_node_name_eq api (xpath v2) ''ip'' \<and>
          sr_xpath_node_name_eq api (xpath v2) ''prefix-length'' \<and> data v2 = SR_UINT8_T (snd ap)
      | _ \<Rightarrow> False)"

fun address_blocks ::
    "sr_api \<Rightarrow> sr_oper \<Rightarrow> (change \<Rightarrow> sr_val option) \<Rightarrow> string \<Rightarrow> (string \<times> 8 word) list \<Rightarrow>
     change list \<Rightarrow> bool" where
  "address_blocks api op sel n [] [] \<longleftrightarrow> True"
| "address_blocks api op sel n (ap # aps) (c0 # c1 # c2 # cs) \<longleftrightarrow>
     address_block api op sel n ap c0 c1 c2 \<and> address_blocks api op sel n aps cs"
| "address_blocks api op sel n _ _ \<longleftrightarrow> False"

text \<open>
  The calls of \<open>ipv46_config_add_remove\<close> for a list of addresses: each address is first
  configured with the prefix length left over from the one before.
\<close>

fun config_addresses ::
    "('s, 'i, 'p, 'a) vom_api \<Rightarrow> bool \<Rightarrow> string \<Rightarrow> 8 word \<Rightarrow> (string \<times> 8 word) list \<Rightarrow>
     sr_error \<times> 's \<Rightarrow> sr_error \<times> 's" where
  "config_addresses vom add n prev [] r = r"
| "config_addresses vom add n prev ((a, p) # aps) r =
     config_addresses vom add n p aps
       (ipv46_config_add_remove vom n a p add
         (snd (ipv46_config_add_remove vom n a prev add (snd r))))"

lemma walk_addresses_created:
  assumes "address_blocks api SR_OP_CREATED new_val n aps cs" "n \<noteq> []" "\<forall>ap \<in> set aps. fst ap \<noteq> []"
    and "\<not> addr_del l"
  shows "\<exists>l'. walk_changes (addr_step order api net vom) cs l = Val (Next l') \<and>
    (op_rc l', addr_db l') = config_addresses vom True n (snd (new_ap l)) aps (op_rc l, addr_db l)"
  using assms
proof (induction api "SR_OP_CREATED" "new_val :: change \<Rightarrow> sr_val option" n aps cs
    arbitrary: l rule: address_blocks.induct)
  case (2 api n ap aps c0 c1 c2 cs)
  obtain a p where ap: "ap = (a, p)"
    by (cases ap)
  obtain v0 v1 v2 where v: "new_val c0 = Some v0" "new_val c1 = Some v1" "new_val c2 = Some v2"
    and blk: "oper c0 = SR_OP_CREATED" "oper c1 = SR_OP_CREATED" "oper c2 = SR_OP_CREATED"
      "sr_xpath_key_value api (xpath v0) ''interface'' ''name'' = Some n"
      "sr_xpath_key_value api (xpath v1) ''interface'' ''name'' = Some n"
      "sr_xpath_key_value api (xpath v2) ''interface'' ''name'' = Some n"
      "data v0 = SR_LIST_T" "sr_xpath_node_name_eq api (xpath v1) ''ip''" "data v1 = SR_STRING_T a"
      "\<not> sr_xpath_node_name_eq api (xpath v2) ''ip''"
      "sr_xpath_node_name_eq api (xpath v2) ''prefix-length''" "data v2 = SR_UINT8_T p"
    using "2.prems"(1) ap by (auto simp: address_block_def split: option.splits)
  note step = addr_step_def addr_switch_def parse_interface_ipv46_address_def addr_apply_def Let_def
  define l0 where "l0 = l\<lparr>addr_create := True, new_ap := ([], snd (new_ap l))\<rparr>"
  obtain rc1 s1 where r1: "ipv46_config_add_remove vom n a (snd (new_ap l)) True (addr_db l) = (rc1, s1)"
    by fastforce
  define l1 where "l1 = l0\<lparr>new_ap := (a, snd (new_ap l)), op_rc := rc1, addr_db := s1\<rparr>"
  obtain rc2 s2 where r2: "ipv46_config_add_remove vom n a p True s1 = (rc2, s2)"
    by fastforce
  define l2 where "l2 = l1\<lparr>new_ap := (a, p), op_rc := rc2, addr_db := s2\<rparr>"
  have "addr_step order api net vom c0 l = Val (Next l0)"
    using v(1) blk "2.prems" by (simp add: step l0_def)
  moreover have "addr_step order api net vom c1 l0 = Val (Next l1)"
    using v(2) blk "2.prems" ap r1 by (simp add: step l0_def l1_def)
  moreover have "addr_step order api net vom c2 l1 = Val (Next l2)"
    using v(3) blk "2.prems" ap r2 by (simp add: step l0_def l1_def l2_def)
  moreover have "\<not> addr_del l2"
    using "2.prems" by (simp add: l0_def l1_def l2_def)
  ultimately show ?case
    using "2.hyps" [of l2] "2.prems" ap r1 r2 by (simp add: l0_def l1_def l2_def)
qed (auto)

lemma walk_addresses_deleted:
  assumes "address_blocks api SR_OP_DELETED old_val n aps cs" "n \<noteq> []" "\<forall>ap \<in> set aps. fst ap \<noteq> []"
    and "\<not> addr_create l" "\<forall>c \<in> set cs. new_val c = None"
  shows "\<exists>l'. walk_changes (addr_step order api net vom) cs l = Val (Next l') \<and>
    (op_rc l', addr_db l') = config_addresses vom False n (snd (old_ap l)) aps (op_rc l, addr_db l)"
  using assms
proof (induction api "SR_OP_DELETED" "old_val :: change \<Rightarrow> sr_val option" n aps cs
    arbitrary: l rule: address_blocks.induct)
  case (2 api n ap aps c0 c1 c2 cs)
  obtain a p where ap: "ap = (a, p)"
    by (cases ap)
  obtain v0 v1 v2 where v: "old_val c0 = Some v0" "old_val c1 = Some v1" "old_val c2 = Some v2"
    and blk: "oper c0 = SR_OP_DELETED" "oper c1 = SR_OP_DELETED" "oper c2 = SR_OP_DELETED"
      "sr_xpath_key_value api (xpath v0) ''interface'' ''name'' = Some n"
      "sr_xpath_key_value api (xpath v1) ''interface'' ''name'' = Some n"
      "sr_xpath_key_value api (xpath v2) ''interface'' ''name'' = Some n"
      "data v0 = SR_LIST_T" "sr_xpath_node_name_eq api (xpath v1) ''ip''" "data v1 = SR_STRING_T a"
      "\<not> sr_xpath_node_name_eq api (xpath v2) ''ip''"
      "sr_xpath_node_name_eq api (xpath v2) ''prefix-length''" "data v2 = SR_UINT8_T p"
    using "2.prems"(1) ap by (auto simp: address_block_def split: option.splits)
  note step = addr_step_def addr_switch_def parse_interface_ipv46_address_def addr_apply_def Let_def
  define l0 where "l0 = l\<lparr>addr_del := True, old_ap := ([], snd (old_ap l))\<rparr>"
  obtain rc1 s1 where r1: "ipv46_config_add_remove vom n a (snd (old_ap l)) False (addr_db l) = (rc1, s1)"
    by fastforce
  define l1 where "l1 = l0\<lparr>old_ap := (a, snd (old_ap l)), op_rc := rc1, addr_db := s1\<rparr>"
  obtain rc2 s2 where r2: "ipv46_config_add_remove vom n a p False s1 = (rc2, s2)"
    by fastforce
  define l2 where "l2 = l1\<lparr>old_ap := (a, p), op_rc := rc2, addr_db := s2\<rparr>"
  have "addr_step order api net vom c0 l = Val (Next l0)"
    using v(1) blk "2.prems" by (simp add: step l0_def)
  moreover have "addr_step order api net vom c1 l0 = Val (Next l1)"
    using v(2) blk "2.prems" ap r1 by (simp add: step l0_def l1_def)
  moreover have "addr_step order api net vom c2 l1 = Val (Next l2)"
    using v(3) blk "2.prems" ap r2 by (simp add: step l0_def l1_def l2_def)
  moreover have "\<not> addr_create l2"
    using "2.prems" by (simp add: l0_def l1_def l2_def)
  ultimately show ?case
    using "2.hyps" [of l2] "2.prems" ap r1 r2 by (simp add: l0_def l1_def l2_def)
qed (auto)


lemma addr_cb_created:
  assumes "sr_get_changes_iter ds xp = (SR_ERR_OK, cs)"
    and "address_blocks api SR_OP_CREATED new_val n aps cs" "n \<noteq> []" "\<forall>ap \<in> set aps. fst ap \<noteq> []"
  shows "ietf_interface_ipv46_address_change_cb order api net vom ds xp SR_EV_VERIFY s =
    Val (config_addresses vom True n 0 aps (SR_ERR_OK, s))"
proof -
  obtain l' where "walk_changes (addr_step order api net vom) cs (addr_start s) = Val (Next l')"
    and "(op_rc l', addr_db l') = config_addresses vom True n 0 aps (SR_ERR_OK, s)"
    using walk_addresses_created [OF assms(2-4), of "addr_start s" order net vom] by (auto simp: addr_start_def)
  then show ?thesis
    by (simp add: ietf_interface_ipv46_address_change_cb_def assms(1))
qed


section \<open>Properties of the address callback\<close>

text \<open>
  (C9) Creating addresses on an interface: the callback configures every address twice,
  first when its \<open>ip\<close> leaf arrives, with the prefix length of the address before it (0 for
  the first), then with its own prefix length; it returns the result of the last call
  only.
\<close>

theorem ipv46_create_addresses:
  assumes "sr_get_changes_iter ds xp = (SR_ERR_OK, cs)"
    and "address_blocks api SR_OP_CREATED new_val n aps cs" "n \<noteq> []" "\<forall>ap \<in> set aps. fst ap \<noteq> []"
  shows "ietf_interface_ipv46_address_change_cb order api net vom ds xp SR_EV_VERIFY s =
    Val (config_addresses vom True n 0 aps (SR_ERR_OK, s))"
  by (rule addr_cb_created [OF assms])

definition create_address :: "string \<Rightarrow> 8 word \<Rightarrow> change list" where
  "create_address a p =
     [sample_created (eth0_path ''address'') SR_LIST_T,
      sample_created (eth0_path ''address/ip'') (SR_STRING_T a),
      sample_created (eth0_path ''address/prefix-length'') (SR_UINT8_T p)]"

theorem ipv46_create_addresses_witness:
  "\<exists>s. ietf_interface_ipv46_address_change_cb Little_Endian sample_api sample_net sample_vom
      (sample_session (create_address ''10.0.0.1'' 24)) [] SR_EV_VERIFY eth0_db = Val (SR_ERR_OK, s) \<and>
    map fst (objs s) = [''l3_eth0_10.0.0.1/24'', ''l3_eth0_10.0.0.1/0'', ''eth0'']"
proof -
  let ?cs = "create_address ''10.0.0.1'' 24"
  have it: "sr_get_changes_iter (sample_session ?cs) [] = (SR_ERR_OK, ?cs)"
    by (simp add: sample_session_def)
  have blk: "address_blocks sample_api SR_OP_CREATED new_val ''eth0'' [(''10.0.0.1'', 24)] ?cs"
    by code_simp
  have "config_addresses sample_vom True ''eth0'' 0 [(''10.0.0.1'', 24)] (SR_ERR_OK, eth0_db) =
      (SR_ERR_OK, eth0_db\<lparr>objs := [(''l3_eth0_10.0.0.1/24'', Sample_L3 ''eth0'' ''10.0.0.1/24''),
        (''l3_eth0_10.0.0.1/0'', Sample_L3 ''eth0'' ''10.0.0.1/0''), (''eth0'', Sample_Itf ''eth0'')]\<rparr>)"
    by code_simp
  then show ?thesis
    using ipv46_create_addresses [OF it blk, of Little_Endian sample_net sample_vom eth0_db] by simp
qed

text \<open>
  Deleting addresses mirrors their creation: the same keys are removed, those of the
  stale prefix lengths included.
\<close>

lemma ipv46_delete_addresses:
  assumes "sr_get_changes_iter ds xp = (SR_ERR_OK, cs)"
    and "address_blocks api SR_OP_DELETED old_val n aps cs" "n \<noteq> []" "\<forall>ap \<in> set aps. fst ap \<noteq> []"
    and "\<forall>c \<in> set cs. new_val c = None"
  shows "ietf_interface_ipv46_address_change_cb order api net vom ds xp SR_EV_VERIFY s =
    Val (config_addresses vom False n 0 aps (SR_ERR_OK, s))"
proof -
  obtain l' where "walk_changes (addr_step order api net vom) cs (addr_start s) = Val (Next l')"
    and "(op_rc l', addr_db l') = config_addresses vom False n 0 aps (SR_ERR_OK, s)"
    using walk_addresses_deleted [OF assms(2-4) _ assms(5), of "addr_start s" order net vom]
    by (auto simp: addr_start_def)
  then show ?thesis
    by (simp add: ietf_interface_ipv46_address_change_cb_def assms(1))
qed

definition delete_address :: "string \<Rightarrow> 8 word \<Rightarrow> change list" where
  "delete_address a p =
     [sample_deleted (eth0_path ''address'') SR_LIST_T,
      sample_deleted (eth0_path ''address/ip'') (SR_STRING_T a),
      sample_deleted (eth0_path ''address/prefix-length'') (SR_UINT8_T p)]"

text \<open>A change of the prefix length of an address that stays configured.\<close>

definition modifies_plen :: "sr_api \<Rightarrow> change \<Rightarrow> bool" where
  "modifies_plen api c \<longleftrightarrow>
     oper c = SR_OP_MODIFIED \<and>
     (case (old_val c, new_val c) of
        (Some v, Some w) \<Rightarrow>
          (case sr_xpath_key_value api (xpath w) ''interface'' ''name'' of None \<Rightarrow> False | Some n \<Rightarrow> n \<noteq> []) \<and>
          \<not> sr_xpath_node_name_eq api (xpath v) ''ip'' \<and> \<not> sr_xpath_node_name_eq api (xpath w) ''ip'' \<and>
          sr_xpath_node_name_eq api (xpath v) ''prefix-length'' \<and>
          sr_xpath_node_name_eq api (xpath w) ''prefix-length'' \<and>
          is_val (uint8_val v) \<and> is_val (uint8_val w)
      | _ \<Rightarrow> False)"

lemma addr_step_modifies_plen:
  assumes "modifies_plen api c" "fst (new_ap l) = []" "fst (old_ap l) = []"
  shows "\<exists>l'. addr_step order api net vom c l = Val (Next l') \<and> fst (new_ap l') = [] \<and>
    fst (old_ap l') = [] \<and> op_rc l' = op_rc l \<and> addr_db l' = addr_db l"
proof -
  obtain v w n x y where vw: "old_val c = Some v" "new_val c = Some w" "oper c = SR_OP_MODIFIED"
    "sr_xpath_key_value api (xpath w) ''interface'' ''name'' = Some n" "n \<noteq> []"
    "\<not> sr_xpath_node_name_eq api (xpath v) ''ip''" "\<not> sr_xpath_node_name_eq api (xpath w) ''ip''"
    "sr_xpath_node_name_eq api (xpath v) ''prefix-length''"
    "sr_xpath_node_name_eq api (xpath w) ''prefix-length''"
    "uint8_val v = Val x" "uint8_val w = Val y"
    using assms(1)
    by (auto simp: modifies_plen_def is_val_iff simp del: uint8_val.simps split: option.splits)
  then have "data v \<noteq> SR_LIST_T" "data w \<noteq> SR_LIST_T"
    by auto
  with vw assms(2,3) show ?thesis
    by (simp add: addr_step_def addr_switch_def parse_interface_ipv46_address_def addr_apply_def Let_def
        del: uint8_val.simps)
qed

text \<open>
  (C39) Modifying prefix lengths has no effect: the callback reports \<open>SR_ERR_OK\<close> without
  any call that configures an address, because the address itself is only known from a
  change of its \<open>ip\<close> leaf.
\<close>

theorem ipv46_modify_prefix_length_ignored:
  assumes "sr_get_changes_iter ds xp = (SR_ERR_OK, cs)" "\<forall>c \<in> set cs. modifies_plen api c"
  shows "ietf_interface_ipv46_address_change_cb order api net vom ds xp SR_EV_VERIFY s = Val (SR_ERR_OK, s)"
proof -
  have "\<exists>l'. walk_changes (addr_step order api net vom) cs l = Val (Next l') \<and>
      op_rc l' = op_rc l \<and> addr_db l' = addr_db l"
    if "fst (new_ap l) = []" "fst (old_ap l) = []" for l
    using assms(2) that
  proof (induction cs arbitrary: l)
    case (Cons c cs)
    then obtain l1 where "addr_step order api net vom c l = Val (Next l1)" "fst (new_ap l1) = []"
      "fst (old_ap l1) = []" "op_rc l1 = op_rc l" "addr_db l1 = addr_db l"
      using addr_step_modifies_plen [of api c l order net vom] by auto
    with Cons show ?case
      by fastforce
  qed simp
  from this [of "addr_start s"] show ?thesis
    by (auto simp: ietf_interface_ipv46_address_change_cb_def assms(1) addr_start_def)
qed

theorem ipv46_modify_prefix_length_ignored_witness:
  "ietf_interface_ipv46_address_change_cb Little_Endian sample_api sample_net sample_vom
      (sample_session [sample_modified (eth0_path ''address/prefix-length'') (SR_UINT8_T 24) (SR_UINT8_T 16)]) []
      SR_EV_VERIFY eth0_db = Val (SR_ERR_OK, eth0_db)"
proof -
  let ?cs = "[sample_modified (eth0_path ''address/prefix-length'') (SR_UINT8_T 24) (SR_UINT8_T 16)]"
  have it: "sr_get_changes_iter (sample_session ?cs) [] = (SR_ERR_OK, ?cs)"
    by (simp add: sample_session_def)
  have "\<forall>c \<in> set ?cs. modifies_plen sample_api c"
    by code_simp
  from ipv46_modify_prefix_length_ignored [OF it this] show ?thesis .
qed

text \<open>
  The key under which an address binding is stored determines interface and prefix,
  as long as printed prefixes contain no underscore; interface names may.
\<close>

lemma l3_key_inject:
  assumes "CHR ''_'' \<notin> set p" "CHR ''_'' \<notin> set p'"
  shows "l3_key n p = l3_key n' p' \<longleftrightarrow> n = n' \<and> p = p'"
proof
  assume "l3_key n p = l3_key n' p'"
  then have "n @ CHR ''_'' # p = n' @ CHR ''_'' # p'"
    by (simp add: l3_key_def)
  from append_sep_inj [OF this assms] show "n = n' \<and> p = p'" .
qed simp

text \<open>
  Adding an address and removing it again: if the interface stays known under its
  name, the removal addresses the key that the addition wrote, so both calls succeed.
\<close>

lemma ipv46_add_then_remove:
  assumes "interface_find vom n s = Some i" "prefix_t vom a p = Inr pfx"
    and "om_write_l3 vom (l3_key (interface_itf_name vom i s) (prefix_t_to_string vom pfx)) i pfx s = (RC_OK, s')"
    and "interface_find vom n s' = Some i" "interface_itf_name vom i s' = interface_itf_name vom i s"
  shows "ipv46_config_add_remove vom n a p True s = (SR_ERR_OK, s') \<and>
    ipv46_config_add_remove vom n a p False s' =
      (SR_ERR_OK, om_remove vom (l3_key (interface_itf_name vom i s) (prefix_t_to_string vom pfx)) s')"
  using assms by (simp add: ipv46_config_add_remove_def)

end
