(* ===== verification/Vpp_Oper.thy ===== *)
theory Vpp_Oper
  imports Vom
begin

text \<open>
  \<open>src/plugins/vpp-oper/interface.cpp\<close>: the command \<open>interface_dump\<close>, which asks VPP
  for its interfaces, all of them or those that match one name.
\<close>

record interface_dump =
  dump_name :: string

definition interface_dump_all :: interface_dump where
  "interface_dump_all = \<lparr>dump_name = []\<rparr>"

definition interface_dump_one :: "string \<Rightarrow> interface_dump" where
  "interface_dump_one n = \<lparr>dump_name = n\<rparr>"

text \<open>
  The request that \<open>issue\<close> fills in; \<open>strcpy\<close> writes the name and its terminating zero
  without regard to the size of the buffer.
\<close>

definition dump_request :: "('s, 'i, 'p, 'a) vom_api \<Rightarrow> interface_dump \<Rightarrow> dump_payload outcome" where
  "dump_request vom d =
     (if dump_name d = [] then Val \<lparr>name_filter_valid = 0, name_filter = []\<rparr>
      else if name_filter_size vom < length (c_str (dump_name d)) + 1 then Undef BufferOverflow
      else Val \<lparr>name_filter_valid = 1, name_filter = c_str (dump_name d)\<rparr>)"

text \<open>\<open>VAPI_CALL(m_dump->execute()); wait(); return rc_t::OK;\<close>\<close>

definition issue ::
    "('s, 'i, 'p, 'a) vom_api \<Rightarrow> interface_dump \<Rightarrow> 's \<Rightarrow> (rc_t \<times> sw_interface_details list) outcome" where
  "issue vom d s = bindO (dump_request vom d) (\<lambda>req. Val (RC_OK, dump vom req s))"

definition dump_to_string :: "interface_dump \<Rightarrow> string" where
  "dump_to_string d = ''itf-dump''"

lemma issue_all: "issue vom interface_dump_all s =
    Val (RC_OK, dump vom \<lparr>name_filter_valid = 0, name_filter = []\<rparr> s)"
  by (simp add: issue_def dump_request_def interface_dump_all_def)

lemma c_str_idem: "\<forall>c \<in> set n. of_char c \<noteq> (0 :: nat) \<Longrightarrow> c_str n = n"
  by (simp add: c_str_def takeWhile_eq_all_conv)

text \<open>
  The request for one interface: the name reaches VPP unchanged if it fits the
  request's buffer with its terminating zero; a longer one is written past the buffer.
\<close>

lemma issue_one_interface:
  assumes "n \<noteq> []" "\<forall>c \<in> set n. of_char c \<noteq> (0 :: nat)"
  shows "issue vom (interface_dump_one n) s =
    (if length n < name_filter_size vom
     then Val (RC_OK, dump vom \<lparr>name_filter_valid = 1, name_filter = n\<rparr> s)
     else Undef BufferOverflow)"
  using assms(1) c_str_idem [OF assms(2)]
  by (simp add: issue_def dump_request_def interface_dump_one_def)

end
