(* ===== verification/Sr_Values.thy ===== *)
theory Sr_Values
  imports Vpp_Oper
begin

text \<open>
  The answers of the providers of operational data: an array of values that
  \<open>sr_new_values\<close> allocates and that the callbacks fill cell by cell, with the counter
  \<open>cnt\<close> as index. Writing behind the last cell is undefined behaviour.
\<close>

section \<open>Arrays of values\<close>

text \<open>
  A blank cell is \<open>None\<close>. The second component of an answer is \<open>None\<close> where the callback
  returns without writing its output parameters, else the array (\<open>None\<close>: null pointer)
  and the number of values.
\<close>

type_synonym val_array = "nat \<times> sr_val option list"
type_synonym answer = "sr_error \<times> (sr_val option list option \<times> nat) option"

definition new_array :: "nat \<Rightarrow> val_array" where
  "new_array n = (0, replicate n None)"

definition put_val :: "sr_val \<Rightarrow> val_array \<Rightarrow> val_array outcome" where
  "put_val v a =
     (case a of (cnt, cells) \<Rightarrow>
        if cnt < length cells then Val (cnt + 1, cells[cnt := Some v]) else Undef BufferOverflow)"

fun put_vals :: "sr_val list \<Rightarrow> val_array \<Rightarrow> val_array outcome" where
  "put_vals [] a = Val a"
| "put_vals (v # vs) a = bindO (put_val v a) (put_vals vs)"

text \<open>\<open>*values = val; *values_cnt = cnt; return SR_ERR_OK;\<close> and the label \<open>nothing_todo\<close>\<close>

definition give :: "val_array \<Rightarrow> answer" where
  "give a = (SR_ERR_OK, Some (Some (snd a), fst a))"

definition give_nothing :: "sr_error \<Rightarrow> answer" where
  "give_nothing rc = (rc, Some (None, 0))"

text \<open>The values that sysrepo reads from an answer.\<close>

definition answered :: "answer \<Rightarrow> sr_val list" where
  "answered r =
     (case snd r of
        Some (Some cells, cnt) \<Rightarrow> List.map_filter (\<lambda>x. x) (take cnt cells)
      | _ \<Rightarrow> [])"

lemma put_vals_fit:
  "cnt + length vs \<le> length cells \<Longrightarrow>
    put_vals vs (cnt, cells) =
      Val (cnt + length vs, take cnt cells @ map Some vs @ drop (cnt + length vs) cells)"
proof (induction vs arbitrary: cnt cells)
  case (Cons v vs)
  then have "put_vals (v # vs) (cnt, cells) = put_vals vs (cnt + 1, cells[cnt := Some v])"
    by (simp add: put_val_def)
  also have "\<dots> = Val (cnt + 1 + length vs,
      take (cnt + 1) (cells[cnt := Some v]) @ map Some vs @ drop (cnt + 1 + length vs) (cells[cnt := Some v]))"
    using Cons.prems by (intro Cons.IH) simp
  also have "take (cnt + 1) (cells[cnt := Some v]) = take cnt cells @ [Some v]"
    using Cons.prems by (simp add: take_Suc_conv_app_nth)
  finally show ?case
    using Cons.prems by simp
qed simp

lemma put_vals_append: "put_vals (vs @ ws) a = bindO (put_vals vs a) (put_vals ws)"
  by (induction vs arbitrary: a) (auto simp: bindO_assoc intro!: bindO_cong)

lemma put_vals_new:
  "length vs \<le> n \<Longrightarrow> put_vals vs (new_array n) = Val (length vs, map Some vs @ replicate (n - length vs) None)"
  by (simp add: new_array_def put_vals_fit)

lemma put_vals_exact: "length vs = n \<Longrightarrow> put_vals vs (new_array n) = Val (n, map Some vs)"
  by (simp add: put_vals_new)

lemma put_vals_overflow: "n < length vs \<Longrightarrow> put_vals vs (new_array n) = Undef BufferOverflow"
proof -
  assume n: "n < length vs"
  then obtain v ws where vs: "vs = take n vs @ v # ws"
    by (metis id_take_nth_drop)
  have "put_vals (take n vs) (new_array n) = Val (n, map Some (take n vs))"
    using n by (subst put_vals_new) auto
  then have "put_vals (take n vs @ v # ws) (new_array n) = Undef BufferOverflow"
    using n by (simp add: put_vals_append put_val_def)
  then show ?thesis
    by (simp flip: vs)
qed

lemma answered_give: "answered (give (length vs, map Some vs @ blanks)) = vs"
  by (simp add: answered_def give_def List.map_filter_def comp_def)


section \<open>The contract of a provider\<close>

text \<open>
  A provider that allocates \<open>room q\<close> cells for a request \<open>q\<close> and writes the values
  \<open>vals q\<close> in order: if the values fit, the answer consists of exactly these values;
  otherwise the provider writes past its array.
\<close>

locale provider =
  fixes cb :: "'q \<Rightarrow> answer outcome"
    and serves :: "'q \<Rightarrow> bool"
    and room :: "'q \<Rightarrow> nat"
    and vals :: "'q \<Rightarrow> sr_val list"
  assumes cb_serves: "serves q \<Longrightarrow> cb q = bindO (put_vals (vals q) (new_array (room q))) (\<lambda>a. Val (give a))"
    and vals_fit: "serves q \<Longrightarrow> length (vals q) \<le> room q"
begin

lemma cb_answers:
  assumes "serves q"
  shows "\<exists>r. cb q = Val r \<and> fst r = SR_ERR_OK \<and> answered r = vals q \<and>
    (\<exists>cells. snd r = Some (Some cells, length (vals q)) \<and> length cells = room q)"
proof -
  have "cb q = Val (give (length (vals q), map Some (vals q) @ replicate (room q - length (vals q)) None))"
    using cb_serves [OF assms] vals_fit [OF assms] by (simp add: put_vals_new)
  moreover have "length (map Some (vals q) @ replicate (room q - length (vals q)) None) = room q"
    using vals_fit [OF assms] by simp
  ultimately show ?thesis
    by (simp add: answered_give) (simp add: give_def)
qed

end

end
