(* ===== verification/Openconfig_Interfaces.thy ===== *)
theory Openconfig_Interfaces
  imports Interface_Builder Sr_Values
begin

text \<open>
  \<open>src/plugins/openconfig/openconfig_interfaces.cpp\<close>: the configuration callback and the
  provider of operational data of the OpenConfig interface model.
\<close>

section \<open>Class interface\_builder\<close>

text \<open>
  The file has its own definition of the class, under the same name as the one in
  \<open>ietf_interface.cpp\<close> and with the same members, so both share the record.
\<close>

definition oc_new_builder :: "bool option \<Rightarrow> interface_builder" where
  "oc_new_builder mem = \<lparr>m_name = [], m_type = [], m_state = mem\<rparr>"

definition oc_build ::
    "('s, 'i, 'p, 'a) vom_api \<Rightarrow> interface_builder \<Rightarrow> 's \<Rightarrow> ('i option \<times> 's) outcome" where
  "oc_build vom b s =
     (if m_name b = [] \<or> m_type b = [] then Val (None, s)
      else bindO (load (m_state b))
        (\<lambda>st. case make_interface vom (m_name b) (m_type b) st s of (i, s') \<Rightarrow> Val (Some i, s')))"

definition oc_name :: "interface_builder \<Rightarrow> string" where
  "oc_name b = m_name b"

definition oc_set_name :: "string \<Rightarrow> interface_builder \<Rightarrow> interface_builder" where
  "oc_set_name n b = b\<lparr>m_name := n\<rparr>"

definition oc_set_type :: "string \<Rightarrow> interface_builder \<Rightarrow> interface_builder" where
  "oc_set_type t b = (if t = ''iana-if-type:ethernetCsmacd'' then b\<lparr>m_type := ''ETHERNET''\<rparr> else b)"

definition oc_set_state :: "bool \<Rightarrow> interface_builder \<Rightarrow> interface_builder" where
  "oc_set_state enable b = b\<lparr>m_state := Some enable\<rparr>"

definition oc_to_string :: "interface_builder \<Rightarrow> string outcome" where
  "oc_to_string b =
     bindO (load (m_state b))
       (\<lambda>st. Val (m_name b @ '','' @ m_type b @ '','' @ (if st then ''1'' else ''0'')))"


section \<open>oc\_interfaces\_config\_cb\<close>

text \<open>The variables, with the contents of those without initialiser\<close>

definition oc_start :: "uninit \<Rightarrow> 's \<Rightarrow> ('s, 'i) intf_locals" where
  "oc_start mem s =
     \<lparr>builder = oc_new_builder (mem_state mem), intf = None, create = mem_create mem,
      remove = mem_remove mem, modify = mem_modify mem, db = s\<rparr>"

text \<open>\<open>case SR_OP_CREATED\<close>\<close>

definition oc_created ::
    "sr_api \<Rightarrow> sr_val \<Rightarrow> ('s, 'i) intf_locals \<Rightarrow> ('s, 'i) intf_locals flow outcome" where
  "oc_created api ne l =
     (if sr_xpath_node_name_eq api (xpath ne) ''name''
      then bindO (string_val ne) (\<lambda>n. Val (Next (l\<lparr>builder := oc_set_name n (builder l), create := Some True\<rparr>)))
      else if sr_xpath_node_name_eq api (xpath ne) ''type''
      then bindO (string_val ne) (\<lambda>t. Val (Next (l\<lparr>builder := oc_set_type t (builder l)\<rparr>)))
      else if sr_xpath_node_name_eq api (xpath ne) ''enabled''
      then bindO (bool_val ne) (\<lambda>b. Val (Next (l\<lparr>builder := oc_set_state b (builder l)\<rparr>)))
      else Val (Next l))"

text \<open>\<open>case SR_OP_MODIFIED\<close>\<close>

definition oc_modified ::
    "sr_api \<Rightarrow> ('s, 'i, 'p, 'a) vom_api \<Rightarrow> sr_val \<Rightarrow> ('s, 'i) intf_locals \<Rightarrow>
     ('s, 'i) intf_locals flow outcome" where
  "oc_modified api vom ne l =
     (if sr_xpath_node_name_eq api (xpath ne) ''enabled''
      then bindO (deref (sr_xpath_key_value api (xpath ne) ''interface'' ''name''))
        (\<lambda>n. case interface_find vom n (db l) of
           None \<Rightarrow> Val (Leave SR_ERR_OPERATION_FAILED (l\<lparr>intf := None\<rparr>))
         | Some i \<Rightarrow> bindO (bool_val ne)
             (\<lambda>b. Val (Next (l\<lparr>intf := Some i, db := interface_set vom i b (db l), modify := Some True\<rparr>))))
      else Val (Next l))"

text \<open>\<open>case SR_OP_DELETED\<close>\<close>

definition oc_deleted ::
    "sr_api \<Rightarrow> sr_val \<Rightarrow> ('s, 'i) intf_locals \<Rightarrow> ('s, 'i) intf_locals flow outcome" where
  "oc_deleted api ol l =
     (if sr_xpath_node_name_eq api (xpath ol) ''name''
      then bindO (string_val ol) (\<lambda>n. Val (Next (l\<lparr>builder := oc_set_name n (builder l), remove := Some True\<rparr>)))
      else Val (Next l))"

text \<open>
  One iteration of the loop: every change is first asked for the interface name in the
  xpath of its \<^emph>\<open>new\<close> value.
\<close>

definition oc_config_step ::
    "sr_api \<Rightarrow> ('s, 'i, 'p, 'a) vom_api \<Rightarrow> change \<Rightarrow> ('s, 'i) intf_locals \<Rightarrow>
     ('s, 'i) intf_locals flow outcome" where
  "oc_config_step api vom c l =
     bindO (deref (new_val c)) (\<lambda>ne.
     bindO (deref (sr_xpath_key_value api (xpath ne) ''interface'' ''name'')) (\<lambda>intf_name.
     if intf_name = [] then Val (Leave SR_ERR_INVAL_ARG l)
     else (case oper c of
        SR_OP_CREATED \<Rightarrow> oc_created api ne l
      | SR_OP_MODIFIED \<Rightarrow> oc_modified api vom ne l
      | SR_OP_DELETED \<Rightarrow> bindO (deref (old_val c)) (\<lambda>ol. oc_deleted api ol l)
      | _ \<Rightarrow> Val (Leave SR_ERR_UNSUPPORTED l))))"

text \<open>The code behind the loop\<close>

definition oc_finish ::
    "('s, 'i, 'p, 'a) vom_api \<Rightarrow> lifetime \<Rightarrow> ('s, 'i) intf_locals \<Rightarrow> (sr_error \<times> 's) outcome" where
  "oc_finish vom vals l =
     bindO (load (create l)) (\<lambda>c.
     bindO
       (if c then bindO (oc_build vom (builder l) (db l)) (\<lambda>(i, s). Val (l\<lparr>intf := i, db := s\<rparr>))
        else Val l)
       (\<lambda>l.
        if c \<and> intf l = None
        then bindO (free_ptr vals) (\<lambda>_. Val (SR_ERR_INVAL_ARG, db l))
        else bindO (if c then Val True else load (modify l)) (\<lambda>wr.
          if wr
          then bindO (deref (intf l)) (\<lambda>i.
            (case om_write_interface vom (interface_key vom i (db l)) i (db l) of
               (RC_OK, s) \<Rightarrow> Val (SR_ERR_OK, s)
             | (RC_FAILED _, s) \<Rightarrow>
                 bindO (oc_to_string (builder l)) (\<lambda>_.
                 bindO (free_ptr vals) (\<lambda>_. Val (SR_ERR_OPERATION_FAILED, s)))
             | (RC_THROWN e, s) \<Rightarrow> Throw e))
          else bindO (load (remove l)) (\<lambda>rm.
            if rm then Val (SR_ERR_OK, om_remove vom (oc_name (builder l)) (db l))
            else Val (SR_ERR_OK, db l)))))"

text \<open>The loop over the changes and the code behind it.\<close>

definition oc_run ::
    "sr_api \<Rightarrow> ('s, 'i, 'p, 'a) vom_api \<Rightarrow> uninit \<Rightarrow> session \<Rightarrow> sr_event \<Rightarrow> change list \<Rightarrow> 's \<Rightarrow>
     (sr_error \<times> 's) outcome" where
  "oc_run api vom mem ds event cs s =
     bindO (foreach_change event (oc_config_step api vom) cs (oc_start mem s))
       (\<lambda>f. case f of
          Leave rc l \<Rightarrow> Val (rc, db l)
        | Next l \<Rightarrow> oc_finish vom (vals_after_loop ds cs) l)"

definition oc_interfaces_config_cb ::
    "sr_api \<Rightarrow> ('s, 'i, 'p, 'a) vom_api \<Rightarrow> uninit \<Rightarrow> session option \<Rightarrow> string option \<Rightarrow> sr_event \<Rightarrow> 's \<Rightarrow>
     (sr_error \<times> 's) outcome" where
  "oc_interfaces_config_cb api vom mem ds xp event s =
     ARG_CHECK2 (SR_ERR_INVAL_ARG, s) ds xp (\<lambda>ds xp.
       if event \<noteq> SR_EV_VERIFY then Val (SR_ERR_OK, s)
       else case sr_get_changes_iter ds xp of (rc, cs) \<Rightarrow>
         if rc \<noteq> SR_ERR_OK then Val (SR_ERR_OK, s)
         else oc_run api vom mem ds event cs s)"


section \<open>oc\_interfaces\_state\_cb\<close>

definition oc_state_path :: "string \<Rightarrow> string" where
  "oc_state_path n =
     ''/openconfig-interfaces:interfaces/interface[name='' @ [CHR 0x27] @ n @ [CHR 0x27] @ '']/state''"

definition oc_state_values :: "string \<Rightarrow> sw_interface_details \<Rightarrow> sr_val list" where
  "oc_state_values root d =
     [\<lparr>xpath = root @ ''/name'', data = SR_STRING_T (interface_name d)\<rparr>,
      \<lparr>xpath = root @ ''/type'', data = SR_IDENTITYREF_T ''ianaift:ethernetCsmacd''\<rparr>,
      \<lparr>xpath = root @ ''/mtu'', data = SR_UINT16_T (link_mtu d)\<rparr>,
      \<lparr>xpath = root @ ''/enabled'', data = SR_BOOL_T (flags d \<noteq> 0)\<rparr>,
      \<lparr>xpath = root @ ''/ifindex'', data = SR_UINT32_T (sw_if_index d)\<rparr>,
      \<lparr>xpath = root @ ''/admin-status'', data = SR_ENUM_T (if flags d \<noteq> 0 then ''UP'' else ''DOWN'')\<rparr>,
      \<lparr>xpath = root @ ''/oper-status'', data = SR_ENUM_T (if link_duplex d \<noteq> 0 then ''UP'' else ''DOWN'')\<rparr>]"

text \<open>
  \<open>out_values\<close> and \<open>out_cnt\<close> are the output pointers, which are checked for null. The
  first record of the dump is read without a check that there is one.
\<close>

definition oc_interfaces_state_cb ::
    "sr_api \<Rightarrow> ('s, 'i, 'p, 'a) vom_api \<Rightarrow> (nat \<Rightarrow> sr_error) \<Rightarrow> string option \<Rightarrow> unit option \<Rightarrow> unit option \<Rightarrow>
     's \<Rightarrow> answer outcome" where
  "oc_interfaces_state_cb api vom sr_new_values xp out_values out_cnt s =
     ARG_CHECK3 (SR_ERR_INVAL_ARG, None) xp out_values out_cnt (\<lambda>xp _ _.
     bindO (deref (sr_xpath_key_value api xp ''interface'' ''name'')) (\<lambda>intf_name.
     if intf_name = [] then Val (SR_ERR_INVAL_ARG, None)
     else (let root = snprintf_str XPATH_SIZE (oc_state_path intf_name); vc = 7 in
       if sr_new_values vc \<noteq> SR_ERR_OK then Val (sr_new_values vc, None)
       else bindO (issue vom (interface_dump_one intf_name) s) (\<lambda>(_, details).
         (case details of
            [] \<Rightarrow> Undef EndIterator
          | d # _ \<Rightarrow> bindO (put_vals (oc_state_values root d) (new_array vc)) (\<lambda>a. Val (give a)))))))"


section \<open>The class and the branches agree with those of the IETF file\<close>

text \<open>
  Two classes of one name in one library: the linker may keep either definition of each
  member function. Since they agree, it does not matter which.
\<close>

lemma oc_builder_same:
  "oc_new_builder = new_builder" "oc_build = build" "oc_set_name = set_name" "oc_set_type = set_type"
  "oc_set_state = set_state" "oc_to_string = builder_to_string" "oc_name = builder_name"
  by (simp_all add: fun_eq_iff oc_new_builder_def new_builder_def oc_build_def build_def oc_set_name_def set_name_def
      oc_set_type_def set_type_def oc_set_state_def set_state_def oc_to_string_def builder_to_string_def oc_name_def
      builder_name_def)

lemma oc_branches_same [simp]:
  "oc_start = intf_start" "oc_created = intf_created" "oc_modified = intf_modified" "oc_deleted = intf_deleted"
  "oc_finish = intf_finish"
  unfolding fun_eq_iff oc_start_def intf_start_def oc_created_def intf_created_def oc_modified_def
    intf_modified_def oc_deleted_def intf_deleted_def oc_finish_def intf_finish_def oc_builder_same
  by simp_all

lemma oc_run_same [simp]: "oc_run api vom = intf_run (oc_config_step api vom) vom"
  unfolding fun_eq_iff oc_run_def intf_run_def oc_branches_same by simp


section \<open>The callbacks meet the shared contracts\<close>

text \<open>What the loop body requires of a changed node before it looks at the change.\<close>

definition names_interface :: "sr_api \<Rightarrow> sr_val \<Rightarrow> bool" where
  "names_interface api v \<longleftrightarrow>
     (case sr_xpath_key_value api (xpath v) ''interface'' ''name'' of None \<Rightarrow> False | Some n \<Rightarrow> n \<noteq> [])"

interpretation oc_body: intf_body "oc_config_step api vom" api vom "names_interface api" for api vom
proof unfold_locales
  fix c :: change and l :: "('a, 'b) intf_locals" and f
  assume "oc_config_step api vom c l = Val f"
  then obtain ne where ne: "new_val c = Some ne"
    and f: "f = Leave SR_ERR_INVAL_ARG l \<or> f = Leave SR_ERR_UNSUPPORTED l \<or>
      oper c = SR_OP_CREATED \<and> intf_created api ne l = Val f \<or>
      oper c = SR_OP_MODIFIED \<and> intf_modified api vom ne l = Val f \<or>
      oper c = SR_OP_DELETED \<and> (\<exists>ol. intf_deleted api ol l = Val f)"
    by (cases "oper c") (auto simp: oc_config_step_def outcome_simps split: if_splits)
  show "creates_name api c" if "create (flow_state f) \<noteq> create l"
    using f that ne by (auto simp: creates_name_def elim: intf_created_Val intf_deleted_Val dest: intf_modified_Val)
  show "db (flow_state f) = db l" if "oper c \<noteq> SR_OP_MODIFIED"
    using f that by (auto elim: intf_created_Val intf_deleted_Val)
next
  fix c :: change and l l' :: "('a, 'b) intf_locals" and rc
  assume "oc_config_step api vom c l = Val (Leave rc l')"
  then show "rc \<noteq> SR_ERR_OK"
    by (cases "oper c") (auto simp: oc_config_step_def outcome_simps split: if_splits
        elim: intf_created_Val intf_deleted_Val dest: intf_modified_Val)
qed (auto simp: oc_config_step_def names_interface_def split: option.splits)

interpretation oc_cb: verify_only "oc_interfaces_config_cb api vom mem (Some ds) (Some xp)" for api vom mem ds xp
  by unfold_locales (simp add: oc_interfaces_config_cb_def)

lemma oc_interfaces_config_cb_verify:
  "sr_get_changes_iter ds xp = (SR_ERR_OK, cs) \<Longrightarrow>
    oc_interfaces_config_cb api vom mem (Some ds) (Some xp) SR_EV_VERIFY s =
    intf_run (oc_config_step api vom) vom mem ds SR_EV_VERIFY cs s"
  by (simp add: oc_interfaces_config_cb_def)

lemma length_oc_state_values [simp]: "length (oc_state_values root d) = 7"
  by (simp add: oc_state_values_def)

interpretation oc_state: provider
  "\<lambda>xp. oc_interfaces_state_cb api vom sr_new_values (Some xp) (Some ()) (Some ()) s"
  "\<lambda>xp. sr_xpath_key_value api xp ''interface'' ''name'' = Some n \<and> n \<noteq> [] \<and>
     length (oc_state_path n) < XPATH_SIZE \<and> sr_new_values 7 = SR_ERR_OK \<and>
     issue vom (interface_dump_one n) s = Val (rc, d # ds)"
  "\<lambda>xp. 7"
  "\<lambda>xp. oc_state_values (oc_state_path n) d"
  for api vom sr_new_values s n rc d ds
  by unfold_locales (simp_all add: oc_interfaces_state_cb_def snprintf_str_fits Let_def)


section \<open>Properties\<close>

text \<open>
  The OpenConfig callback on created leaves does what the IETF callback does: one
  interface, built from the last created name, is written; an unsupported type or an
  empty name is refused with \<open>SR_ERR_INVAL_ARG\<close>.
\<close>

lemma oc_create_interface:
  assumes "sr_get_changes_iter ds xp = (SR_ERR_OK, cs)"
    and "\<forall>c \<in> set cs. creates api (names_interface api) c" "names_of api (new_vals cs) \<noteq> []"
  shows "oc_interfaces_config_cb api vom mem (Some ds) (Some xp) SR_EV_VERIFY s =
    (let vs = new_vals cs; vals = vals_after_loop ds cs in
     if last (names_of api vs) = [] \<or> ethernet \<notin> set (types_of api vs)
     then bindO (free_ptr vals) (\<lambda>_. Val (SR_ERR_INVAL_ARG, s))
     else bindO (load (last_or (mem_state mem) (map Some (states_of api vs)))) (\<lambda>st.
       case make_interface vom (last (names_of api vs)) ''ETHERNET'' st s of
         (i, s') \<Rightarrow> write_result vom vals i s'))"
  by (simp only: oc_interfaces_config_cb_verify [OF assms(1)] oc_body.run_created [OF assms(2,3)])

definition oc_create_eth0 :: "change list" where
  "oc_create_eth0 =
     [sample_created (eth0_path ''config/name'') (SR_STRING_T ''eth0''),
      sample_created (eth0_path ''config/type'') (SR_IDENTITYREF_T ''iana-if-type:ethernetCsmacd''),
      sample_created (eth0_path ''config/enabled'') (SR_BOOL_T True)]"

text \<open>
  (C38) A deleted node makes the OpenConfig callback dereference a null pointer, whatever
  leaves the commit has created before it and whatever changes follow: sysrepo delivers no
  new value for a deletion, and the loop body reads the xpath of the new value before it
  looks at the operation. The branch for deletions is never executed.
\<close>

theorem oc_delete_null_dereference:
  assumes "sr_get_changes_iter ds xp = (SR_ERR_OK, cs @ c # cs')"
    and "\<forall>c \<in> set cs. creates api (names_interface api) c" "new_val c = None"
  shows "oc_interfaces_config_cb api vom mem (Some ds) (Some xp) SR_EV_VERIFY s = Undef NullPointer"
  using assms(3)
  by (simp add: oc_interfaces_config_cb_verify [OF assms(1)] intf_run_def walk_changes_append
      oc_body.walk_created [OF assms(2)] oc_config_step_def)

theorem oc_delete_null_dereference_witness:
  "oc_interfaces_config_cb sample_api sample_vom zeroed
      (Some (sample_session (oc_create_eth0 @ [sample_deleted (eth0_path ''config/mtu'') (SR_UINT16_T 9000)]))) (Some [])
      SR_EV_VERIFY sample_empty = Undef NullPointer"
proof -
  let ?c = "sample_deleted (eth0_path ''config/mtu'') (SR_UINT16_T 9000)"
  have "\<forall>c \<in> set oc_create_eth0. creates sample_api (names_interface sample_api) c"
    by code_simp
  moreover have "new_val ?c = None"
    by (simp add: sample_deleted_def)
  ultimately show ?thesis
    by (rule oc_delete_null_dereference [OF sample_session_iter])
qed

text \<open>
  A failing \<open>sr_get_changes_iter\<close> is reported as success: the OpenConfig callback
  returns \<open>SR_ERR_OK\<close> without having looked at a change, while null arguments are refused.
\<close>

lemma oc_config_iterator_failure:
  assumes "fst (sr_get_changes_iter ds xp) \<noteq> SR_ERR_OK"
  shows "oc_interfaces_config_cb api vom mem (Some ds) (Some xp) event s = Val (SR_ERR_OK, s) \<and>
    oc_interfaces_config_cb api vom mem None xp' event s = Val (SR_ERR_INVAL_ARG, s) \<and>
    oc_interfaces_config_cb api vom mem ds' None event s = Val (SR_ERR_INVAL_ARG, s)"
  using assms by (auto simp: oc_interfaces_config_cb_def split: prod.split)

text \<open>
  (C24) The OpenConfig state provider, from the request to the answer: a name that does not
  fit the filter buffer of VPP's request overflows it; otherwise VPP is asked for the
  interfaces that match the name, an empty dump makes the callback dereference the end
  iterator, and the first record of any other dump is answered in the seven cells allocated.
  The seven leaves are placed below the state node of the requested interface, while all of
  their contents, the name included, are those of the record, whatever its name: the name,
  the constant type, \<open>link_mtu\<close> as the mtu, the flags as \<open>enabled\<close> and as the
  administrative status, \<open>sw_if_index\<close> as the index, and the duplex mode as the operational
  status. Further records are dropped.
\<close>

theorem oc_state_answer:
  assumes "sr_xpath_key_value api xp ''interface'' ''name'' = Some n" "n \<noteq> []"
    and "\<forall>c \<in> set n. of_char c \<noteq> (0 :: nat)" "length (oc_state_path n) < XPATH_SIZE" "sr_new_values 7 = SR_ERR_OK"
  shows "oc_interfaces_state_cb api vom sr_new_values (Some xp) (Some ()) (Some ()) s =
    (if name_filter_size vom \<le> length n then Undef BufferOverflow
     else (case dump vom \<lparr>name_filter_valid = 1, name_filter = n\<rparr> s of
       [] \<Rightarrow> Undef EndIterator
     | d # _ \<Rightarrow> Val (SR_ERR_OK, Some (Some (map Some
         [\<lparr>xpath = oc_state_path n @ ''/name'', data = SR_STRING_T (interface_name d)\<rparr>,
          \<lparr>xpath = oc_state_path n @ ''/type'', data = SR_IDENTITYREF_T ''ianaift:ethernetCsmacd''\<rparr>,
          \<lparr>xpath = oc_state_path n @ ''/mtu'', data = SR_UINT16_T (link_mtu d)\<rparr>,
          \<lparr>xpath = oc_state_path n @ ''/enabled'', data = SR_BOOL_T (flags d \<noteq> 0)\<rparr>,
          \<lparr>xpath = oc_state_path n @ ''/ifindex'', data = SR_UINT32_T (sw_if_index d)\<rparr>,
          \<lparr>xpath = oc_state_path n @ ''/admin-status'', data = SR_ENUM_T (if flags d = 0 then ''DOWN'' else ''UP'')\<rparr>,
          \<lparr>xpath = oc_state_path n @ ''/oper-status'',
           data = SR_ENUM_T (if link_duplex d = 0 then ''DOWN'' else ''UP'')\<rparr>]), 7))))"
proof (cases "name_filter_size vom \<le> length n")
  case True
  with assms show ?thesis
    by (simp add: oc_interfaces_state_cb_def issue_one_interface Let_def)
next
  case False
  let ?req = "\<lparr>name_filter_valid = 1, name_filter = n\<rparr>"
  show ?thesis
  proof (cases "dump vom ?req s")
    case Nil
    with False assms show ?thesis
      by (simp add: oc_interfaces_state_cb_def issue_one_interface Let_def)
  next
    case (Cons d ds)
    from Cons False assms show ?thesis
      by (simp add: oc_interfaces_state_cb_def issue_one_interface snprintf_str_fits put_vals_exact give_def Let_def)
        (simp add: oc_state_values_def)
  qed
qed

definition eth0_down :: sample_db where
  "eth0_down = \<lparr>itfs = [(''eth0'', ''ETHERNET'', False)], objs = []\<rparr>"

text \<open>
  An interface that is down, with the mtu 9000 and the index 1; and the empty dump.
\<close>

theorem oc_state_answer_witness:
  "oc_interfaces_state_cb sample_api sample_vom (\<lambda>n. SR_ERR_OK) (Some (eth0_path ''state'')) (Some ()) (Some ()) eth0_down =
     Val (SR_ERR_OK, Some (Some (map Some
       [\<lparr>xpath = oc_state_path ''eth0'' @ ''/name'', data = SR_STRING_T ''eth0''\<rparr>,
        \<lparr>xpath = oc_state_path ''eth0'' @ ''/type'', data = SR_IDENTITYREF_T ''ianaift:ethernetCsmacd''\<rparr>,
        \<lparr>xpath = oc_state_path ''eth0'' @ ''/mtu'', data = SR_UINT16_T 9000\<rparr>,
        \<lparr>xpath = oc_state_path ''eth0'' @ ''/enabled'', data = SR_BOOL_T False\<rparr>,
        \<lparr>xpath = oc_state_path ''eth0'' @ ''/ifindex'', data = SR_UINT32_T 1\<rparr>,
        \<lparr>xpath = oc_state_path ''eth0'' @ ''/admin-status'', data = SR_ENUM_T ''DOWN''\<rparr>,
        \<lparr>xpath = oc_state_path ''eth0'' @ ''/oper-status'', data = SR_ENUM_T ''UP''\<rparr>]), 7)) \<and>
   oc_interfaces_state_cb sample_api sample_vom (\<lambda>n. SR_ERR_OK) (Some (eth0_path ''state'')) (Some ()) (Some ()) sample_empty =
     Undef EndIterator"
proof -
  let ?req = "\<lparr>name_filter_valid = 1, name_filter = ''eth0''\<rparr>"
  have key: "sr_xpath_key_value sample_api (eth0_path ''state'') ''interface'' ''name'' = Some ''eth0''"
    by code_simp
  have chars: "\<forall>c \<in> set ''eth0''. of_char c \<noteq> (0 :: nat)"
    by simp
  have fits: "length (oc_state_path ''eth0'') < XPATH_SIZE"
    by (simp add: oc_state_path_def XPATH_SIZE_def)
  have dumps: "dump sample_vom ?req eth0_down = [sample_details 1 (''eth0'', ''ETHERNET'', False)]"
    "dump sample_vom ?req sample_empty = []" "name_filter_size sample_vom = 64"
    by (simp_all add: sample_vom_def eth0_down_def sample_empty_def)
  show ?thesis
    using oc_state_answer [OF key _ chars fits, of "\<lambda>n. SR_ERR_OK" sample_vom eth0_down]
      oc_state_answer [OF key _ chars fits, of "\<lambda>n. SR_ERR_OK" sample_vom sample_empty]
    by (simp add: dumps sample_details_def)
qed

end
