(* ===== verification/Ietf_Nat.thy ===== *)
theory Ietf_Nat
  imports Sys_Util Sr_Values
begin

text \<open>
  \<open>src/plugins/ietf/ietf_nat.cpp\<close>: the builder of static mappings, the callback for the
  mapping table with the plugin's own table of mappings, and the provider of the
  capabilities.
\<close>

section \<open>nat\_instance\_config\_cb\<close>

definition nat_instance_config_cb :: "session option \<Rightarrow> string option \<Rightarrow> sr_event \<Rightarrow> 's \<Rightarrow> (sr_error \<times> 's) outcome" where
  "nat_instance_config_cb ds xp event s = Val (SR_ERR_OK, s)"


section \<open>The mapping table\<close>

type_synonym 'a nat_pair_t = "'a \<times> 'a"
type_synonym 'a nat_table_t = "32 word \<rightharpoonup> 'a nat_pair_t"


section \<open>Class nat\_static\_builder\<close>

record 'a nat_static_builder =
  m_nat_type :: string
  m_internal_src :: "'a prefix"
  m_external_src :: "'a prefix"
  m_internal_dest :: "'a prefix"
  m_external_dest :: "'a prefix"
  m_inside :: 'a
  m_outside :: 'a

text \<open>
  The memory the callback finds in its uninitialised variables: the flags, the index,
  the prefix lengths of the four default-constructed prefixes, and the iterator where
  \<open>sr_get_changes_iter\<close> failed.
\<close>

record nat_uninit =
  nat_mem_create :: "bool option"
  nat_mem_remove :: "bool option"
  nat_mem_xindex :: "32 word option"
  nat_mem_internal_src :: "16 word option"
  nat_mem_external_src :: "16 word option"
  nat_mem_internal_dest :: "16 word option"
  nat_mem_external_dest :: "16 word option"
  nat_mem_it :: lifetime

definition new_nat_static_builder :: "'a net_api \<Rightarrow> nat_uninit \<Rightarrow> 'a nat_static_builder" where
  "new_nat_static_builder net mem =
     \<lparr>m_nat_type = [],
      m_internal_src = prefix_default net (nat_mem_internal_src mem),
      m_external_src = prefix_default net (nat_mem_external_src mem),
      m_internal_dest = prefix_default net (nat_mem_internal_dest mem),
      m_external_dest = prefix_default net (nat_mem_external_dest mem),
      m_inside = addr_default net, m_outside = addr_default net\<rparr>"

definition nat_set_type :: "string \<Rightarrow> 'a nat_static_builder \<Rightarrow> 'a nat_static_builder" where
  "nat_set_type t b = b\<lparr>m_nat_type := t\<rparr>"

definition set_internal_src :: "'a net_api \<Rightarrow> string \<Rightarrow> 'a nat_static_builder \<Rightarrow> 'a nat_static_builder outcome" where
  "set_internal_src net p b = bindO (make_prefix net p) (\<lambda>q. Val (b\<lparr>m_internal_src := q\<rparr>))"

definition set_external_src :: "'a net_api \<Rightarrow> string \<Rightarrow> 'a nat_static_builder \<Rightarrow> 'a nat_static_builder outcome" where
  "set_external_src net p b = bindO (make_prefix net p) (\<lambda>q. Val (b\<lparr>m_external_src := q\<rparr>))"

definition set_internal_dest :: "'a net_api \<Rightarrow> string \<Rightarrow> 'a nat_static_builder \<Rightarrow> 'a nat_static_builder outcome" where
  "set_internal_dest net p b = bindO (make_prefix net p) (\<lambda>q. Val (b\<lparr>m_internal_dest := q\<rparr>))"

definition set_external_dest :: "'a net_api \<Rightarrow> string \<Rightarrow> 'a nat_static_builder \<Rightarrow> 'a nat_static_builder outcome" where
  "set_external_dest net p b = bindO (make_prefix net p) (\<lambda>q. Val (b\<lparr>m_external_dest := q\<rparr>))"

text \<open>\<open>! p.empty() && ! q.empty()\<close>, evaluated from left to right\<close>

definition both_present :: "'a net_api \<Rightarrow> 'a prefix \<Rightarrow> 'a prefix \<Rightarrow> bool outcome" where
  "both_present net p q =
     bindO (prefix_empty net p) (\<lambda>e. if e then Val False else bindO (prefix_empty net q) (\<lambda>e. Val (\<not> e)))"

text \<open>The result is the pair of the new \<open>VOM::nat_static\<close> (\<open>None\<close>: null) and the builder.\<close>

definition nat_build ::
    "'a net_api \<Rightarrow> 'a nat_static_builder \<Rightarrow> ('a nat_pair_t option \<times> 'a nat_static_builder) outcome" where
  "nat_build net b =
     (if m_nat_type b \<noteq> ''static'' then Val (None, b)
      else bindO (both_present net (m_internal_src b) (m_external_src b)) (\<lambda>src.
        if src
        then (let b' = b\<lparr>m_inside := prefix_address (m_internal_src b),
                         m_outside := prefix_address (m_external_src b)\<rparr>
              in Val (Some (m_inside b', m_outside b'), b'))
        else bindO (both_present net (m_internal_dest b) (m_external_dest b)) (\<lambda>dest.
          if dest
          then (let b' = b\<lparr>m_inside := prefix_address (m_internal_dest b),
                           m_outside := prefix_address (m_external_dest b)\<rparr>
                in Val (Some (m_inside b', m_outside b'), b'))
          else Val (None, b))))"

definition nat_inside :: "'a nat_static_builder \<Rightarrow> 'a" where
  "nat_inside b = m_inside b"

definition nat_outside :: "'a nat_static_builder \<Rightarrow> 'a" where
  "nat_outside b = m_outside b"

declare nat_inside_def [simp] nat_outside_def [simp]


section \<open>nat\_mapping\_table\_config\_cb\<close>

record 'a nat_locals =
  nat_builder :: "'a nat_static_builder"
  xindex :: "32 word option"
  nat_create :: "bool option"
  nat_remove :: "bool option"

definition nat_start :: "'a net_api \<Rightarrow> nat_uninit \<Rightarrow> 'a nat_locals" where
  "nat_start net mem =
     \<lparr>nat_builder = new_nat_static_builder net mem, xindex = nat_mem_xindex mem,
      nat_create = nat_mem_create mem, nat_remove = nat_mem_remove mem\<rparr>"

text \<open>\<open>case SR_OP_CREATED\<close>; \<open>set\<close> is one of the setters that take a prefix.\<close>

definition nat_set_prefix ::
    "(string \<Rightarrow> 'a nat_static_builder \<Rightarrow> 'a nat_static_builder outcome) \<Rightarrow> sr_val \<Rightarrow> 'a nat_locals \<Rightarrow>
     'a nat_locals flow outcome" where
  "nat_set_prefix set_prefix ne l =
     bindO (string_val ne) (\<lambda>p. bindO (set_prefix p (nat_builder l)) (\<lambda>b. Val (Next (l\<lparr>nat_builder := b\<rparr>))))"

definition nat_created :: "sr_api \<Rightarrow> 'a net_api \<Rightarrow> sr_val \<Rightarrow> 'a nat_locals \<Rightarrow> 'a nat_locals flow outcome" where
  "nat_created api net ne l =
     (if sr_xpath_node_name_eq api (xpath ne) ''index''
      then bindO (uint32_val ne) (\<lambda>i. Val (Next (l\<lparr>xindex := Some i, nat_create := Some True\<rparr>)))
      else if sr_xpath_node_name_eq api (xpath ne) ''type''
      then bindO (string_val ne) (\<lambda>t. Val (Next (l\<lparr>nat_builder := nat_set_type t (nat_builder l)\<rparr>)))
      else if sr_xpath_node_name_eq api (xpath ne) ''internal-src-address''
      then nat_set_prefix (set_internal_src net) ne l
      else if sr_xpath_node_name_eq api (xpath ne) ''external-src-address''
      then nat_set_prefix (set_external_src net) ne l
      else if sr_xpath_node_name_eq api (xpath ne) ''internal-dst-address''
      then nat_set_prefix (set_internal_dest net) ne l
      else if sr_xpath_node_name_eq api (xpath ne) ''external-dst-address''
      then nat_set_prefix (set_external_dest net) ne l
      else Val (Next l))"

definition nat_step :: "sr_api \<Rightarrow> 'a net_api \<Rightarrow> change \<Rightarrow> 'a nat_locals \<Rightarrow> 'a nat_locals flow outcome" where
  "nat_step api net c l =
     (case oper c of
        SR_OP_CREATED \<Rightarrow> bindO (deref (new_val c)) (\<lambda>ne. nat_created api net ne l)
      | SR_OP_DELETED \<Rightarrow> bindO (deref (old_val c)) (\<lambda>ol.
          if sr_xpath_node_name_eq api (xpath ol) ''index''
          then bindO (uint32_val ol) (\<lambda>i. Val (Next (l\<lparr>xindex := Some i, nat_remove := Some True\<rparr>)))
          else Val (Next l))
      | _ \<Rightarrow> Val (Leave SR_ERR_UNSUPPORTED l))"

text \<open>The macro \<open>KEY(xindex)\<close>\<close>

definition nat_key :: "32 word \<Rightarrow> string" where
  "nat_key i = to_dec i"

text \<open>The label \<open>error\<close>: both value pointers and the iterator are freed.\<close>

definition nat_error :: "lifetime \<Rightarrow> lifetime \<Rightarrow> 'r \<Rightarrow> 'r outcome" where
  "nat_error vals it r =
     bindO (free_ptr vals) (\<lambda>_. bindO (free_ptr vals) (\<lambda>_. bindO (free_ptr it) (\<lambda>_. Val r)))"

text \<open>
  The code behind the loop, which begins by freeing the iterator. \<open>s\<close> is the state of
  VOM, \<open>tbl\<close> the static variable \<open>static_mapping_table\<close>.
\<close>

definition nat_finish ::
    "'a net_api \<Rightarrow> ('s, 'i, 'p, 'a) vom_api \<Rightarrow> lifetime \<Rightarrow> 'a nat_locals \<Rightarrow> 's \<times> 'a nat_table_t \<Rightarrow>
     (sr_error \<times> 's \<times> 'a nat_table_t) outcome" where
  "nat_finish net vom vals l st =
     bindO (free_ptr Live) (\<lambda>it.
     bindO (load (nat_create l)) (\<lambda>c.
     if c
     then bindO (nat_build net (nat_builder l)) (\<lambda>(ns, b).
       (case ns of
          None \<Rightarrow> nat_error vals it (SR_ERR_INVAL_ARG, st)
        | Some (i, out) \<Rightarrow>
            bindO (load (xindex l)) (\<lambda>x.
            (case om_write_nat vom (nat_key x) i out (fst st) of
               (RC_OK, s) \<Rightarrow> Val (SR_ERR_OK, s, (snd st)(x \<mapsto> (nat_inside b, nat_outside b)))
             | (RC_FAILED _, s) \<Rightarrow> nat_error vals it (SR_ERR_OPERATION_FAILED, s, snd st)
             | (RC_THROWN e, s) \<Rightarrow> Throw e))))
     else bindO (load (nat_remove l)) (\<lambda>r.
       if r
       then bindO (load (xindex l)) (\<lambda>x.
         Val (SR_ERR_OK, om_remove vom (nat_key x) (fst st), (snd st)(x := None)))
       else Val (SR_ERR_OK, st))))"

definition nat_mapping_table_config_cb ::
    "sr_api \<Rightarrow> 'a net_api \<Rightarrow> ('s, 'i, 'p, 'a) vom_api \<Rightarrow> nat_uninit \<Rightarrow> session option \<Rightarrow> string option \<Rightarrow>
     sr_event \<Rightarrow> 's \<times> 'a nat_table_t \<Rightarrow> (sr_error \<times> 's \<times> 'a nat_table_t) outcome" where
  "nat_mapping_table_config_cb api net vom mem ds xp event st =
     ARG_CHECK2 (SR_ERR_INVAL_ARG, st) ds xp (\<lambda>ds xp.
     if event \<noteq> SR_EV_VERIFY then Val (SR_ERR_OK, st)
     else case sr_get_changes_iter ds xp of (rc, cs) \<Rightarrow>
       if rc \<noteq> SR_ERR_OK then nat_error Null (nat_mem_it mem) (rc, st)
       else bindO (foreach_change event (nat_step api net) cs (nat_start net mem)) (\<lambda>f.
         case f of
           Leave rc l \<Rightarrow> nat_error Live Live (rc, st)
         | Next l \<Rightarrow> nat_finish net vom (vals_after_loop ds cs) l st))"


section \<open>nat\_cap\_state\_cb\<close>

definition cap_values :: "string \<Rightarrow> sr_val list" where
  "cap_values xp = [\<lparr>xpath = xp @ ''/static-mapping'', data = SR_BOOL_T True\<rparr>]"

definition nat_cap_state_cb :: "(nat \<Rightarrow> sr_error) \<Rightarrow> string \<Rightarrow> answer outcome" where
  "nat_cap_state_cb sr_new_values xp =
     (let vc = 1 in
      if sr_new_values vc \<noteq> SR_ERR_OK then Val (give_nothing SR_ERR_NOMEM)
      else bindO (put_vals (cap_values xp) (new_array vc)) (\<lambda>a. Val (give a)))"


section \<open>What the changes of a commit describe\<close>

datatype nat_leaf =
    Index
  | Nat_Type
  | Internal_Src
  | External_Src
  | Internal_Dest
  | External_Dest
  | Other_Leaf

definition leaf_of :: "sr_api \<Rightarrow> sr_val \<Rightarrow> nat_leaf" where
  "leaf_of api v =
     (if sr_xpath_node_name_eq api (xpath v) ''index'' then Index
      else if sr_xpath_node_name_eq api (xpath v) ''type'' then Nat_Type
      else if sr_xpath_node_name_eq api (xpath v) ''internal-src-address'' then Internal_Src
      else if sr_xpath_node_name_eq api (xpath v) ''external-src-address'' then External_Src
      else if sr_xpath_node_name_eq api (xpath v) ''internal-dst-address'' then Internal_Dest
      else if sr_xpath_node_name_eq api (xpath v) ''external-dst-address'' then External_Dest
      else Other_Leaf)"

definition val_option :: "'a outcome \<Rightarrow> 'a option" where
  "val_option m = (case m of Val x \<Rightarrow> Some x | _ \<Rightarrow> None)"

text \<open>The indices, types and prefixes that a list of values carries, in order.\<close>

definition indices_of :: "sr_api \<Rightarrow> sr_val list \<Rightarrow> 32 word list" where
  "indices_of api = List.map_filter (\<lambda>v. if leaf_of api v = Index then val_option (uint32_val v) else None)"

definition nat_types_of :: "sr_api \<Rightarrow> sr_val list \<Rightarrow> string list" where
  "nat_types_of api = List.map_filter (\<lambda>v. if leaf_of api v = Nat_Type then val_option (string_val v) else None)"

definition prefixes_of :: "sr_api \<Rightarrow> 'a net_api \<Rightarrow> nat_leaf \<Rightarrow> sr_val list \<Rightarrow> 'a prefix list" where
  "prefixes_of api net k = List.map_filter
     (\<lambda>v. if leaf_of api v = k then val_option (bindO (string_val v) (make_prefix net)) else None)"

text \<open>A change that creates a leaf whose content can be read.\<close>

definition readable_leaf :: "sr_api \<Rightarrow> 'a net_api \<Rightarrow> sr_val \<Rightarrow> bool" where
  "readable_leaf api net v =
     (case leaf_of api v of
        Index \<Rightarrow> is_val (uint32_val v)
      | Nat_Type \<Rightarrow> is_val (string_val v)
      | Other_Leaf \<Rightarrow> True
      | _ \<Rightarrow> is_val (bindO (string_val v) (make_prefix net)))"

definition creates_leaf :: "sr_api \<Rightarrow> 'a net_api \<Rightarrow> change \<Rightarrow> bool" where
  "creates_leaf api net c \<longleftrightarrow>
     oper c = SR_OP_CREATED \<and> (case new_val c of None \<Rightarrow> False | Some v \<Rightarrow> readable_leaf api net v)"

definition deletes_leaf :: "sr_api \<Rightarrow> change \<Rightarrow> bool" where
  "deletes_leaf api c \<longleftrightarrow>
     oper c = SR_OP_DELETED \<and>
     (case old_val c of None \<Rightarrow> False | Some v \<Rightarrow> leaf_of api v = Index \<longrightarrow> is_val (uint32_val v))"

definition nat_collect :: "sr_api \<Rightarrow> 'a net_api \<Rightarrow> sr_val list \<Rightarrow> 'a nat_locals \<Rightarrow> 'a nat_locals" where
  "nat_collect api net vs l =
     (let b = nat_builder l in
      l\<lparr>nat_builder := b\<lparr>
          m_nat_type := last_or (m_nat_type b) (nat_types_of api vs),
          m_internal_src := last_or (m_internal_src b) (prefixes_of api net Internal_Src vs),
          m_external_src := last_or (m_external_src b) (prefixes_of api net External_Src vs),
          m_internal_dest := last_or (m_internal_dest b) (prefixes_of api net Internal_Dest vs),
          m_external_dest := last_or (m_external_dest b) (prefixes_of api net External_Dest vs)\<rparr>,
        xindex := last_or (xindex l) (map Some (indices_of api vs)),
        nat_create := (if indices_of api vs = [] then nat_create l else Some True)\<rparr>)"


section \<open>The loop\<close>

lemmas nat_leaf_defs = indices_of_def nat_types_of_def prefixes_of_def

lemma val_option_Val [simp]: "val_option (Val x) = Some x"
  by (simp add: val_option_def)

lemma nat_collect_Nil [simp]: "nat_collect api net [] l = l"
  by (simp add: nat_collect_def nat_leaf_defs)

lemma nat_collect_Cons: "nat_collect api net vs (nat_collect api net [v] l) = nat_collect api net (v # vs) l"
  by (simp add: nat_collect_def nat_leaf_defs Let_def split: option.split)

lemma nat_created_leaf:
  "nat_created api net v l =
     (case leaf_of api v of
        Index \<Rightarrow> bindO (uint32_val v) (\<lambda>i. Val (Next (l\<lparr>xindex := Some i, nat_create := Some True\<rparr>)))
      | Nat_Type \<Rightarrow> bindO (string_val v) (\<lambda>t. Val (Next (l\<lparr>nat_builder := nat_set_type t (nat_builder l)\<rparr>)))
      | Internal_Src \<Rightarrow> nat_set_prefix (set_internal_src net) v l
      | External_Src \<Rightarrow> nat_set_prefix (set_external_src net) v l
      | Internal_Dest \<Rightarrow> nat_set_prefix (set_internal_dest net) v l
      | External_Dest \<Rightarrow> nat_set_prefix (set_external_dest net) v l
      | Other_Leaf \<Rightarrow> Val (Next l))"
  by (simp add: nat_created_def leaf_of_def)

lemmas setter_defs = nat_set_type_def set_internal_src_def set_external_src_def set_internal_dest_def
  set_external_dest_def nat_set_prefix_def

lemma nat_created_collect:
  assumes "readable_leaf api net v"
  shows "nat_created api net v l = Val (Next (nat_collect api net [v] l))"
  using assms
  by (cases "leaf_of api v")
    (auto simp: nat_created_leaf readable_leaf_def nat_collect_def nat_leaf_defs setter_defs is_val_iff
      outcome_simps Let_def simp del: string_val.simps uint32_val.simps)

lemma nat_walk_created:
  "\<forall>c \<in> set cs. creates_leaf api net c \<Longrightarrow>
    walk_changes (nat_step api net) cs l = Val (Next (nat_collect api net (new_vals cs) l))"
proof (induction cs arbitrary: l)
  case (Cons c cs)
  then obtain v where "oper c = SR_OP_CREATED" "new_val c = Some v" "readable_leaf api net v"
    by (auto simp: creates_leaf_def split: option.splits)
  with Cons show ?case
    by (simp add: nat_step_def nat_created_collect nat_collect_Cons)
qed simp

lemma nat_walk_deleted:
  "\<forall>c \<in> set cs. deletes_leaf api c \<Longrightarrow>
    walk_changes (nat_step api net) cs l =
      Val (Next (l\<lparr>xindex := last_or (xindex l) (map Some (indices_of api (old_vals cs))),
                   nat_remove := (if indices_of api (old_vals cs) = [] then nat_remove l else Some True)\<rparr>))"
proof (induction cs arbitrary: l)
  case (Cons c cs)
  then obtain v where v: "oper c = SR_OP_DELETED" "old_val c = Some v"
    "leaf_of api v = Index \<longrightarrow> is_val (uint32_val v)"
    by (auto simp: deletes_leaf_def split: option.splits)
  have idx: "sr_xpath_node_name_eq api (xpath v) ''index'' \<longleftrightarrow> leaf_of api v = Index"
    by (simp add: leaf_of_def)
  show ?case
  proof (cases "leaf_of api v = Index")
    case True
    with v obtain i where "uint32_val v = Val i"
      by (auto simp: is_val_iff simp del: uint32_val.simps)
    with Cons v idx True show ?thesis
      by (simp add: nat_step_def indices_of_def del: uint32_val.simps)
  next
    case False
    with Cons v idx show ?thesis
      by (simp add: nat_step_def indices_of_def)
  qed
qed (simp add: indices_of_def)


section \<open>The builder\<close>

lemma make_prefix_initialised: "make_prefix net s = Val p \<Longrightarrow> \<exists>n. m_prefix_len p = Some n"
  by (auto simp: make_prefix_def prefix_copy_def outcome_simps)

lemma prefixes_of_initialised: "p \<in> set (prefixes_of api net k vs) \<Longrightarrow> \<exists>n. m_prefix_len p = Some n"
  by (auto simp: prefixes_of_def List.map_filter_def val_option_def outcome_simps make_prefix_initialised
      split: if_splits outcome.splits simp del: string_val.simps)

lemma both_present_eq:
  "both_present net p q =
     bindO (load (m_prefix_len p)) (\<lambda>_. bindO (load (m_prefix_len q)) (\<lambda>_. Val True))"
  by (simp add: both_present_def prefix_empty_def prefix_to_string_def load_def split: option.split)

lemma nat_build_static:
  "m_nat_type b = ''static'' \<Longrightarrow>
    nat_build net b =
      bindO (load (m_prefix_len (m_internal_src b))) (\<lambda>_.
      bindO (load (m_prefix_len (m_external_src b))) (\<lambda>_.
        Val (Some (m_address (m_internal_src b), m_address (m_external_src b)),
             b\<lparr>m_inside := m_address (m_internal_src b), m_outside := m_address (m_external_src b)\<rparr>)))"
  by (simp add: nat_build_def both_present_eq bindO_assoc prefix_address_def Let_def)


section \<open>The callback\<close>

lemma nat_cb_verify:
  "sr_get_changes_iter ds xp = (SR_ERR_OK, cs) \<Longrightarrow>
    nat_mapping_table_config_cb api net vom mem (Some ds) (Some xp) SR_EV_VERIFY st =
    bindO (walk_changes (nat_step api net) cs (nat_start net mem)) (\<lambda>f.
      case f of
        Leave rc l \<Rightarrow> nat_error Live Live (rc, st)
      | Next l \<Rightarrow> nat_finish net vom (vals_after_loop ds cs) l st)"
  by (simp add: nat_mapping_table_config_cb_def)

text \<open>Every jump to \<open>error\<close> from behind the loop frees the iterator a second time.\<close>

lemma nat_error_behind_loop [simp]: "nat_error (vals_after_loop ds cs) Freed r = Undef DoubleFree"
  by (simp add: nat_error_def)

lemma nat_error_in_loop [simp]: "nat_error Live Live r = Val r"
  by (simp add: nat_error_def)

text \<open>Writing a mapping to the object model and to the table.\<close>

definition nat_write ::
    "('s, 'i, 'p, 'a) vom_api \<Rightarrow> 32 word \<Rightarrow> 'a \<Rightarrow> 'a \<Rightarrow> 's \<times> 'a nat_table_t \<Rightarrow>
     (sr_error \<times> 's \<times> 'a nat_table_t) outcome" where
  "nat_write vom x i out st =
     (case om_write_nat vom (nat_key x) i out (fst st) of
        (RC_OK, s) \<Rightarrow> Val (SR_ERR_OK, s, (snd st)(x \<mapsto> (i, out)))
      | (RC_FAILED _, s) \<Rightarrow> Undef DoubleFree
      | (RC_THROWN e, s) \<Rightarrow> Throw e)"

lemma nat_finish_static:
  assumes "nat_create l = Some True" "m_nat_type (nat_builder l) = ''static''" "xindex l = Some x"
  shows "nat_finish net vom (vals_after_loop ds cs) l st =
    bindO (load (m_prefix_len (m_internal_src (nat_builder l)))) (\<lambda>_.
    bindO (load (m_prefix_len (m_external_src (nat_builder l)))) (\<lambda>_.
      nat_write vom x (m_address (m_internal_src (nat_builder l))) (m_address (m_external_src (nat_builder l))) st))"
  using assms
  by (simp add: nat_finish_def nat_build_static bindO_assoc nat_write_def split: prod.split rc_t.split)

lemma nat_run_created:
  assumes "sr_get_changes_iter ds xp = (SR_ERR_OK, cs)" "\<forall>c \<in> set cs. creates_leaf api net c"
    and "indices_of api (new_vals cs) \<noteq> []" "last_or [] (nat_types_of api (new_vals cs)) = ''static''"
  shows "nat_mapping_table_config_cb api net vom mem (Some ds) (Some xp) SR_EV_VERIFY st =
    (let isrc = last_or (prefix_default net (nat_mem_internal_src mem)) (prefixes_of api net Internal_Src (new_vals cs));
         esrc = last_or (prefix_default net (nat_mem_external_src mem)) (prefixes_of api net External_Src (new_vals cs))
     in bindO (load (m_prefix_len isrc)) (\<lambda>_. bindO (load (m_prefix_len esrc)) (\<lambda>_.
          nat_write vom (last (indices_of api (new_vals cs))) (m_address isrc) (m_address esrc) st)))"
  using assms(3,4)
  by (simp add: nat_cb_verify [OF assms(1)] nat_walk_created [OF assms(2)] nat_finish_static
      [where x = "last (indices_of api (new_vals cs))"] nat_collect_def nat_start_def
      new_nat_static_builder_def Let_def last_or_map)

interpretation nat_cb: verify_only "nat_mapping_table_config_cb api net vom mem (Some ds) (Some xp)"
  for api net vom mem ds xp
  by unfold_locales (simp add: nat_mapping_table_config_cb_def)

interpretation nat_instance: verify_only "nat_instance_config_cb ds xp" for ds xp
  by unfold_locales (simp add: nat_instance_config_cb_def)

interpretation nat_cap: provider "nat_cap_state_cb sr_new_values" "\<lambda>xp. sr_new_values 1 = SR_ERR_OK" "\<lambda>xp. 1" cap_values
  for sr_new_values
  by unfold_locales (simp_all add: nat_cap_state_cb_def cap_values_def Let_def)


section \<open>Initialised variables\<close>

text \<open>
  The variables have determinate contents as far as the code behind the loop reads them:
  both flags, the four prefix lengths, and the index as soon as a flag is set.
\<close>

definition settled :: "'a nat_locals \<Rightarrow> bool" where
  "settled l \<longleftrightarrow>
     nat_create l \<noteq> None \<and> nat_remove l \<noteq> None \<and>
     (nat_create l = Some True \<or> nat_remove l = Some True \<longrightarrow> xindex l \<noteq> None) \<and>
     m_prefix_len (m_internal_src (nat_builder l)) \<noteq> None \<and>
     m_prefix_len (m_external_src (nat_builder l)) \<noteq> None \<and>
     m_prefix_len (m_internal_dest (nat_builder l)) \<noteq> None \<and>
     m_prefix_len (m_external_dest (nat_builder l)) \<noteq> None"

lemma nat_created_settled:
  "nat_created api net v l = Val f \<Longrightarrow> settled l \<Longrightarrow> settled (flow_state f)"
  by (cases "leaf_of api v")
    (auto simp: nat_created_leaf settled_def setter_defs outcome_simps make_prefix_initialised
      simp del: string_val.simps uint32_val.simps dest!: make_prefix_initialised)

interpretation nat_body: change_body "nat_step api net" "\<lambda>c. True" "\<lambda>l m. settled l \<longrightarrow> settled m" for api net
proof unfold_locales
  fix c and l :: "'a nat_locals" and f
  assume "nat_step api net c l = Val f"
  then show "settled l \<longrightarrow> settled (flow_state f)"
    by (cases "oper c")
      (auto simp: nat_step_def outcome_simps simp del: uint32_val.simps split: if_splits
        elim!: nat_created_settled, auto simp: settled_def)
qed auto


lemma nat_step_no_indeterminate: "nat_step api net c l \<noteq> Undef Indeterminate"
proof
  have reads: "deref p \<noteq> Undef Indeterminate" "string_val v \<noteq> Undef Indeterminate"
    "uint32_val v \<noteq> Undef Indeterminate" for p :: "sr_val option" and v
    by (simp_all add: deref_def split: option.split sr_data.split)
  have created: "nat_created api net v l \<noteq> Undef Indeterminate" for v
    by (cases "leaf_of api v")
      (auto simp: nat_created_leaf setter_defs outcome_simps make_prefix_no_undef reads simp del: string_val.simps uint32_val.simps)
  assume "nat_step api net c l = Undef Indeterminate"
  then show False
    by (cases "oper c")
      (auto simp: nat_step_def created outcome_simps reads simp del: uint32_val.simps split: if_splits)
qed

lemma nat_build_settled:
  assumes "settled l"
  shows "\<exists>ns b. nat_build net (nat_builder l) = Val (ns, b)"
proof (cases "m_nat_type (nat_builder l) = ''static''")
  case True
  with assms show ?thesis
    by (auto simp: nat_build_static [OF True] settled_def)
qed (simp add: nat_build_def)

lemma nat_finish_settled:
  assumes "settled l"
  shows "nat_finish net vom (vals_after_loop ds cs) l st \<noteq> Undef Indeterminate"
proof -
  obtain c r where cr: "nat_create l = Some c" "nat_remove l = Some r"
    using assms by (auto simp: settled_def)
  obtain ns b where b: "nat_build net (nat_builder l) = Val (ns, b)"
    using nat_build_settled [OF assms] by blast
  have "c \<or> r \<Longrightarrow> \<exists>x. xindex l = Some x"
    using assms cr by (auto simp: settled_def)
  with cr b show ?thesis
    by (auto simp: nat_finish_def split: option.splits prod.splits rc_t.splits)
qed


section \<open>Concrete inputs\<close>

definition entry_path :: "string \<Rightarrow> string" where
  "entry_path n = ''/ietf-nat:nat/instances/instance/mapping-table/mapping-entry/'' @ n"

definition nat_zeroed :: nat_uninit where
  "nat_zeroed = \<lparr>nat_mem_create = Some False, nat_mem_remove = Some False, nat_mem_xindex = Some 0,
     nat_mem_internal_src = Some 0, nat_mem_external_src = Some 0, nat_mem_internal_dest = Some 0,
     nat_mem_external_dest = Some 0, nat_mem_it = Null\<rparr>"

definition nat_indeterminate :: nat_uninit where
  "nat_indeterminate = \<lparr>nat_mem_create = None, nat_mem_remove = None, nat_mem_xindex = None,
     nat_mem_internal_src = None, nat_mem_external_src = None, nat_mem_internal_dest = None,
     nat_mem_external_dest = None, nat_mem_it = Uninit\<rparr>"

definition create_entry :: "string \<Rightarrow> string \<Rightarrow> change list" where
  "create_entry t side =
     [sample_created (entry_path ''index'') (SR_UINT32_T 7),
      sample_created (entry_path ''type'') (SR_ENUM_T t),
      sample_created (entry_path (''internal-'' @ side @ ''-address'')) (SR_STRING_T ''10.0.0.2/32''),
      sample_created (entry_path (''external-'' @ side @ ''-address'')) (SR_STRING_T ''192.0.2.9/32'')]"

definition delete_entry :: "change list" where
  "delete_entry = [sample_deleted (entry_path ''index'') (SR_UINT32_T 7)]"


section \<open>Properties\<close>

text \<open>
  (C13) A commit that creates a static mapping with source prefixes: the addresses of the
  last internal and external source prefix are written to the object model under the
  decimal index, and the plugin's table maps the index to the same pair. Only the last
  entry of a commit is written. If the write fails, the iterator is freed twice; if it
  throws, the exception leaves the callback.
\<close>

theorem nat_create_source_mapping:
  assumes "sr_get_changes_iter ds xp = (SR_ERR_OK, cs)" "\<forall>c \<in> set cs. creates_leaf api net c"
    and "indices_of api (new_vals cs) \<noteq> []" "last_or [] (nat_types_of api (new_vals cs)) = ''static''"
    and "prefixes_of api net Internal_Src (new_vals cs) = is @ [p]"
    and "prefixes_of api net External_Src (new_vals cs) = es @ [q]"
  shows "nat_mapping_table_config_cb api net vom mem (Some ds) (Some xp) SR_EV_VERIFY (s, tbl) =
    (let x = last (indices_of api (new_vals cs)) in
     case om_write_nat vom (nat_key x) (m_address p) (m_address q) s of
       (RC_OK, s') \<Rightarrow> Val (SR_ERR_OK, s', tbl(x \<mapsto> (m_address p, m_address q)))
     | (RC_FAILED _, _) \<Rightarrow> Undef DoubleFree
     | (RC_THROWN e, _) \<Rightarrow> Throw e)"
proof -
  obtain m n where "m_prefix_len p = Some m" "m_prefix_len q = Some n"
    using prefixes_of_initialised [of p api net Internal_Src "new_vals cs"]
      prefixes_of_initialised [of q api net External_Src "new_vals cs"] assms(5,6) by auto
  then show ?thesis
    using assms(5,6)
    by (simp add: nat_run_created [OF assms(1-4)] last_or_nonempty nat_write_def Let_def
        split: prod.split rc_t.split)
qed

theorem nat_create_source_mapping_witness:
  "nat_mapping_table_config_cb sample_api sample_net sample_vom nat_indeterminate
      (Some (sample_session (create_entry ''static'' ''src''))) (Some []) SR_EV_VERIFY (sample_empty, \<lambda>_. None) =
    Val (SR_ERR_OK, sample_empty\<lparr>objs := [(''7'', Sample_Nat [10, 0, 0, 2] [192, 0, 2, 9])]\<rparr>,
      [7 \<mapsto> ([10, 0, 0, 2], [192, 0, 2, 9])])"
proof -
  let ?cs = "create_entry ''static'' ''src''"
  have cr: "\<forall>c \<in> set ?cs. creates_leaf sample_api sample_net c"
    by code_simp
  have idx: "indices_of sample_api (new_vals ?cs) = [7]"
    by code_simp
  have ty: "last_or [] (nat_types_of sample_api (new_vals ?cs)) = ''static''"
    by code_simp
  have src: "prefixes_of sample_api sample_net Internal_Src (new_vals ?cs) =
      [] @ [\<lparr>m_address = [10, 0, 0, 2], m_prefix_len = Some 32\<rparr>]"
    "prefixes_of sample_api sample_net External_Src (new_vals ?cs) =
      [] @ [\<lparr>m_address = [192, 0, 2, 9], m_prefix_len = Some 32\<rparr>]"
    by code_simp+
  have key: "nat_key 7 = ''7''"
    by code_simp
  show ?thesis
    by (subst nat_create_source_mapping [OF sample_session_iter cr _ ty src])
      (simp_all add: idx key sample_vom_def sample_put_def sample_empty_def)
qed

text \<open>
  (C37) A static mapping with destination prefixes only never reaches the branch for
  destinations: the builder reads the uninitialised lengths of the source prefixes, and
  where that memory happens to be readable it maps Boost's default address to itself,
  whatever destinations were configured.
\<close>

theorem nat_destination_mapping_lost:
  assumes "sr_get_changes_iter ds xp = (SR_ERR_OK, cs)" "\<forall>c \<in> set cs. creates_leaf api net c"
    and "indices_of api (new_vals cs) \<noteq> []" "last_or [] (nat_types_of api (new_vals cs)) = ''static''"
    and "prefixes_of api net Internal_Src (new_vals cs) = []" "prefixes_of api net External_Src (new_vals cs) = []"
  shows "nat_mapping_table_config_cb api net vom mem (Some ds) (Some xp) SR_EV_VERIFY st =
    (if nat_mem_internal_src mem = None \<or> nat_mem_external_src mem = None then Undef Indeterminate
     else nat_write vom (last (indices_of api (new_vals cs))) (addr_default net) (addr_default net) st)"
  by (auto simp: nat_run_created [OF assms(1-4)] assms(5,6) prefix_default_def load_def Let_def split: option.split)

theorem nat_destination_mapping_lost_witness:
  "nat_mapping_table_config_cb sample_api sample_net sample_vom nat_zeroed
      (Some (sample_session (create_entry ''static'' ''dst''))) (Some []) SR_EV_VERIFY (sample_empty, \<lambda>_. None) =
    Val (SR_ERR_OK, sample_empty\<lparr>objs := [(''7'', Sample_Nat [0, 0, 0, 0] [0, 0, 0, 0])]\<rparr>,
      [7 \<mapsto> ([0, 0, 0, 0], [0, 0, 0, 0])])"
proof -
  let ?cs = "create_entry ''static'' ''dst''"
  have cr: "\<forall>c \<in> set ?cs. creates_leaf sample_api sample_net c"
    by code_simp
  have idx: "indices_of sample_api (new_vals ?cs) = [7]"
    by code_simp
  have ty: "last_or [] (nat_types_of sample_api (new_vals ?cs)) = ''static''"
    by code_simp
  have src: "prefixes_of sample_api sample_net Internal_Src (new_vals ?cs) = []"
    "prefixes_of sample_api sample_net External_Src (new_vals ?cs) = []"
    by code_simp+
  have key: "nat_key 7 = ''7''"
    by code_simp
  show ?thesis
    by (subst nat_destination_mapping_lost [OF sample_session_iter cr _ ty src])
      (simp_all add: idx key nat_zeroed_def nat_write_def sample_vom_def sample_put_def sample_empty_def sample_net_def)
qed

text \<open>
  A commit whose mapping is not static cannot be refused: the path that returns
  \<open>SR_ERR_INVAL_ARG\<close> frees the change iterator that was freed behind the loop.
\<close>

lemma nat_unsupported_type_double_free:
  assumes "sr_get_changes_iter ds xp = (SR_ERR_OK, cs)" "\<forall>c \<in> set cs. creates_leaf api net c"
    and "indices_of api (new_vals cs) \<noteq> []" "last_or [] (nat_types_of api (new_vals cs)) \<noteq> ''static''"
  shows "nat_mapping_table_config_cb api net vom mem (Some ds) (Some xp) SR_EV_VERIFY st = Undef DoubleFree"
  using assms(3,4)
  by (simp add: nat_cb_verify [OF assms(1)] nat_walk_created [OF assms(2)] nat_finish_def nat_build_def
      nat_collect_def nat_start_def new_nat_static_builder_def Let_def)

text \<open>
  (C30) A commit that deletes mapping entries, where the memory of the uninitialised
  \<open>create\<close> is false: the last deleted index is removed from the object model and from
  the table, every other entry of the table stays; with indeterminate memory the result is
  undefined.
\<close>

theorem nat_delete_mapping:
  assumes "sr_get_changes_iter ds xp = (SR_ERR_OK, cs)" "\<forall>c \<in> set cs. deletes_leaf api c"
    and "indices_of api (old_vals cs) \<noteq> []"
  shows "nat_mapping_table_config_cb api net vom mem (Some ds) (Some xp) SR_EV_VERIFY (s, tbl) =
    (let x = last (indices_of api (old_vals cs)) in
     case nat_mem_create mem of
       None \<Rightarrow> Undef Indeterminate
     | Some False \<Rightarrow> Val (SR_ERR_OK, om_remove vom (nat_key x) s, tbl(x := None))
     | Some True \<Rightarrow> Undef DoubleFree)"
  using assms(3)
  by (auto simp: nat_cb_verify [OF assms(1)] nat_walk_deleted [OF assms(2)] nat_finish_def nat_start_def
      new_nat_static_builder_def nat_build_def last_or_map Let_def split: option.split bool.split)

theorem nat_delete_mapping_witness:
  "nat_mapping_table_config_cb sample_api sample_net sample_vom nat_zeroed
      (Some (sample_session delete_entry)) (Some []) SR_EV_VERIFY
      (sample_empty\<lparr>objs := [(''7'', Sample_Nat [10, 0, 0, 2] [192, 0, 2, 9])]\<rparr>,
       [7 \<mapsto> ([10, 0, 0, 2], [192, 0, 2, 9])]) = Val (SR_ERR_OK, sample_empty, \<lambda>_. None)"
proof -
  have del: "\<forall>c \<in> set delete_entry. deletes_leaf sample_api c"
    by code_simp
  have idx: "indices_of sample_api (old_vals delete_entry) = [7]"
    by code_simp
  have key: "nat_key 7 = ''7''"
    by code_simp
  show ?thesis
    by (subst nat_delete_mapping [OF sample_session_iter del])
      (simp_all add: idx key nat_zeroed_def sample_vom_def sample_empty_def)
qed

text \<open>
  A commit that modifies or moves a node of the table after any number of created
  leaves is refused with \<open>SR_ERR_UNSUPPORTED\<close>; neither the object model nor the table
  has changed, whatever the uninitialised memory holds.
\<close>

lemma nat_modify_unsupported:
  assumes "sr_get_changes_iter ds xp = (SR_ERR_OK, cs @ c # cs')" "\<forall>c \<in> set cs. creates_leaf api net c"
    and "oper c \<in> {SR_OP_MODIFIED, SR_OP_MOVED}"
  shows "nat_mapping_table_config_cb api net vom mem (Some ds) (Some xp) SR_EV_VERIFY st =
    Val (SR_ERR_UNSUPPORTED, st)"
  using assms(3)
  by (auto simp: nat_cb_verify [OF assms(1)] walk_changes_append nat_walk_created [OF assms(2)] nat_step_def)

text \<open>
  The only indeterminate reads of the mapping callback are those of its uninitialised
  locals: if the memory of the two flags is false and the four prefix lengths are readable,
  no commit makes it read an indeterminate value, in particular never the index.
\<close>

lemma nat_no_indeterminate_read:
  assumes "nat_mem_create mem = Some False" "nat_mem_remove mem = Some False"
    and "nat_mem_internal_src mem \<noteq> None" "nat_mem_external_src mem \<noteq> None"
    and "nat_mem_internal_dest mem \<noteq> None" "nat_mem_external_dest mem \<noteq> None"
    and "fst (sr_get_changes_iter ds xp) = SR_ERR_OK"
  shows "nat_mapping_table_config_cb api net vom mem (Some ds) (Some xp) event st \<noteq> Undef Indeterminate"
proof (cases "event = SR_EV_VERIFY")
  case True
  obtain cs where cs: "sr_get_changes_iter ds xp = (SR_ERR_OK, cs)"
    using assms(7) by (metis prod.collapse)
  have start: "settled (nat_start net mem)"
    using assms by (simp add: settled_def nat_start_def new_nat_static_builder_def prefix_default_def)
  have "nat_finish net vom (vals_after_loop ds cs) l st \<noteq> Undef Indeterminate"
    if "walk_changes (nat_step api net) cs (nat_start net mem) = Val (Next l)" for l
    using nat_body.walk_keeps [OF that] start by (intro nat_finish_settled) simp
  moreover have "walk_changes (nat_step api net) cs (nat_start net mem) \<noteq> Undef Indeterminate"
    by (auto dest!: walk_changes_Undef simp: nat_step_no_indeterminate)
  ultimately show ?thesis
    by (auto simp: True nat_cb_verify [OF cs] outcome_simps split: flow.splits)
qed (simp add: nat_cb.other_events)

text \<open>
  The capabilities provider always returns: one value, \<open>static-mapping = true\<close>
  below the requested node, in the one cell allocated, or \<open>SR_ERR_NOMEM\<close> and no values.
\<close>

lemma nat_capabilities:
  "nat_cap_state_cb sr_new_values xp =
    (if sr_new_values 1 = SR_ERR_OK
     then Val (SR_ERR_OK, Some (Some [Some \<lparr>xpath = xp @ ''/static-mapping'', data = SR_BOOL_T True\<rparr>], 1))
     else Val (SR_ERR_NOMEM, Some (None, 0)))"
  by (simp add: nat_cap_state_cb_def cap_values_def put_val_def new_array_def give_def give_nothing_def Let_def)

end
