(* ===== verification/System.thy ===== *)
theory System
  imports Ietf_Interface Openconfig_Interfaces Ietf_Nat
begin

text \<open>
  The configuration callbacks together, on one state: VOM's object database and the
  mapping table of the NAT plugin. Sysrepo calls the callbacks in any order and number;
  the step relation has one rule per callback.
\<close>

section \<open>Ownership in the object model\<close>

text \<open>
  What VOM documents of \<open>OM::write\<close> and \<open>OM::remove\<close>: an object written under a key is
  owned by that key until the key is removed, and removing a key leaves the objects of the
  other keys alone. \<open>owned s k\<close> are the static NAT mappings that key \<open>k\<close> owns in \<open>s\<close>.
\<close>

definition keeps_nat :: "('s \<Rightarrow> string \<Rightarrow> ('a \<times> 'a) set) \<Rightarrow> 's \<Rightarrow> 's \<Rightarrow> bool" where
  "keeps_nat owned s s' \<longleftrightarrow> (\<forall>x. owned s (nat_key x) \<subseteq> owned s' (nat_key x))"

definition om_laws :: "('s, 'i, 'p, 'a) vom_api \<Rightarrow> ('s \<Rightarrow> string \<Rightarrow> ('a \<times> 'a) set) \<Rightarrow> bool" where
  "om_laws vom owned \<longleftrightarrow>
     (\<forall>n t b s k. owned s k \<subseteq> owned (snd (make_interface vom n t b s)) k) \<and>
     (\<forall>i b s k. owned s k \<subseteq> owned (interface_set vom i b s) k) \<and>
     (\<forall>key i s k. owned s k \<subseteq> owned (snd (om_write_interface vom key i s)) k) \<and>
     (\<forall>key i p s k. owned s k \<subseteq> owned (snd (om_write_l3 vom key i p s)) k) \<and>
     (\<forall>key x y s k. owned s k \<subseteq> owned (snd (om_write_nat vom key x y s)) k) \<and>
     (\<forall>key x y s. fst (om_write_nat vom key x y s) = RC_OK \<longrightarrow>
        (x, y) \<in> owned (snd (om_write_nat vom key x y s)) key) \<and>
     (\<forall>key s k. k \<noteq> key \<longrightarrow> owned s k \<subseteq> owned (om_remove vom key s) k)"

text \<open>Every mapping of the plugin's table is backed by an object that VOM holds.\<close>

definition nat_backed :: "('s \<Rightarrow> string \<Rightarrow> ('a \<times> 'a) set) \<Rightarrow> 's \<times> 'a nat_table_t \<Rightarrow> bool" where
  "nat_backed owned st \<longleftrightarrow> (\<forall>x p. snd st x = Some p \<longrightarrow> p \<in> owned (fst st) (nat_key x))"


section \<open>The step relation\<close>

text \<open>Interface names that consist of digits could be the index of a mapping.\<close>

definition no_digit_name :: "sr_api \<Rightarrow> change \<Rightarrow> bool" where
  "no_digit_name api c \<longleftrightarrow>
     list_all (\<lambda>v. case v of
         None \<Rightarrow> True
       | Some v \<Rightarrow> sr_xpath_node_name_eq api (xpath v) ''name'' \<longrightarrow> \<not> list_all is_digit (str_of v))
       [old_val c, new_val c]"

text \<open>
  One notification of a configuration callback, with the changes that it delivers where it
  is about interfaces. Nothing restricts them.
\<close>

inductive sys_step ::
    "byte_order \<Rightarrow> sr_api \<Rightarrow> 'a net_api \<Rightarrow> ('s, 'i, 'p, 'a) vom_api \<Rightarrow> change list \<Rightarrow> 's \<times> 'a nat_table_t \<Rightarrow>
     's \<times> 'a nat_table_t \<Rightarrow> bool"
  for order api net vom where
  ietf_interface:
    "ietf_interface_create_cb api vom mem ds xp event s = Val (rc, s') \<Longrightarrow>
      sys_step order api net vom (snd (sr_get_changes_iter ds xp)) (s, tbl) (s', tbl)"
| ietf_address:
    "ietf_interface_ipv46_address_change_cb order api net vom ds xp event s = Val (rc, s') \<Longrightarrow>
      sys_step order api net vom [] (s, tbl) (s', tbl)"
| openconfig:
    "oc_interfaces_config_cb api vom mem (Some ds) (Some xp) event s = Val (rc, s') \<Longrightarrow>
      sys_step order api net vom (snd (sr_get_changes_iter ds xp)) (s, tbl) (s', tbl)"
| nat_instance:
    "nat_instance_config_cb ds xp event st = Val (rc, st') \<Longrightarrow> sys_step order api net vom [] st st'"
| nat_mapping:
    "nat_mapping_table_config_cb api net vom nmem ds xp event st = Val (rc, st') \<Longrightarrow>
      sys_step order api net vom [] st st'"

inductive_cases sys_stepE: "sys_step order api net vom cs st st'"


section \<open>Keys\<close>

lemma nat_key_inject [simp]: "nat_key x = nat_key y \<longleftrightarrow> x = y"
  by (simp add: nat_key_def)

lemma nat_key_digits: "list_all is_digit (nat_key x)"
  by (auto simp: nat_key_def list_all_iff dest: to_dec_digits)

lemma nat_key_nonempty: "nat_key x \<noteq> []"
  by (simp add: nat_key_def to_dec_def)

lemma nat_key_not_l3_key: "nat_key x \<noteq> l3_key n p"
proof
  assume "nat_key x = l3_key n p"
  with nat_key_digits [of x] show False
    by (simp add: l3_key_def is_digit_def)
qed

lemma keeps_nat_refl [simp]: "keeps_nat owned s s"
  by (simp add: keeps_nat_def)

lemma keeps_nat_trans: "keeps_nat owned s t \<Longrightarrow> keeps_nat owned t u \<Longrightarrow> keeps_nat owned s u"
  by (fastforce simp: keeps_nat_def)

lemma nat_backed_keeps: "nat_backed owned (s, tbl) \<Longrightarrow> keeps_nat owned s s' \<Longrightarrow> nat_backed owned (s', tbl)"
  by (fastforce simp: nat_backed_def keeps_nat_def)

lemma om_laws_keep:
  assumes "om_laws vom owned"
  shows "keeps_nat owned s (snd (make_interface vom n t b s))"
    and "keeps_nat owned s (interface_set vom i b s)"
    and "keeps_nat owned s (snd (om_write_interface vom key i s))"
    and "keeps_nat owned s (snd (om_write_l3 vom key i p s))"
    and "key \<notin> range nat_key \<Longrightarrow> keeps_nat owned s (om_remove vom key s)"
proof -
  note laws = assms [unfolded om_laws_def]
  show "keeps_nat owned s (snd (make_interface vom n t b s))" "keeps_nat owned s (interface_set vom i b s)"
    "keeps_nat owned s (snd (om_write_interface vom key i s))" "keeps_nat owned s (snd (om_write_l3 vom key i p s))"
    unfolding keeps_nat_def using laws by simp_all
  assume "key \<notin> range nat_key"
  then have "nat_key x \<noteq> key" for x
    by blast
  then show "keeps_nat owned s (om_remove vom key s)"
    unfolding keeps_nat_def using laws by simp
qed


section \<open>The interface callbacks keep the mappings\<close>

text \<open>What a loop body of the interface callbacks keeps.\<close>

definition intf_keeps ::
    "('s, 'i, 'p, 'a) vom_api \<Rightarrow> ('s \<Rightarrow> string \<Rightarrow> ('a \<times> 'a) set) \<Rightarrow> ('s, 'i) intf_locals \<Rightarrow> ('s, 'i) intf_locals \<Rightarrow> bool" where
  "intf_keeps vom owned l m \<longleftrightarrow>
     om_laws vom owned \<longrightarrow> m_name (builder l) \<notin> range nat_key \<longrightarrow>
       m_name (builder m) \<notin> range nat_key \<and> keeps_nat owned (db l) (db m)"

lemma intf_keeps_refl: "intf_keeps vom owned l l"
  by (simp add: intf_keeps_def)

lemma intf_keeps_trans: "intf_keeps vom owned l m \<Longrightarrow> intf_keeps vom owned m n \<Longrightarrow> intf_keeps vom owned l n"
  by (auto simp: intf_keeps_def intro: keeps_nat_trans)

definition digit_free :: "sr_api \<Rightarrow> sr_val \<Rightarrow> bool" where
  "digit_free api v \<longleftrightarrow> (sr_xpath_node_name_eq api (xpath v) ''name'' \<longrightarrow> \<not> list_all is_digit (str_of v))"

lemma no_digit_nameD:
  "no_digit_name api c \<Longrightarrow> old_val c = Some v \<Longrightarrow> digit_free api v"
  "no_digit_name api c \<Longrightarrow> new_val c = Some v \<Longrightarrow> digit_free api v"
  by (simp_all add: no_digit_name_def digit_free_def)

lemma digit_free_name:
  "digit_free api v \<Longrightarrow> sr_xpath_node_name_eq api (xpath v) ''name'' \<Longrightarrow> string_val v = Val n \<Longrightarrow> n \<notin> range nat_key"
  using nat_key_digits by (auto simp: digit_free_def str_of_def simp del: string_val.simps)

lemma intf_created_keeps:
  "digit_free api v \<Longrightarrow> intf_created api v l = Val f \<Longrightarrow> intf_keeps vom owned l (flow_state f)"
  by (auto simp: intf_created_def intf_keeps_def outcome_simps set_name_def set_type_def set_state_def
      simp del: string_val.simps bool_val.simps split: if_splits dest: digit_free_name)

lemma intf_deleted_keeps:
  "digit_free api v \<Longrightarrow> intf_deleted api v l = Val f \<Longrightarrow> intf_keeps vom owned l (flow_state f)"
  by (auto simp: intf_deleted_def intf_keeps_def outcome_simps set_name_def
      simp del: string_val.simps split: if_splits dest: digit_free_name)

lemma intf_modified_keeps: "intf_modified api vom v l = Val f \<Longrightarrow> intf_keeps vom owned l (flow_state f)"
  by (auto simp: intf_modified_def intf_keeps_def outcome_simps om_laws_keep
      simp del: bool_val.simps split: if_splits option.splits)

lemmas intf_keeps_rules = intf_keeps_refl intf_created_keeps intf_deleted_keeps intf_modified_keeps

interpretation ietf_keeps: change_body "ietf_create_step api vom" "no_digit_name api" "intf_keeps vom owned"
  for api vom owned
proof unfold_locales
  fix c l f
  assume "no_digit_name api c" "ietf_create_step api vom c l = Val f"
  then show "intf_keeps vom owned l (flow_state f)"
    by (cases "oper c")
      (auto simp: ietf_create_step_def outcome_simps intro: intf_keeps_rules dest: no_digit_nameD)
qed (auto intro: intf_keeps_refl intf_keeps_trans)

interpretation oc_keeps: change_body "oc_config_step api vom" "no_digit_name api" "intf_keeps vom owned"
  for api vom owned
proof unfold_locales
  fix c l f
  assume "no_digit_name api c" "oc_config_step api vom c l = Val f"
  then show "intf_keeps vom owned l (flow_state f)"
    by (cases "oper c")
      (auto simp: oc_config_step_def outcome_simps split: if_splits intro: intf_keeps_rules dest: no_digit_nameD)
qed (auto intro: intf_keeps_refl intf_keeps_trans)

text \<open>The states in which the code behind the loop can return.\<close>

lemma intf_finish_created:
  assumes "intf_finish vom vals l = Val (rc, s')" "create l = Some True"
  shows "\<exists>i t. build vom (builder l) (db l) = Val (i, t) \<and>
    (s' = t \<or> (\<exists>j. s' = snd (om_write_interface vom (interface_key vom j t) j t)))"
proof -
  obtain i t where b: "build vom (builder l) (db l) = Val (i, t)"
    using assms by (auto simp: intf_finish_def outcome_simps)
  have "s' = t \<or> (\<exists>j. s' = snd (om_write_interface vom (interface_key vom j t) j t))"
  proof (cases i)
    case (Some j)
    obtain r t' where w: "om_write_interface vom (interface_key vom j t) j t = (r, t')"
      by fastforce
    with b Some assms have "s' = t'"
      by (cases r) (auto simp: intf_finish_def outcome_simps)
    with w show ?thesis
      by (metis snd_conv)
  qed (use b assms in \<open>auto simp: intf_finish_def outcome_simps\<close>)
  with b show ?thesis
    by blast
qed

lemma intf_finish_not_created:
  assumes "intf_finish vom vals l = Val (rc, s')" "create l = Some False"
  shows "s' = db l \<or> s' = om_remove vom (m_name (builder l)) (db l) \<or>
    (\<exists>j. s' = snd (om_write_interface vom (interface_key vom j (db l)) j (db l)))"
proof (cases "modify l = Some True")
  case True
  with assms obtain j where j: "intf l = Some j"
    by (auto simp: intf_finish_def outcome_simps)
  obtain r t' where w: "om_write_interface vom (interface_key vom j (db l)) j (db l) = (r, t')"
    by fastforce
  with True j assms have "s' = t'"
    by (cases r) (auto simp: intf_finish_def outcome_simps)
  with w show ?thesis
    by (metis snd_conv)
next
  case False
  with assms have "modify l = Some False"
    by (auto simp: intf_finish_def outcome_simps)
  with assms show ?thesis
    by (auto simp: intf_finish_def outcome_simps split: if_splits)
qed

lemma intf_finish_keeps:
  assumes "om_laws vom owned" "m_name (builder l) \<notin> range nat_key" "intf_finish vom vals l = Val (rc, s')"
  shows "keeps_nat owned (db l) s'"
proof -
  note laws = om_laws_keep [OF assms(1)]
  have built: "keeps_nat owned (db l) t" if "build vom (builder l) (db l) = Val (i, t)" for i t
    using that by (auto simp: build_def outcome_simps case_prod_unfold laws(1) split: if_splits)
  obtain c where "create l = Some c"
    using assms(3) by (auto simp: intf_finish_def outcome_simps)
  then show ?thesis
  proof (cases c)
    case True
    with \<open>create l = Some c\<close> have "create l = Some True"
      by simp
    from intf_finish_created [OF assms(3) this] show ?thesis
      by (auto intro: built keeps_nat_trans [OF _ laws(3)])
  next
    case False
    with \<open>create l = Some c\<close> have "create l = Some False"
      by simp
    from intf_finish_not_created [OF assms(3) this] show ?thesis
      by (auto intro: laws(3) laws(5) [OF assms(2)])
  qed
qed

lemma intf_start_name: "m_name (builder (intf_start mem s)) \<notin> range nat_key"
  by (auto simp: intf_start_def new_builder_def nat_key_nonempty [symmetric])

lemma intf_start_db: "db (intf_start mem s) = s"
  by (simp add: intf_start_def)

lemma intf_run_keeps:
  assumes "om_laws vom owned" "intf_run step vom mem ds SR_EV_VERIFY cs s = Val (rc, s')"
    and "\<And>f. walk_changes step cs (intf_start mem s) = Val f \<Longrightarrow> intf_keeps vom owned (intf_start mem s) (flow_state f)"
  shows "keeps_nat owned s s'"
proof -
  obtain f where walk: "walk_changes step cs (intf_start mem s) = Val f"
    and r: "(case f of Leave rc l \<Rightarrow> Val (rc, db l) | Next l \<Rightarrow> intf_finish vom (vals_after_loop ds cs) l) = Val (rc, s')"
    using assms(2) by (auto simp: intf_run_def outcome_simps)
  have f: "m_name (builder (flow_state f)) \<notin> range nat_key" "keeps_nat owned s (db (flow_state f))"
    using assms(1) assms(3) [OF walk] by (simp_all add: intf_keeps_def intf_start_name intf_start_db)
  show ?thesis
  proof (cases f)
    case (Next l)
    with assms(1) r f show ?thesis
      by (auto intro: keeps_nat_trans intf_finish_keeps)
  next
    case (Leave rc' l)
    with r f show ?thesis
      by auto
  qed
qed

lemma changes_when_verifying:
  assumes "list_all (no_digit_name api) (snd (sr_get_changes_iter ds xp))" "fst (sr_get_changes_iter ds xp) = SR_ERR_OK"
  obtains cs where "sr_get_changes_iter ds xp = (SR_ERR_OK, cs)" "\<forall>c \<in> set cs. no_digit_name api c"
  using assms by (cases "sr_get_changes_iter ds xp") (auto simp: list_all_iff)

lemma ietf_interface_keeps:
  assumes "om_laws vom owned" "list_all (no_digit_name api) (snd (sr_get_changes_iter ds xp))"
    and "ietf_interface_create_cb api vom mem ds xp event s = Val (rc, s')"
  shows "keeps_nat owned s s'"
proof (cases "event = SR_EV_VERIFY \<and> fst (sr_get_changes_iter ds xp) = SR_ERR_OK")
  case True
  obtain cs where cs: "sr_get_changes_iter ds xp = (SR_ERR_OK, cs)" "\<forall>c \<in> set cs. no_digit_name api c"
    by (rule changes_when_verifying [OF assms(2)]) (use True in simp_all)
  have "intf_run (ietf_create_step api vom) vom mem ds SR_EV_VERIFY cs s = Val (rc, s')"
    using assms(3) True by (simp add: ietf_interface_create_cb_verify [OF cs(1)])
  with assms(1) show ?thesis
    by (rule intf_run_keeps) (rule ietf_keeps.walk_keeps [OF _ cs(2)])
next
  case False
  with assms(3) show ?thesis
    by (cases "sr_get_changes_iter ds xp") (simp add: ietf_interface_create_cb_def split: if_splits)
qed

lemma openconfig_keeps:
  assumes "om_laws vom owned" "list_all (no_digit_name api) (snd (sr_get_changes_iter ds xp))"
    and "oc_interfaces_config_cb api vom mem (Some ds) (Some xp) event s = Val (rc, s')"
  shows "keeps_nat owned s s'"
proof (cases "event = SR_EV_VERIFY \<and> fst (sr_get_changes_iter ds xp) = SR_ERR_OK")
  case True
  obtain cs where cs: "sr_get_changes_iter ds xp = (SR_ERR_OK, cs)" "\<forall>c \<in> set cs. no_digit_name api c"
    by (rule changes_when_verifying [OF assms(2)]) (use True in simp_all)
  have "intf_run (oc_config_step api vom) vom mem ds SR_EV_VERIFY cs s = Val (rc, s')"
    using assms(3) True by (simp add: oc_interfaces_config_cb_verify [OF cs(1)])
  with assms(1) show ?thesis
    by (rule intf_run_keeps) (rule oc_keeps.walk_keeps [OF _ cs(2)])
next
  case False
  with assms(3) show ?thesis
    by (cases "sr_get_changes_iter ds xp") (simp add: oc_interfaces_config_cb_def split: if_splits)
qed


section \<open>The address callback keeps the mappings\<close>

lemma ipv46_config_keeps:
  assumes "om_laws vom owned"
  shows "keeps_nat owned s (snd (ipv46_config_add_remove vom n a p add s))"
proof -
  note laws = om_laws_keep [OF assms]
  have "keeps_nat owned s (om_remove vom (l3_key n p) s)" for n p
    by (rule laws(5)) (use nat_key_not_l3_key in \<open>metis imageE\<close>)
  moreover have "om_write_l3 vom key i p s = (r, s') \<Longrightarrow> keeps_nat owned s s'" for key i p r s'
    using laws(4) [of s key i p] by simp
  ultimately show ?thesis
    by (auto simp: ipv46_config_add_remove_def Let_def split: option.split sum.split prod.split rc_t.split)
qed

lemma addr_apply_keeps:
  assumes "om_laws vom owned"
  shows "keeps_nat owned (addr_db l) (addr_db (addr_apply vom n l))"
  by (auto simp: addr_apply_def Let_def case_prod_unfold intro: ipv46_config_keeps [OF assms] keeps_nat_trans)

lemma addr_switch_db: "addr_switch order api net c l = Val l' \<Longrightarrow> addr_db l' = addr_db l"
  by (cases "oper c") (auto simp: addr_switch_def Let_def outcome_simps)

interpretation addr_body: change_body "addr_step order api net vom" "\<lambda>c. True"
  "\<lambda>l m. om_laws vom owned \<longrightarrow> keeps_nat owned (addr_db l) (addr_db m)"
  for order api net vom owned
proof unfold_locales
  fix c l f
  assume "addr_step order api net vom c l = Val f"
  then have "addr_db (flow_state f) = addr_db l \<or>
      (\<exists>n l'. addr_db l = addr_db l' \<and> f = Next (addr_apply vom n l'))"
    by (auto simp: addr_step_def outcome_simps split: if_splits dest: addr_switch_db [symmetric])
  moreover have "om_laws vom owned \<Longrightarrow> keeps_nat owned (addr_db l') (addr_db (addr_apply vom n l'))" for n l'
    by (rule addr_apply_keeps)
  ultimately show "om_laws vom owned \<longrightarrow> keeps_nat owned (addr_db l) (addr_db (flow_state f))"
    by auto
qed (auto intro: keeps_nat_trans)

lemma ietf_address_keeps:
  assumes "om_laws vom owned" "ietf_interface_ipv46_address_change_cb order api net vom ds xp event s = Val (rc, s')"
  shows "keeps_nat owned s s'"
proof -
  obtain rc' cs where cs: "sr_get_changes_iter ds xp = (rc', cs)"
    by fastforce
  show ?thesis
  proof (cases "event = SR_EV_APPLY \<or> rc' \<noteq> SR_ERR_OK")
    case True
    with assms(2) cs show ?thesis
      by (auto simp: ietf_interface_ipv46_address_change_cb_def split: if_splits)
  next
    case False
    with assms(2) cs obtain f where f: "foreach_change event (addr_step order api net vom) cs (addr_start s) = Val f"
      and r: "(case f of Leave rc l \<Rightarrow> Val (rc, addr_db l) | Next l \<Rightarrow> Val (op_rc l, addr_db l)) = Val (rc, s')"
      by (auto simp: ietf_interface_ipv46_address_change_cb_def outcome_simps)
    have s': "addr_db (flow_state f) = s'"
      using r by (cases f) simp_all
    have "keeps_nat owned (addr_db (addr_start s)) (addr_db (flow_state f))"
      using addr_body.foreach_keeps [OF f] assms(1) by blast
    then show ?thesis
      by (simp add: s' addr_start_def)
  qed
qed


section \<open>The mapping callback keeps its table backed\<close>

lemma nat_build_pair: "nat_build net b = Val (Some (i, out), b') \<Longrightarrow> m_inside b' = i \<and> m_outside b' = out"
  by (auto simp: nat_build_def Let_def outcome_simps split: if_splits)

lemma nat_finish_backed:
  assumes "om_laws vom owned" "nat_backed owned (s, tbl)"
    and "nat_finish net vom (vals_after_loop ds cs) l (s, tbl) = Val (rc, st')"
  shows "nat_backed owned st'"
proof -
  note laws = assms(1) [unfolded om_laws_def]
  obtain c where c: "nat_create l = Some c"
    using assms(3) by (auto simp: nat_finish_def outcome_simps)
  show ?thesis
  proof (cases c)
    case True
    with c assms(3) obtain i out b x where b: "nat_build net (nat_builder l) = Val (Some (i, out), b)"
      and x: "xindex l = Some x"
      by (auto simp: nat_finish_def outcome_simps split: option.splits)
    obtain r s' where w: "om_write_nat vom (nat_key x) i out s = (r, s')"
      by fastforce
    with True c assms(3) b x have r: "r = RC_OK" and st': "st' = (s', tbl(x \<mapsto> (i, out)))"
      using nat_build_pair [OF b] by (cases r; auto simp: nat_finish_def outcome_simps)+
    have "owned s k \<subseteq> owned s' k" for k
      using laws w by (metis snd_conv)
    moreover have "(i, out) \<in> owned s' (nat_key x)"
      using laws w r by (metis fst_conv snd_conv)
    ultimately show ?thesis
      using assms(2) by (fastforce simp: nat_backed_def st')
  next
    case False
    with c assms(3) have "st' = (s, tbl) \<or>
        (\<exists>x. st' = (om_remove vom (nat_key x) s, tbl(x := None)))"
      by (auto simp: nat_finish_def outcome_simps split: if_splits)
    then show ?thesis
    proof
      assume "\<exists>x. st' = (om_remove vom (nat_key x) s, tbl(x := None))"
      then obtain x where st': "st' = (om_remove vom (nat_key x) s, tbl(x := None))" ..
      have "owned s (nat_key y) \<subseteq> owned (om_remove vom (nat_key x) s) (nat_key y)" if "y \<noteq> x" for y
        using laws that by simp
      then show ?thesis
        using assms(2) by (fastforce simp: nat_backed_def st')
    qed (use assms(2) in simp)
  qed
qed

lemma nat_mapping_backed:
  assumes "om_laws vom owned" "nat_backed owned st"
    and "nat_mapping_table_config_cb api net vom mem ds xp event st = Val (rc, st')"
  shows "nat_backed owned st'"
proof (cases "\<exists>d x. ds = Some d \<and> xp = Some x \<and> event = SR_EV_VERIFY \<and> fst (sr_get_changes_iter d x) = SR_ERR_OK")
  case False
  then have "st' = st"
    using assms(3)
    by (cases ds; cases xp) (auto simp: nat_mapping_table_config_cb_def nat_error_def outcome_simps
        split: if_splits prod.splits)
  with assms(2) show ?thesis
    by simp
next
  case True
  then obtain d x cs where dx: "ds = Some d" "xp = Some x" "event = SR_EV_VERIFY"
    and cs: "sr_get_changes_iter d x = (SR_ERR_OK, cs)"
    by (metis prod.collapse)
  obtain s tbl where st: "st = (s, tbl)"
    by fastforce
  from assms(3) obtain f where
    "(case f of Leave rc l \<Rightarrow> nat_error Live Live (rc, st)
      | Next l \<Rightarrow> nat_finish net vom (vals_after_loop d cs) l st) = Val (rc, st')"
    by (auto simp: dx nat_cb_verify [OF cs] outcome_simps)
  then show ?thesis
    using nat_finish_backed [OF assms(1)] assms(2) by (cases f) (auto simp: st)
qed

lemma sys_step_backed:
  assumes "sys_step order api net vom cs st st'" "om_laws vom owned" "list_all (no_digit_name api) cs"
    and "nat_backed owned st"
  shows "nat_backed owned st'"
  using assms
proof (induction rule: sys_step.induct)
  case (ietf_interface ds xp mem event s rc s' tbl)
  then show ?case
    by (blast intro: nat_backed_keeps ietf_interface_keeps)
next
  case (ietf_address ds xp event s rc s' tbl)
  then show ?case
    by (blast intro: nat_backed_keeps ietf_address_keeps)
next
  case (openconfig ds xp mem event s rc s' tbl)
  then show ?case
    by (blast intro: nat_backed_keeps openconfig_keeps)
next
  case (nat_instance ds xp event st rc st')
  then show ?case
    by (simp add: nat_instance_config_cb_def)
next
  case (nat_mapping nmem ds xp event st rc st')
  then show ?case
    by (blast intro: nat_mapping_backed)
qed


section \<open>Concrete inputs\<close>

definition sample_owned :: "sample_db \<Rightarrow> string \<Rightarrow> (8 word list \<times> 8 word list) set" where
  "sample_owned s k = {(x, y). (k, Sample_Nat x y) \<in> set (objs s)}"

lemma sample_om_laws: "om_laws sample_vom sample_owned"
  by (auto simp: om_laws_def sample_vom_def sample_owned_def sample_put_def)

definition mapped_db :: sample_db where
  "mapped_db = \<lparr>itfs = [], objs = [(''7'', Sample_Nat [10, 0, 0, 2] [192, 0, 2, 9])]\<rparr>"

definition mapped_table :: "8 word list nat_table_t" where
  "mapped_table = [7 \<mapsto> ([10, 0, 0, 2], [192, 0, 2, 9])]"

lemma sample_mapping_step:
  "nat_mapping_table_config_cb sample_api sample_net sample_vom nat_zeroed
      (Some (sample_session (create_entry ''static'' ''src''))) (Some []) SR_EV_VERIFY (sample_empty, \<lambda>_. None) =
    Val (SR_ERR_OK, mapped_db, mapped_table)"
proof -
  let ?cs = "create_entry ''static'' ''src''"
  have cr: "\<forall>c \<in> set ?cs. creates_leaf sample_api sample_net c"
    by code_simp
  have idx: "indices_of sample_api (new_vals ?cs) = [7]"
    by code_simp
  have ty: "last_or [] (nat_types_of sample_api (new_vals ?cs)) = ''static''"
    by code_simp
  have src: "prefixes_of sample_api sample_net Internal_Src (new_vals ?cs) = [\<lparr>m_address = [10, 0, 0, 2], m_prefix_len = Some 32\<rparr>]"
    "prefixes_of sample_api sample_net External_Src (new_vals ?cs) = [\<lparr>m_address = [192, 0, 2, 9], m_prefix_len = Some 32\<rparr>]"
    by code_simp+
  have key: "nat_key 7 = ''7''"
    by code_simp
  show ?thesis
    by (subst nat_run_created [OF sample_session_iter cr _ ty])
      (simp_all add: idx src key nat_write_def sample_vom_def sample_put_def sample_empty_def
        mapped_db_def mapped_table_def)
qed


section \<open>Properties\<close>

text \<open>
  (C2) In every state that notifications of the configuration callbacks reach from an empty
  mapping table, in any order and on any events, each entry of the NAT plugin's table is
  backed by an object that VOM holds under the entry's key, on two conditions: VOM keeps its
  contract, and no notification is about an interface whose name consists of digits only.
  The second condition cannot be dropped, as the next property shows.
\<close>

theorem nat_table_backed:
  assumes "om_laws vom owned"
    and "(\<lambda>st st'. \<exists>cs. sys_step order api net vom cs st st' \<and> list_all (no_digit_name api) cs)\<^sup>*\<^sup>*
      (s0, \<lambda>_. None) (s, tbl)"
    and "tbl x = Some p"
  shows "p \<in> owned s (nat_key x)"
proof -
  have "nat_backed owned (s, tbl)"
    using assms(2)
  proof (induction rule: rtranclp_induct)
    case base
    show ?case
      by (simp add: nat_backed_def)
  next
    case (step st st')
    from step.hyps(2) obtain cs where "sys_step order api net vom cs st st'" "list_all (no_digit_name api) cs"
      by blast
    then show ?case
      by (rule sys_step_backed [OF _ assms(1) _ step.IH])
  qed
  with assms(3) show ?thesis
    by (cases p) (simp add: nat_backed_def)
qed

text \<open>A mapping and an interface with a name of letters and digits\<close>

theorem nat_table_backed_witness:
  "\<exists>s. (\<lambda>st st'. \<exists>cs. sys_step Little_Endian sample_api sample_net sample_vom cs st st' \<and>
        list_all (no_digit_name sample_api) cs)\<^sup>*\<^sup>* (sample_empty, \<lambda>_. None) (s, mapped_table) \<and>
      interface_find sample_vom ''eth0'' s = Some ''eth0'' \<and>
      ([10, 0, 0, 2], [192, 0, 2, 9]) \<in> sample_owned s (nat_key 7)"
proof -
  let ?step = "\<lambda>st st'. \<exists>cs. sys_step Little_Endian sample_api sample_net sample_vom cs st st' \<and>
    list_all (no_digit_name sample_api) cs"
  let ?s = "\<lparr>itfs = [(''eth0'', ''ETHERNET'', True)], objs = [(''eth0'', Sample_Itf ''eth0''),
    (''7'', Sample_Nat [10, 0, 0, 2] [192, 0, 2, 9])]\<rparr>"
  have "ietf_interface_create_cb sample_api sample_vom zeroed (sample_session create_eth0) [] SR_EV_VERIFY mapped_db =
      Val (SR_ERR_OK, ?s)"
    by code_simp
  from sys_step.ietf_interface [OF this, of Little_Endian sample_net mapped_table]
  have "sys_step Little_Endian sample_api sample_net sample_vom create_eth0 (mapped_db, mapped_table) (?s, mapped_table)"
    by (simp add: sample_session_iter)
  moreover have "list_all (no_digit_name sample_api) create_eth0"
    by code_simp
  ultimately have eth0: "?step (mapped_db, mapped_table) (?s, mapped_table)"
    by blast
  have entry: "?step (sample_empty, \<lambda>_. None) (mapped_db, mapped_table)"
    using sys_step.nat_mapping [OF sample_mapping_step, of Little_Endian] by (intro exI [of _ "[]"]) simp
  have run: "?step\<^sup>*\<^sup>* (sample_empty, \<lambda>_. None) (?s, mapped_table)"
    by (rule converse_rtranclp_into_rtranclp [of ?step, OF entry r_into_rtranclp [of ?step, OF eth0]])
  have "mapped_table 7 = Some ([10, 0, 0, 2], [192, 0, 2, 9])"
    by (simp add: mapped_table_def)
  from nat_table_backed [OF sample_om_laws run this] have "([10, 0, 0, 2], [192, 0, 2, 9]) \<in> sample_owned ?s (nat_key 7)" .
  moreover have "interface_find sample_vom ''eth0'' ?s = Some ''eth0''"
    by (simp add: sample_vom_def)
  ultimately show ?thesis
    using run by blast
qed

text \<open>
  (C35) The condition on interface names is needed: interfaces and mappings share VOM's
  name space of keys, so that deleting an interface whose name is the decimal index of a
  mapping takes the mapping out of VOM, while the plugin's table still has it.
\<close>

theorem interface_deletion_drops_mapping:
  assumes "sr_get_changes_iter ds xp = (SR_ERR_OK, cs)" "\<forall>c \<in> set cs. deletes api c"
    and "names_of api (old_vals cs) = ns @ [nat_key x]" "tbl x = Some p"
    and "owned (om_remove vom (nat_key x) s) (nat_key x) = {}"
  shows "\<exists>s'. ietf_interface_create_cb api vom zeroed ds xp SR_EV_VERIFY s = Val (SR_ERR_OK, s') \<and>
    \<not> nat_backed owned (s', tbl)"
proof -
  have "names_of api (old_vals cs) \<noteq> []"
    using assms(3) by simp
  from ietf_cb_deleted [OF assms(1,2) this, where vom = vom and mem = zeroed and s = s]
  have "ietf_interface_create_cb api vom zeroed ds xp SR_EV_VERIFY s = Val (SR_ERR_OK, om_remove vom (nat_key x) s)"
    by (simp add: zeroed_def assms(3))
  moreover have "\<not> nat_backed owned (om_remove vom (nat_key x) s, tbl)"
    using assms(4,5) by (cases p) (fastforce simp: nat_backed_def)
  ultimately show ?thesis
    by blast
qed

theorem interface_deletion_drops_mapping_witness:
  "\<exists>s'. ietf_interface_create_cb sample_api sample_vom zeroed
      (sample_session [sample_deleted (eth0_path ''name'') (SR_STRING_T ''7'')]) [] SR_EV_VERIFY mapped_db
        = Val (SR_ERR_OK, s') \<and> \<not> nat_backed sample_owned (s', mapped_table)"
proof -
  let ?cs = "[sample_deleted (eth0_path ''name'') (SR_STRING_T ''7'')]"
  have del: "\<forall>c \<in> set ?cs. deletes sample_api c"
    by code_simp
  have names: "names_of sample_api (old_vals ?cs) = [] @ [nat_key 7]"
    by code_simp
  have "mapped_table 7 = Some ([10, 0, 0, 2], [192, 0, 2, 9])"
    by (simp add: mapped_table_def)
  moreover have "sample_owned (om_remove sample_vom (nat_key 7) mapped_db) (nat_key 7) = {}"
    by (simp add: sample_owned_def sample_vom_def)
  ultimately show ?thesis
    by (rule interface_deletion_drops_mapping [OF sample_session_iter del names])
qed

text \<open>
  (C33) No callback undoes anything when sysrepo aborts a commit: after \<open>SR_EV_VERIFY\<close> and
  \<open>SR_EV_ABORT\<close> the state is the one that \<open>SR_EV_VERIFY\<close> alone has left, for the
  interface, the address, the OpenConfig and the NAT callback; and \<open>SR_EV_APPLY\<close> adds
  nothing to it either.
\<close>

theorem abort_undoes_nothing:
  fixes st :: "'s \<times> 'a nat_table_t"
  shows
  "list_all (\<lambda>ev.
     deliver_events (ietf_interface_create_cb api vom mem ds xp) [SR_EV_VERIFY, ev] s =
       deliver_events (ietf_interface_create_cb api vom mem ds xp) [SR_EV_VERIFY] s \<and>
     deliver_events (ietf_interface_ipv46_address_change_cb order api net vom ds xp) [SR_EV_VERIFY, ev] s =
       deliver_events (ietf_interface_ipv46_address_change_cb order api net vom ds xp) [SR_EV_VERIFY] s \<and>
     deliver_events (oc_interfaces_config_cb api vom mem (Some ds) (Some xp)) [SR_EV_VERIFY, ev] s =
       deliver_events (oc_interfaces_config_cb api vom mem (Some ds) (Some xp)) [SR_EV_VERIFY] s \<and>
     deliver_events (nat_mapping_table_config_cb api net vom nmem (Some ds) (Some xp)) [SR_EV_VERIFY, ev] st =
       deliver_events (nat_mapping_table_config_cb api net vom nmem (Some ds) (Some xp)) [SR_EV_VERIFY] st)
   [SR_EV_ABORT, SR_EV_APPLY]"
proof -
  have addr: "deliver_events (ietf_interface_ipv46_address_change_cb order api net vom ds xp) [ev] t = Val t"
    if "ev = SR_EV_ABORT \<or> ev = SR_EV_APPLY" for ev t
    using that
    by (cases "sr_get_changes_iter ds xp")
      (auto simp: ietf_interface_ipv46_address_change_cb_def foreach_change_def addr_start_def)
  have "deliver_events (ietf_interface_ipv46_address_change_cb order api net vom ds xp) [SR_EV_VERIFY, ev] s =
      deliver_events (ietf_interface_ipv46_address_change_cb order api net vom ds xp) [SR_EV_VERIFY] s"
    if "ev = SR_EV_ABORT \<or> ev = SR_EV_APPLY" for ev
    using addr [OF that] by (simp del: deliver_events.simps(2) add: deliver_events.simps(2) [of _ SR_EV_VERIFY])
  then show ?thesis
    by (simp add: ietf_cb.deliver_verify_only [where evs = "[SR_EV_VERIFY, e]" for e]
        oc_cb.deliver_verify_only [where evs = "[SR_EV_VERIFY, e]" for e]
        nat_cb.deliver_verify_only [where evs = "[SR_EV_VERIFY, e]" for e] del: deliver_events.simps)
qed

text \<open>
  (C14) The two implementations of the interface configuration agree: on changes that carry
  a new value below a named interface (created, modified or moved leaves), the IETF and the
  OpenConfig callback have the same result and the same effect on VOM, whatever the event
  and the uninitialised memory.
\<close>

theorem ietf_openconfig_agree:
  assumes "sr_get_changes_iter ds xp = (SR_ERR_OK, cs)"
    and "\<forall>c \<in> set cs. oper c \<noteq> SR_OP_DELETED \<and> (\<exists>v. new_val c = Some v \<and> names_interface api v)"
  shows "oc_interfaces_config_cb api vom mem (Some ds) (Some xp) event s =
    ietf_interface_create_cb api vom mem ds xp event s"
proof (cases "event = SR_EV_VERIFY")
  case True
  have "oc_config_step api vom c l = ietf_create_step api vom c l" if "c \<in> set cs" for c l
    using assms(2) that
    by (cases "oper c")
      (auto simp: oc_config_step_def ietf_create_step_def names_interface_def split: option.split option.splits)
  then show ?thesis
    by (simp add: True oc_interfaces_config_cb_verify [OF assms(1)] ietf_interface_create_cb_verify [OF assms(1)]
        intf_run_def cong: walk_changes_cong)
qed (simp add: oc_cb.other_events ietf_cb.other_events)

theorem ietf_openconfig_agree_witness:
  "oc_interfaces_config_cb sample_api sample_vom indeterminate (Some (sample_session oc_create_eth0)) (Some [])
      SR_EV_VERIFY sample_empty =
    ietf_interface_create_cb sample_api sample_vom indeterminate (sample_session oc_create_eth0) [] SR_EV_VERIFY
      sample_empty"
proof -
  have "\<forall>c \<in> set oc_create_eth0. oper c \<noteq> SR_OP_DELETED \<and> names_interface sample_api (the (new_val c)) \<and> new_val c \<noteq> None"
    by code_simp
  then have "\<forall>c \<in> set oc_create_eth0. oper c \<noteq> SR_OP_DELETED \<and>
      (\<exists>v. new_val c = Some v \<and> names_interface sample_api v)"
    by auto
  then show ?thesis
    by (rule ietf_openconfig_agree [OF sample_session_iter])
qed

end
