(* ===== verification/Sc_Init.thy ===== *)
theory Sc_Init
  imports Sysrepo
begin

text \<open>
  The registration lists of \<open>src/plugins/sc_init.h\<close> and \<open>sc_init.c\<close>: the linked
  lists that the constructors generated by \<open>SC_INIT_FUNCTION\<close> and
  \<open>SC_EXIT_FUNCTION\<close> build before the plugin is loaded, and the loops that call the
  registered functions. The list nodes are static variables linked by pointers, so the
  model keeps an explicit store; a chain of nodes represents a list of functions, and
  every operation is shown to implement its counterpart on lists.
\<close>

section \<open>State\<close>

text \<open>
  Each use of \<open>SC_DECLARE_FUNCTION(f, tag)\<close> owns one static node, so the function
  serves as the node's address.
\<close>

record 'f list_elt =
  next_elt :: "'f option"
  func :: 'f
  is_called :: bool

record 'f registrations =
  first :: "'f option"
  elt :: "'f \<Rightarrow> 'f list_elt"

text \<open>
  \<open>sc_plugin_main_t\<close>: session and subscription context, which the registered functions
  use, are the field \<open>ctx\<close>.
\<close>

record ('f, 'm) sc_plugin_main_t =
  ctx :: 'm
  init_function_registrations :: "'f registrations"
  exit_function_registrations :: "'f registrations"


section \<open>SC\_DECLARE\_FUNCTION\<close>

definition sc_add :: "'f \<Rightarrow> 'f registrations \<Rightarrow> 'f registrations" where
  "sc_add f r =
     \<lparr>first = Some f,
      elt = (elt r)(f := \<lparr>next_elt = first r, func = f, is_called = False\<rparr>)\<rparr>"

text \<open>The loop of the destructor; it looks one node ahead. \<open>None\<close>: it does not end.\<close>

partial_function (option) sc_rm_loop :: "'f \<Rightarrow> 'f registrations \<Rightarrow> 'f \<Rightarrow> 'f registrations option" where
  "sc_rm_loop f r p =
     (case next_elt (elt r p) of
        None \<Rightarrow> Some r
      | Some q \<Rightarrow>
          if func (elt r q) = f
          then Some (r\<lparr>elt := (elt r)(p := (elt r p)\<lparr>next_elt := next_elt (elt r q)\<rparr>)\<rparr>)
          else sc_rm_loop f r q)"

definition sc_rm :: "'f \<Rightarrow> 'f registrations \<Rightarrow> 'f registrations outcome option" where
  "sc_rm f r =
     (case first r of
        None \<Rightarrow> Some (Undef NullPointer)
      | Some p \<Rightarrow>
          if func (elt r p) = f then Some (Val (r\<lparr>first := next_elt (elt r p)\<rparr>))
          else map_option Val (sc_rm_loop f r p))"

text \<open>The two instances of the macro, on their fields of \<open>sc_plugin_main\<close>.\<close>

definition sc_add_init_function where
  "sc_add_init_function f pm =
     pm\<lparr>init_function_registrations := sc_add f (init_function_registrations pm)\<rparr>"

definition sc_add_exit_function where
  "sc_add_exit_function f pm =
     pm\<lparr>exit_function_registrations := sc_add f (exit_function_registrations pm)\<rparr>"

definition sc_rm_init_function where
  "sc_rm_init_function f pm =
     map_option (\<lambda>m. bindO m (\<lambda>r. Val (pm\<lparr>init_function_registrations := r\<rparr>)))
       (sc_rm f (init_function_registrations pm))"

definition sc_rm_exit_function where
  "sc_rm_exit_function f pm =
     map_option (\<lambda>m. bindO m (\<lambda>r. Val (pm\<lparr>exit_function_registrations := r\<rparr>)))
       (sc_rm f (exit_function_registrations pm))"


section \<open>Calling the registered functions\<close>

text \<open>
  \<open>run f\<close> is the effect of the registered function on session and subscription context,
  with its result.
\<close>

definition mark_called :: "'f \<Rightarrow> 'f registrations \<Rightarrow> 'f registrations" where
  "mark_called p r = r\<lparr>elt := (elt r)(p := (elt r p)\<lparr>is_called := True\<rparr>)\<rparr>"

partial_function (option) call_all_init_loop ::
    "('f \<Rightarrow> 'm \<Rightarrow> sr_error \<times> 'm) \<Rightarrow> 'f option \<Rightarrow> sr_error \<Rightarrow> 'f registrations \<Rightarrow> 'm \<Rightarrow>
     (sr_error \<times> 'f registrations \<times> 'm) option" where
  "call_all_init_loop run p ret r m =
     (case p of
        None \<Rightarrow> Some (ret, r, m)
      | Some q \<Rightarrow>
          if \<not> is_called (elt r q)
          then (case run (func (elt r q)) m of (ret', m') \<Rightarrow>
                  (let r' = mark_called q r
                   in if ret' \<noteq> SR_ERR_OK then Some (ret', r', m')
                      else call_all_init_loop run (next_elt (elt r' q)) ret' r' m'))
          else call_all_init_loop run (next_elt (elt r q)) ret r m)"

definition sc_call_all_init_function ::
    "('f \<Rightarrow> 'm \<Rightarrow> sr_error \<times> 'm) \<Rightarrow> ('f, 'm) sc_plugin_main_t \<Rightarrow>
     (sr_error \<times> ('f, 'm) sc_plugin_main_t) option" where
  "sc_call_all_init_function run pm =
     map_option (\<lambda>(ret, r, m). (ret, pm\<lparr>init_function_registrations := r, ctx := m\<rparr>))
       (call_all_init_loop run (first (init_function_registrations pm)) SR_ERR_OK
          (init_function_registrations pm) (ctx pm))"

partial_function (option) call_all_exit_loop ::
    "('f \<Rightarrow> 'm \<Rightarrow> 'm) \<Rightarrow> 'f option \<Rightarrow> 'f registrations \<Rightarrow> 'm \<Rightarrow> ('f registrations \<times> 'm) option" where
  "call_all_exit_loop run p r m =
     (case p of
        None \<Rightarrow> Some (r, m)
      | Some q \<Rightarrow>
          if \<not> is_called (elt r q)
          then (let r' = mark_called q r
                in call_all_exit_loop run (next_elt (elt r' q)) r' (run (func (elt r q)) m))
          else call_all_exit_loop run (next_elt (elt r q)) r m)"

definition sc_call_all_exit_function ::
    "('f \<Rightarrow> 'm \<Rightarrow> 'm) \<Rightarrow> ('f, 'm) sc_plugin_main_t \<Rightarrow> ('f, 'm) sc_plugin_main_t option" where
  "sc_call_all_exit_function run pm =
     map_option (\<lambda>(r, m). pm\<lparr>exit_function_registrations := r, ctx := m\<rparr>)
       (call_all_exit_loop run (first (exit_function_registrations pm))
          (exit_function_registrations pm) (ctx pm))"

text \<open>The macro \<open>sc_call_init_function(f, pm)\<close>: the first match that was not called yet.\<close>

partial_function (option) call_init_loop ::
    "('f \<Rightarrow> 'm \<Rightarrow> sr_error \<times> 'm) \<Rightarrow> 'f \<Rightarrow> 'f option \<Rightarrow> 'f registrations \<Rightarrow> 'm \<Rightarrow>
     (sr_error \<times> 'f registrations \<times> 'm) option" where
  "call_init_loop run f p r m =
     (case p of
        None \<Rightarrow> Some (SR_ERR_OK, r, m)
      | Some q \<Rightarrow>
          if func (elt r q) = f \<and> \<not> is_called (elt r q)
          then (case run (func (elt r q)) m of (ret, m') \<Rightarrow> Some (ret, mark_called q r, m'))
          else call_init_loop run f (next_elt (elt r q)) r m)"

definition sc_call_init_function ::
    "('f \<Rightarrow> 'm \<Rightarrow> sr_error \<times> 'm) \<Rightarrow> 'f \<Rightarrow> ('f, 'm) sc_plugin_main_t \<Rightarrow>
     (sr_error \<times> ('f, 'm) sc_plugin_main_t) option" where
  "sc_call_init_function run f pm =
     map_option (\<lambda>(ret, r, m). (ret, pm\<lparr>init_function_registrations := r, ctx := m\<rparr>))
       (call_init_loop run f (first (init_function_registrations pm))
          (init_function_registrations pm) (ctx pm))"

partial_function (option) call_exit_loop ::
    "('f \<Rightarrow> 'm \<Rightarrow> 'm) \<Rightarrow> 'f \<Rightarrow> 'f option \<Rightarrow> 'f registrations \<Rightarrow> 'm \<Rightarrow> ('f registrations \<times> 'm) option" where
  "call_exit_loop run f p r m =
     (case p of
        None \<Rightarrow> Some (r, m)
      | Some q \<Rightarrow>
          if func (elt r q) = f \<and> \<not> is_called (elt r q)
          then Some (mark_called q r, run (func (elt r q)) m)
          else call_exit_loop run f (next_elt (elt r q)) r m)"

definition sc_call_exit_function ::
    "('f \<Rightarrow> 'm \<Rightarrow> 'm) \<Rightarrow> 'f \<Rightarrow> ('f, 'm) sc_plugin_main_t \<Rightarrow> ('f, 'm) sc_plugin_main_t option" where
  "sc_call_exit_function run f pm =
     map_option (\<lambda>(r, m). pm\<lparr>exit_function_registrations := r, ctx := m\<rparr>)
       (call_exit_loop run f (first (exit_function_registrations pm))
          (exit_function_registrations pm) (ctx pm))"


section \<open>The list a chain of nodes represents\<close>

fun chain :: "'f registrations \<Rightarrow> 'f option \<Rightarrow> 'f list \<Rightarrow> bool" where
  "chain r p [] \<longleftrightarrow> p = None"
| "chain r p (f # fs) \<longleftrightarrow> p = Some f \<and> func (elt r f) = f \<and> chain r (next_elt (elt r f)) fs"

definition registered :: "'f registrations \<Rightarrow> 'f list \<Rightarrow> bool" where
  "registered r fs \<longleftrightarrow> chain r (first r) fs \<and> distinct fs"

text \<open>The specification of the calling loops on lists of functions with their flags.\<close>

fun run_list ::
    "('f \<Rightarrow> 'm \<Rightarrow> sr_error \<times> 'm) \<Rightarrow> ('f \<Rightarrow> bool) \<Rightarrow> 'f list \<Rightarrow> 'm \<Rightarrow> sr_error \<times> ('f \<Rightarrow> bool) \<times> 'm" where
  "run_list run called [] m = (SR_ERR_OK, called, m)"
| "run_list run called (f # fs) m =
     (if called f then run_list run called fs m
      else case run f m of (ret, m') \<Rightarrow>
        if ret \<noteq> SR_ERR_OK then (ret, called(f := True), m')
        else run_list run (called(f := True)) fs m')"

abbreviation called_of :: "'f registrations \<Rightarrow> 'f \<Rightarrow> bool" where
  "called_of r \<equiv> \<lambda>f. is_called (elt r f)"

definition set_flags :: "'f registrations \<Rightarrow> ('f \<Rightarrow> bool) \<Rightarrow> 'f registrations" where
  "set_flags r called = r\<lparr>elt := (\<lambda>f. (elt r f)\<lparr>is_called := called f\<rparr>)\<rparr>"

text \<open>The destructors of several functions, in the given order.\<close>

fun unregister ::
    "('f \<Rightarrow> 'p \<Rightarrow> 'p outcome option) \<Rightarrow> 'f list \<Rightarrow> 'p \<Rightarrow> 'p outcome option" where
  "unregister rm [] pm = Some (Val pm)"
| "unregister rm (f # fs) pm =
     (case rm f pm of Some (Val pm') \<Rightarrow> unregister rm fs pm' | other \<Rightarrow> other)"


section \<open>Chains\<close>

lemma chain_cong:
  assumes "\<And>f. f \<in> set fs \<Longrightarrow> func (elt r' f) = func (elt r f) \<and> next_elt (elt r' f) = next_elt (elt r f)"
  shows "chain r' p fs \<longleftrightarrow> chain r p fs"
  using assms by (induction fs arbitrary: p) auto

lemma set_flags_simps [simp]:
  "first (set_flags r c) = first r"
  "next_elt (elt (set_flags r c) f) = next_elt (elt r f)"
  "func (elt (set_flags r c) f) = func (elt r f)"
  "is_called (elt (set_flags r c) f) = c f"
  "set_flags (set_flags r c) d = set_flags r d"
  "set_flags r (\<lambda>f. is_called (elt r f)) = r"
  by (simp_all add: set_flags_def)

lemma chain_set_flags [simp]: "chain (set_flags r c) p fs \<longleftrightarrow> chain r p fs"
  by (rule chain_cong) simp

lemma registered_set_flags [simp]: "registered (set_flags r c) fs \<longleftrightarrow> registered r fs"
  by (simp add: registered_def)

lemma mark_called_eq: "mark_called q r = set_flags r ((called_of r)(q := True))"
  by (auto simp: mark_called_def set_flags_def fun_eq_iff)

lemma registered_sc_add:
  assumes "registered r fs" "f \<notin> set fs"
  shows "registered (sc_add f r) (f # fs)"
proof -
  have "chain (sc_add f r) (first r) fs \<longleftrightarrow> chain r (first r) fs"
    using assms(2) by (intro chain_cong) (auto simp: sc_add_def)
  with assms show ?thesis
    by (simp add: registered_def) (simp add: sc_add_def)
qed

lemma sc_rm_loop_chain:
  assumes "chain r (next_elt (elt r p)) fs" "distinct (p # fs)"
  shows "\<exists>r'. sc_rm_loop f r p = Some r' \<and> first r' = first r \<and>
    chain r' (next_elt (elt r' p)) (remove1 f fs) \<and>
    (\<forall>q. func (elt r' q) = func (elt r q) \<and> called_of r' q = called_of r q) \<and>
    (\<forall>q. q \<notin> set (p # fs) \<longrightarrow> elt r' q = elt r q)"
  using assms
proof (induction fs arbitrary: p)
  case Nil
  then show ?case
    by (subst sc_rm_loop.simps) simp
next
  case (Cons q fs)
  show ?case
  proof (cases "q = f")
    case True
    have "chain (r\<lparr>elt := (elt r)(p := (elt r p)\<lparr>next_elt := next_elt (elt r q)\<rparr>)\<rparr>) (next_elt (elt r q)) fs"
      using Cons.prems by (subst chain_cong [where r = r]) auto
    with Cons.prems True show ?thesis
      by (subst sc_rm_loop.simps) auto
  next
    case False
    from Cons.prems have "chain r (next_elt (elt r q)) fs" "distinct (q # fs)"
      by auto
    from Cons.IH [OF this] obtain r' where
      "sc_rm_loop f r q = Some r'" "first r' = first r"
      "chain r' (next_elt (elt r' q)) (remove1 f fs)"
      "\<forall>q. func (elt r' q) = func (elt r q) \<and> called_of r' q = called_of r q"
      "\<forall>x. x \<notin> set (q # fs) \<longrightarrow> elt r' x = elt r x"
      by blast
    with Cons.prems False show ?thesis
      by (subst sc_rm_loop.simps) auto
  qed
qed

lemma sc_rm_registered:
  assumes "registered r fs" "fs \<noteq> []"
  shows "\<exists>r'. sc_rm f r = Some (Val r') \<and> registered r' (remove1 f fs) \<and> called_of r' = called_of r"
proof -
  obtain p gs where fs: "fs = p # gs"
    using assms(2) by (cases fs) auto
  then have p: "first r = Some p" "func (elt r p) = p" and
    gs: "chain r (next_elt (elt r p)) gs" "distinct (p # gs)"
    using assms(1) by (auto simp: registered_def)
  show ?thesis
  proof (cases "p = f")
    case True
    have "chain (r\<lparr>first := next_elt (elt r p)\<rparr>) (next_elt (elt r p)) gs"
      using gs(1) by (subst chain_cong [where r = r]) auto
    moreover have "sc_rm f r = Some (Val (r\<lparr>first := next_elt (elt r p)\<rparr>))"
      using True p by (simp add: sc_rm_def)
    moreover have "remove1 f fs = gs"
      using True fs by simp
    ultimately show ?thesis
      using gs(2) by (simp add: registered_def)
  next
    case False
    obtain r' where loop: "sc_rm_loop f r p = Some r'" "first r' = first r"
      and c: "chain r' (next_elt (elt r' p)) (remove1 f gs)"
      and same: "\<And>q. func (elt r' q) = func (elt r q)" "\<And>q. called_of r' q = called_of r q"
      using sc_rm_loop_chain [OF gs, of f] by blast
    have "sc_rm f r = Some (Val r')"
      using False p loop(1) by (simp add: sc_rm_def)
    moreover have "chain r' (first r') (remove1 f fs)"
      using False p c same(1) [of p] loop(2) by (simp add: fs)
    moreover have "distinct (remove1 f fs)"
      using gs(2) unfolding fs by (rule distinct_remove1)
    ultimately show ?thesis
      using same(2) by (auto simp: registered_def)
  qed
qed

lemma sc_rm_empty: "registered r [] \<Longrightarrow> sc_rm f r = Some (Undef NullPointer)"
  by (simp add: registered_def sc_rm_def)


section \<open>The calling loops implement their list versions\<close>

lemma call_all_init_loop_eq:
  assumes "chain r p fs"
  shows "call_all_init_loop run p SR_ERR_OK r m =
    (case run_list run (called_of r) fs m of (ret, c, m') \<Rightarrow> Some (ret, set_flags r c, m'))"
  using assms
proof (induction fs arbitrary: p r m)
  case Nil
  then show ?case
    by (subst call_all_init_loop.simps) simp
next
  case (Cons f fs)
  then have p: "p = Some f" "func (elt r f) = f" "chain r (next_elt (elt r f)) fs"
    by auto
  show ?case
  proof (cases "is_called (elt r f)")
    case True
    with p Cons.IH [OF p(3)] show ?thesis
      by (subst call_all_init_loop.simps) simp
  next
    case False
    obtain ret m' where run: "run f m = (ret, m')"
      by (cases "run f m")
    have "chain (set_flags r ((called_of r)(f := True))) (next_elt (elt r f)) fs"
      using p(3) by simp
    from Cons.IH [OF this] False run p show ?thesis
      by (subst call_all_init_loop.simps) (auto simp: mark_called_eq fun_upd_def split: prod.split)
  qed
qed

lemma call_all_exit_loop_eq:
  assumes "chain r p fs"
  shows "call_all_exit_loop run p r m =
    (case run_list (\<lambda>f m. (SR_ERR_OK, run f m)) (called_of r) fs m of (ret, c, m') \<Rightarrow> Some (set_flags r c, m'))"
  using assms
proof (induction fs arbitrary: p r m)
  case Nil
  then show ?case
    by (subst call_all_exit_loop.simps) simp
next
  case (Cons f fs)
  then have p: "p = Some f" "func (elt r f) = f" "chain r (next_elt (elt r f)) fs"
    by auto
  show ?case
  proof (cases "is_called (elt r f)")
    case True
    with p Cons.IH [OF p(3)] show ?thesis
      by (subst call_all_exit_loop.simps) simp
  next
    case False
    have "chain (set_flags r ((called_of r)(f := True))) (next_elt (elt r f)) fs"
      using p(3) by simp
    from Cons.IH [OF this] False p show ?thesis
      by (subst call_all_exit_loop.simps) (auto simp: mark_called_eq fun_upd_def split: prod.split)
  qed
qed

lemma call_init_loop_eq:
  assumes "chain r p fs"
  shows "call_init_loop run f p r m =
    (if f \<in> set fs \<and> \<not> called_of r f
     then case run f m of (ret, m') \<Rightarrow> Some (ret, mark_called f r, m')
     else Some (SR_ERR_OK, r, m))"
  using assms
proof (induction fs arbitrary: p)
  case Nil
  then show ?case
    by (subst call_init_loop.simps) simp
next
  case (Cons g fs)
  then have p: "p = Some g" "func (elt r g) = g" "chain r (next_elt (elt r g)) fs"
    by auto
  with Cons.IH [OF p(3)] show ?case
    by (subst call_init_loop.simps) auto
qed


section \<open>Runs of a list of functions\<close>

lemma run_list_flags:
  assumes "run_list run called fs m = (SR_ERR_OK, c, m')"
  shows "c = (\<lambda>f. called f \<or> f \<in> set fs)"
  using assms
proof (induction fs arbitrary: called m)
  case (Cons g fs)
  then show ?case
    by (fastforce split: if_splits prod.splits)
qed simp

lemma run_list_all_called: "\<forall>f \<in> set fs. called f \<Longrightarrow> run_list run called fs m = (SR_ERR_OK, called, m)"
  by (induction fs) simp_all

lemma run_list_append:
  "run_list run called (xs @ ys) m =
     (case run_list run called xs m of (ret, c, m') \<Rightarrow>
        if ret \<noteq> SR_ERR_OK then (ret, c, m') else run_list run c ys m')"
  by (induction xs arbitrary: called m) (auto split: prod.split)

lemma run_list_error:
  assumes "run_list run called fs m = (e, c, m')" "e \<noteq> SR_ERR_OK" "distinct fs"
  shows "\<exists>xs g ys m1. fs = xs @ g # ys \<and> \<not> called g \<and>
    run_list run called xs m = (SR_ERR_OK, \<lambda>f. called f \<or> f \<in> set xs, m1) \<and>
    run g m1 = (e, m') \<and> c = (\<lambda>f. called f \<or> f \<in> set xs \<or> f = g)"
  using assms
proof (induction fs arbitrary: called m)
  case (Cons g fs)
  show ?case
  proof (cases "called g \<or> fst (run g m) = SR_ERR_OK")
    case False
    then have "run g m = (e, m')" "c = called(g := True)"
      using Cons.prems by (auto split: prod.splits if_splits)
    with False show ?thesis
      by (intro exI [of _ "[]"]) (auto simp: fun_eq_iff)
  next
    case True
    define cg mg where "cg = (if called g then called else called(g := True))"
      and "mg = (if called g then m else snd (run g m))"
    have "run_list run cg fs mg = (e, c, m')"
      using Cons.prems True by (auto simp: cg_def mg_def split: prod.splits if_splits)
    from Cons.IH [OF this] Cons.prems obtain xs h ys m1 where
      fs: "fs = xs @ h # ys" and h: "\<not> cg h" "run h m1 = (e, m')"
      and run: "run_list run cg xs mg = (SR_ERR_OK, \<lambda>f. cg f \<or> f \<in> set xs, m1)"
      and c: "c = (\<lambda>f. cg f \<or> f \<in> set xs \<or> f = h)"
      by auto
    have cg: "cg f \<longleftrightarrow> called f \<or> f = g" for f
      by (auto simp: cg_def)
    have "run_list run called (g # xs) m = (SR_ERR_OK, \<lambda>f. called f \<or> f \<in> set (g # xs), m1)"
      using True run by (auto simp: cg_def mg_def fun_eq_iff split: prod.splits if_splits)
    with fs h c show ?thesis
      by (intro exI [of _ "g # xs"]) (auto simp: cg fun_eq_iff)
  qed
qed simp


section \<open>The contract of a registration list\<close>

text \<open>
  What \<open>SC_DECLARE_FUNCTION\<close> promises for either tag, and what follows for a whole set
  of plugins: their constructors leave the functions in reverse order, their destructors
  empty the list in whatever order they run.
\<close>

locale registration_list =
  fixes add :: "'f \<Rightarrow> 'p \<Rightarrow> 'p"
    and rm :: "'f \<Rightarrow> 'p \<Rightarrow> 'p outcome option"
    and members :: "'p \<Rightarrow> 'f list \<Rightarrow> bool"
  assumes add_members: "members pm fs \<Longrightarrow> f \<notin> set fs \<Longrightarrow> members (add f pm) (f # fs)"
    and rm_members: "members pm fs \<Longrightarrow> f \<in> set fs \<Longrightarrow>
      \<exists>pm'. rm f pm = Some (Val pm') \<and> members pm' (remove1 f fs)"
    and rm_empty: "members pm [] \<Longrightarrow> rm f pm = Some (Undef NullPointer)"
begin

lemma add_all: "members pm gs \<Longrightarrow> distinct (fs @ gs) \<Longrightarrow> members (fold add fs pm) (rev fs @ gs)"
proof (induction fs arbitrary: pm gs)
  case (Cons f fs)
  then have "members (add f pm) (f # gs)"
    by (simp add: add_members)
  from Cons.IH [OF this] Cons.prems show ?case
    by simp
qed simp

lemma rm_all:
  "members pm fs \<Longrightarrow> distinct fs \<Longrightarrow> distinct gs \<Longrightarrow> set gs = set fs \<Longrightarrow>
    \<exists>pm'. unregister rm gs pm = Some (Val pm') \<and> members pm' []"
proof (induction gs arbitrary: pm fs)
  case (Cons g gs)
  then obtain pm' where "rm g pm = Some (Val pm')" "members pm' (remove1 g fs)"
    using rm_members [of pm fs g] by auto
  moreover have "set gs = set (remove1 g fs)"
    using Cons.prems by auto
  ultimately show ?case
    using Cons.IH [of pm' "remove1 g fs"] Cons.prems by simp
qed simp

lemma add_then_rm_all:
  assumes "members pm []" "distinct fs" "distinct gs" "set gs = set fs"
  shows "\<exists>pm'. unregister rm gs (fold add fs pm) = Some (Val pm') \<and> members pm' []"
  using rm_all [OF add_all [OF assms(1), of fs]] assms(2-4) by simp

end

abbreviation init_members :: "('f, 'm) sc_plugin_main_t \<Rightarrow> 'f list \<Rightarrow> bool" where
  "init_members pm \<equiv> registered (init_function_registrations pm)"

abbreviation exit_members :: "('f, 'm) sc_plugin_main_t \<Rightarrow> 'f list \<Rightarrow> bool" where
  "exit_members pm \<equiv> registered (exit_function_registrations pm)"

lemma sc_rm_member:
  assumes "registered r fs" "f \<in> set fs"
  shows "\<exists>r'. sc_rm f r = Some (Val r') \<and> registered r' (remove1 f fs)"
proof -
  have "fs \<noteq> []"
    using assms(2) by auto
  from sc_rm_registered [OF assms(1) this] show ?thesis
    by blast
qed

interpretation init_list: registration_list sc_add_init_function sc_rm_init_function init_members
proof unfold_locales
  fix pm :: "('f, 'm) sc_plugin_main_t" and fs f
  assume "init_members pm fs" "f \<in> set fs"
  from sc_rm_member [OF this] show "\<exists>pm'. sc_rm_init_function f pm = Some (Val pm') \<and> init_members pm' (remove1 f fs)"
    by (force simp: sc_rm_init_function_def)
qed (simp_all add: sc_add_init_function_def sc_rm_init_function_def registered_sc_add sc_rm_empty)

interpretation exit_list: registration_list sc_add_exit_function sc_rm_exit_function exit_members
proof unfold_locales
  fix pm :: "('f, 'm) sc_plugin_main_t" and fs f
  assume "exit_members pm fs" "f \<in> set fs"
  from sc_rm_member [OF this] show "\<exists>pm'. sc_rm_exit_function f pm = Some (Val pm') \<and> exit_members pm' (remove1 f fs)"
    by (force simp: sc_rm_exit_function_def)
qed (simp_all add: sc_add_exit_function_def sc_rm_exit_function_def registered_sc_add sc_rm_empty)


lemma sc_call_all_exit_run_list:
  assumes "exit_members pm fs"
  shows "sc_call_all_exit_function run pm =
    (case run_list (\<lambda>f m. (SR_ERR_OK, run f m)) (called_of (exit_function_registrations pm)) fs (ctx pm) of (_, c, m) \<Rightarrow>
       Some (pm\<lparr>exit_function_registrations := set_flags (exit_function_registrations pm) c, ctx := m\<rparr>))"
proof -
  have "chain (exit_function_registrations pm) (first (exit_function_registrations pm)) fs"
    using assms by (simp add: registered_def)
  then show ?thesis
    by (simp add: sc_call_all_exit_function_def call_all_exit_loop_eq split: prod.split)
qed

lemma run_list_exit:
  "distinct fs \<Longrightarrow> run_list (\<lambda>f m. (SR_ERR_OK, run f m)) c fs m =
    (SR_ERR_OK, \<lambda>f. c f \<or> f \<in> set fs, fold run (filter (\<lambda>f. \<not> c f) fs) m)"
proof (induction fs arbitrary: c m)
  case (Cons g fs)
  then have "filter (\<lambda>f. \<not> (c(g := True)) f) fs = filter (\<lambda>f. \<not> c f) fs"
    by (intro filter_cong) auto
  with Cons show ?case
    by (auto simp: fun_eq_iff simp del: fun_upd_apply) (auto split: if_splits)
qed simp


section \<open>Properties\<close>

text \<open>The list heads of the zero-initialised global before any constructor ran.\<close>

definition fresh_main :: "'m \<Rightarrow> ('f, 'm) sc_plugin_main_t" where
  "fresh_main m =
     (let r = \<lparr>first = None, elt = (\<lambda>f. \<lparr>next_elt = None, func = f, is_called = False\<rparr>)\<rparr>
      in \<lparr>ctx = m, init_function_registrations = r, exit_function_registrations = r\<rparr>)"

lemma fresh_main_members [simp]: "init_members (fresh_main m) []" "exit_members (fresh_main m) []"
  by (simp_all add: fresh_main_def registered_def Let_def)

lemma fold_add_flags:
  "\<not> called_of (init_function_registrations pm) f \<Longrightarrow>
    \<not> called_of (init_function_registrations (fold sc_add_init_function fs pm)) f"
  by (induction fs arbitrary: pm) (auto simp: sc_add_init_function_def sc_add_def)

lemma sc_call_all_init_run_list:
  assumes "init_members pm fs"
  shows "sc_call_all_init_function run pm =
    (case run_list run (called_of (init_function_registrations pm)) fs (ctx pm) of (ret, c, m) \<Rightarrow>
       Some (ret, pm\<lparr>init_function_registrations := set_flags (init_function_registrations pm) c,
                     ctx := m\<rparr>))"
  using assms call_all_init_loop_eq [of "init_function_registrations pm" _ fs run "ctx pm"]
  by (simp add: sc_call_all_init_function_def registered_def split: prod.split)

text \<open>
  The constructors that \<open>SC_INIT_FUNCTION\<close> and \<open>SC_EXIT_FUNCTION\<close> generate build
  both linked lists in the reverse of the order in which they run.
\<close>

lemma registration_order:
  assumes "init_members pm []" "exit_members pm []" "distinct fs" "distinct gs"
  shows "init_members (fold sc_add_init_function fs pm) (rev fs) \<and>
    exit_members (fold sc_add_exit_function gs pm) (rev gs)"
  using init_list.add_all [OF assms(1), of fs] exit_list.add_all [OF assms(2), of gs] assms(3,4) by simp

text \<open>
  The destructors take every function out of its list again: run after the
  constructors, in any order, they never dereference a null pointer and leave both lists
  empty.
\<close>

lemma registration_undone:
  assumes "init_members pm []" "exit_members pm []"
    and "distinct fs" "distinct gs" "set gs = set fs"
  shows "(\<exists>pm'. unregister sc_rm_init_function gs (fold sc_add_init_function fs pm) = Some (Val pm') \<and>
      init_members pm' []) \<and>
    (\<exists>pm'. unregister sc_rm_exit_function gs (fold sc_add_exit_function fs pm) = Some (Val pm') \<and>
      exit_members pm' [])"
  using init_list.add_then_rm_all [OF assms(1,3,4,5)] exit_list.add_then_rm_all [OF assms(2,3,4,5)]
  by blast

text \<open>
  Removing a function from a registration list implements \<open>remove1\<close> on the list the
  chain represents and keeps every flag; on an empty list the destructor dereferences the
  null head.
\<close>

lemma sc_rm_refines_remove1:
  assumes "registered r fs"
  shows "if fs = [] then sc_rm f r = Some (Undef NullPointer)
    else \<exists>r'. sc_rm f r = Some (Val r') \<and> registered r' (remove1 f fs) \<and> called_of r' = called_of r"
  using sc_rm_registered [OF assms] sc_rm_empty assms by auto

text \<open>
  (C8) \<open>sc_call_all_init_function\<close> terminates on every well-formed list and does on the
  linked nodes what \<open>run_list\<close> does on the list of functions: call those whose flag is
  unset, from the head, set their flags, stop at the first result that is not
  \<open>SR_ERR_OK\<close> and return it.
\<close>

theorem call_all_init_refines_run_list:
  assumes "init_members pm fs"
  shows "sc_call_all_init_function run pm =
    (case run_list run (called_of (init_function_registrations pm)) fs (ctx pm) of (ret, c, m) \<Rightarrow>
       Some (ret, pm\<lparr>init_function_registrations := set_flags (init_function_registrations pm) c,
                     ctx := m\<rparr>))"
  by (rule sc_call_all_init_run_list [OF assms])

theorem call_all_init_refines_run_list_witness:
  "\<exists>pm'. sc_call_all_init_function (\<lambda>f m. (SR_ERR_OK, m @ [f]))
      (fold sc_add_init_function [1, 2, 3 :: nat] (fresh_main [])) = Some (SR_ERR_OK, pm') \<and>
    ctx pm' = [3, 2, 1]"
proof -
  let ?pm = "fold sc_add_init_function [1, 2, 3 :: nat] (fresh_main [])"
  have m: "init_members ?pm [3, 2, 1]"
    using init_list.add_all [of "fresh_main []" "[]" "[1, 2, 3 :: nat]"] by simp
  show ?thesis
    unfolding call_all_init_refines_run_list [OF m]
    by (simp add: sc_add_init_function_def sc_add_def fresh_main_def Let_def)
qed

text \<open>
  Where initialisation fails, exactly the functions before the failing one and that
  one are marked as called: the failing function returned the reported error, all before
  it succeeded, and none behind it was called.
\<close>

lemma call_all_init_error:
  assumes "init_members pm fs" "\<forall>f. \<not> called_of (init_function_registrations pm) f"
    and "sc_call_all_init_function run pm = Some (e, pm')" "e \<noteq> SR_ERR_OK"
  shows "\<exists>xs g ys m1. fs = xs @ g # ys \<and>
    run_list run (\<lambda>f. False) xs (ctx pm) = (SR_ERR_OK, \<lambda>f. f \<in> set xs, m1) \<and>
    run g m1 = (e, ctx pm') \<and>
    called_of (init_function_registrations pm') = (\<lambda>f. f \<in> set (xs @ [g]))"
proof -
  obtain c m' where r: "run_list run (\<lambda>f. False) fs (ctx pm) = (e, c, m')"
    and pm': "ctx pm' = m'" "called_of (init_function_registrations pm') = c"
    using assms(2,3) unfolding sc_call_all_init_run_list [OF assms(1)]
    by (auto split: prod.splits)
  from run_list_error [OF r assms(4)] assms(1) show ?thesis
    unfolding pm' registered_def by fastforce
qed

text \<open>
  Every registered function is called at most once: after a successful run of
  \<open>sc_call_all_init_function\<close> neither a second run nor a call of a single function
  through \<open>sc_call_init_function\<close> runs anything again.
\<close>

lemma call_all_init_once:
  assumes "init_members pm fs"
    and "sc_call_all_init_function run pm = Some (SR_ERR_OK, pm')"
  shows "sc_call_all_init_function run' pm' = Some (SR_ERR_OK, pm') \<and>
    sc_call_init_function run' f pm' = Some (SR_ERR_OK, pm')"
proof -
  obtain c m' where r: "run_list run (called_of (init_function_registrations pm)) fs (ctx pm) = (SR_ERR_OK, c, m')"
    and pm': "pm' = pm\<lparr>init_function_registrations := set_flags (init_function_registrations pm) c, ctx := m'\<rparr>"
    using assms(2) unfolding sc_call_all_init_run_list [OF assms(1)]
    by (auto split: prod.splits)
  have c: "\<forall>g \<in> set fs. c g"
    using run_list_flags [OF r] by simp
  have chain: "chain (init_function_registrations pm') (first (init_function_registrations pm')) fs"
    using assms(1) by (simp add: pm' registered_def)
  show ?thesis
    using c call_all_init_loop_eq [OF chain, of run' "ctx pm'"] call_init_loop_eq [OF chain, of run' f "ctx pm'"]
    by (auto simp: sc_call_all_init_function_def sc_call_init_function_def pm' run_list_all_called)
qed

text \<open>
  \<open>sc_call_all_exit_function\<close> terminates and calls, in list order, exactly the exit
  functions that were not called before; afterwards all are marked.
\<close>

lemma call_all_exit_runs_all:
  assumes "exit_members pm fs"
  shows "\<exists>pm'. sc_call_all_exit_function run pm = Some pm' \<and>
    ctx pm' = fold run (filter (\<lambda>f. \<not> called_of (exit_function_registrations pm) f) fs) (ctx pm) \<and>
    called_of (exit_function_registrations pm') = (\<lambda>f. called_of (exit_function_registrations pm) f \<or> f \<in> set fs)"
proof -
  have "distinct fs"
    using assms by (simp add: registered_def)
  then show ?thesis
    by (simp add: sc_call_all_exit_run_list [OF assms] run_list_exit)
qed

end
