(* ===== verification/Subscriptions.thy ===== *)
theory Subscriptions
  imports Sc_Init
begin

text \<open>
  The functions \<open>ietf_interface_init\<close>, \<open>ietf_nat_init\<close> and
  \<open>openconfig_interface_init\<close>, which subscribe the callbacks of the three plugin files
  with sysrepo, and their empty exit functions. Sysrepo's two subscription functions are a
  parameter.
\<close>

section \<open>Requests\<close>

datatype callback =
    Ietf_interface_create_cb
  | Ietf_interface_ipv46_address_change_cb
  | Ietf_interface_state_cb
  | Interface_statistics_cb
  | Nat_instance_config_cb
  | Nat_mapping_table_config_cb
  | Nat_cap_state_cb
  | Oc_interfaces_config_cb
  | Oc_interfaces_state_cb

text \<open>
  \<open>sr_subtree_change_subscribe\<close> with its priority, \<open>sr_dp_get_items_subscribe\<close>; all
  calls pass \<open>SR_SUBSCR_CTX_REUSE\<close> and no private context.
\<close>

datatype request =
    Subtree_change (req_xpath: string) (req_cb: callback) (req_priority: nat)
  | Dp_get_items (req_xpath: string) (req_cb: callback)

text \<open>The fields \<open>session\<close> and \<open>subscription\<close> of \<open>sc_plugin_main_t\<close>.\<close>

record ('sess, 'sub) plugin_ctx =
  pm_session :: "'sess option"
  pm_subscription :: "'sub option"

text \<open>A subscription call: its result code and the new subscription context.\<close>

type_synonym ('sess, 'sub) subscriber = "request \<Rightarrow> 'sess option \<Rightarrow> 'sub option \<Rightarrow> sr_error \<times> 'sub option"

text \<open>\<open>rc = sr_...(...); if (rc != SR_ERR_OK) goto error;\<close> for each request in turn\<close>

fun subscribe_seq ::
    "('sess, 'sub) subscriber \<Rightarrow> request list \<Rightarrow> ('sess, 'sub) plugin_ctx \<Rightarrow> sr_error \<times> ('sess, 'sub) plugin_ctx" where
  "subscribe_seq subscribe [] pm = (SR_ERR_OK, pm)"
| "subscribe_seq subscribe (q # qs) pm =
     (case subscribe q (pm_session pm) (pm_subscription pm) of (rc, sub) \<Rightarrow>
        (let pm' = pm\<lparr>pm_subscription := sub\<rparr>
         in if rc \<noteq> SR_ERR_OK then (rc, pm') else subscribe_seq subscribe qs pm'))"


section \<open>The init and exit functions\<close>

definition ietf_interface_requests :: "request list" where
  "ietf_interface_requests =
     [Subtree_change ''/ietf-interfaces:interfaces/interface'' Ietf_interface_create_cb 100,
      Subtree_change ''/ietf-interfaces:interfaces/interface/ietf-ip:ipv4/address''
        Ietf_interface_ipv46_address_change_cb 99,
      Subtree_change ''/ietf-interfaces:interfaces/interface/ietf-ip:ipv6/address''
        Ietf_interface_ipv46_address_change_cb 98,
      Dp_get_items ''/ietf-interfaces:interfaces-state'' Ietf_interface_state_cb,
      Dp_get_items ''/ietf-interfaces:interfaces-state/interface/statistics'' Interface_statistics_cb]"

definition ietf_interface_init :: "('sess, 'sub) subscriber \<Rightarrow> ('sess, 'sub) plugin_ctx \<Rightarrow> sr_error \<times> ('sess, 'sub) plugin_ctx" where
  "ietf_interface_init subscribe pm = subscribe_seq subscribe ietf_interface_requests pm"

definition ietf_interface_exit :: "('sess, 'sub) plugin_ctx \<Rightarrow> ('sess, 'sub) plugin_ctx" where
  "ietf_interface_exit pm = pm"

definition ietf_nat_requests :: "request list" where
  "ietf_nat_requests =
     [Subtree_change ''/ietf-nat:nat/instances/instance'' Nat_instance_config_cb 1,
      Subtree_change ''/ietf-nat:nat/instances/instance/mapping-table/mapping-entry'' Nat_mapping_table_config_cb 10,
      Dp_get_items ''/ietf-nat:nat/instances/instance/capabilities'' Nat_cap_state_cb]"

definition ietf_nat_init :: "('sess, 'sub) subscriber \<Rightarrow> ('sess, 'sub) plugin_ctx \<Rightarrow> sr_error \<times> ('sess, 'sub) plugin_ctx" where
  "ietf_nat_init subscribe pm = subscribe_seq subscribe ietf_nat_requests pm"

definition ietf_nat_exit :: "('sess, 'sub) plugin_ctx \<Rightarrow> ('sess, 'sub) plugin_ctx" where
  "ietf_nat_exit pm = pm"

definition openconfig_interface_requests :: "request list" where
  "openconfig_interface_requests =
     [Subtree_change ''/openconfig-interfaces:interfaces/interface/config'' Oc_interfaces_config_cb 98,
      Dp_get_items ''/openconfig-interfaces:interfaces/interface/state'' Oc_interfaces_state_cb]"

definition openconfig_interface_init ::
    "('sess, 'sub) subscriber \<Rightarrow> ('sess, 'sub) plugin_ctx \<Rightarrow> sr_error \<times> ('sess, 'sub) plugin_ctx" where
  "openconfig_interface_init subscribe pm = subscribe_seq subscribe openconfig_interface_requests pm"

definition openconfig_interface_exit :: "('sess, 'sub) plugin_ctx \<Rightarrow> ('sess, 'sub) plugin_ctx" where
  "openconfig_interface_exit pm = pm"

text \<open>The functions that \<open>SC_INIT_FUNCTION\<close> and \<open>SC_EXIT_FUNCTION\<close> register.\<close>

datatype plugin = Ietf_interface | Ietf_nat | Openconfig_interface

fun run_init :: "('sess, 'sub) subscriber \<Rightarrow> plugin \<Rightarrow> ('sess, 'sub) plugin_ctx \<Rightarrow> sr_error \<times> ('sess, 'sub) plugin_ctx" where
  "run_init subscribe Ietf_interface pm = ietf_interface_init subscribe pm"
| "run_init subscribe Ietf_nat pm = ietf_nat_init subscribe pm"
| "run_init subscribe Openconfig_interface pm = openconfig_interface_init subscribe pm"

fun run_exit :: "plugin \<Rightarrow> ('sess, 'sub) plugin_ctx \<Rightarrow> ('sess, 'sub) plugin_ctx" where
  "run_exit Ietf_interface pm = ietf_interface_exit pm"
| "run_exit Ietf_nat pm = ietf_nat_exit pm"
| "run_exit Openconfig_interface pm = openconfig_interface_exit pm"

fun requests_of :: "plugin \<Rightarrow> request list" where
  "requests_of Ietf_interface = ietf_interface_requests"
| "requests_of Ietf_nat = ietf_nat_requests"
| "requests_of Openconfig_interface = openconfig_interface_requests"


text \<open>The priorities with which a callback is subscribed.\<close>

fun priorities_of :: "callback \<Rightarrow> request list \<Rightarrow> nat list" where
  "priorities_of cb [] = []"
| "priorities_of cb (Subtree_change xp c p # qs) = (if c = cb then p # priorities_of cb qs else priorities_of cb qs)"
| "priorities_of cb (Dp_get_items xp c # qs) = priorities_of cb qs"


section \<open>Sequences of subscriptions\<close>

lemma subscribe_seq_append:
  "subscribe_seq subscribe (qs @ qs') pm =
     (case subscribe_seq subscribe qs pm of (rc, pm') \<Rightarrow>
        if rc \<noteq> SR_ERR_OK then (rc, pm') else subscribe_seq subscribe qs' pm')"
  by (induction qs arbitrary: pm) (auto simp: Let_def split: prod.split)

lemma run_init_eq: "run_init subscribe f = subscribe_seq subscribe (requests_of f)"
  by (cases f) (auto simp: fun_eq_iff ietf_interface_init_def ietf_nat_init_def openconfig_interface_init_def)

text \<open>Running the init functions of a list of plugins is one sequence of subscriptions.\<close>

lemma run_list_subscribe_seq:
  "distinct fs \<Longrightarrow> \<forall>f \<in> set fs. \<not> called f \<Longrightarrow>
    (case run_list (run_init subscribe) called fs pm of (rc, _, pm') \<Rightarrow> (rc, pm')) =
    subscribe_seq subscribe (concat (map requests_of fs)) pm"
proof (induction fs arbitrary: called pm)
  case (Cons f fs)
  have "\<forall>g \<in> set fs. \<not> (called(f := True)) g"
    using Cons.prems by auto
  then show ?case
    using Cons by (auto simp: run_init_eq subscribe_seq_append split: prod.split)
qed simp

lemma subscribe_seq_error:
  assumes "subscribe_seq subscribe qs pm = (e, pm')" "e \<noteq> SR_ERR_OK"
  shows "\<exists>qs1 q qs2 pm1. qs = qs1 @ q # qs2 \<and>
    subscribe_seq subscribe qs1 pm = (SR_ERR_OK, pm1) \<and>
    subscribe q (pm_session pm1) (pm_subscription pm1) = (e, pm_subscription pm') \<and>
    pm' = pm1\<lparr>pm_subscription := pm_subscription pm'\<rparr>"
  using assms
proof (induction qs arbitrary: pm)
  case (Cons q qs)
  obtain rc sub where sub: "subscribe q (pm_session pm) (pm_subscription pm) = (rc, sub)"
    by fastforce
  show ?case
  proof (cases "rc = SR_ERR_OK")
    case True
    with Cons sub obtain qs1 q' qs2 pm1 where "qs = qs1 @ q' # qs2"
      "subscribe_seq subscribe qs1 (pm\<lparr>pm_subscription := sub\<rparr>) = (SR_ERR_OK, pm1)"
      "subscribe q' (pm_session pm1) (pm_subscription pm1) = (e, pm_subscription pm')"
      "pm' = pm1\<lparr>pm_subscription := pm_subscription pm'\<rparr>"
      by (fastforce simp: Let_def)
    with True sub have "q # qs = (q # qs1) @ q' # qs2 \<and>
        subscribe_seq subscribe (q # qs1) pm = (SR_ERR_OK, pm1) \<and>
        subscribe q' (pm_session pm1) (pm_subscription pm1) = (e, pm_subscription pm') \<and>
        pm' = pm1\<lparr>pm_subscription := pm_subscription pm'\<rparr>"
      by (simp add: Let_def)
    then show ?thesis
      by blast
  next
    case False
    with Cons.prems sub have "q # qs = [] @ q # qs \<and> subscribe_seq subscribe [] pm = (SR_ERR_OK, pm) \<and>
        subscribe q (pm_session pm) (pm_subscription pm) = (e, pm_subscription pm') \<and>
        pm' = pm\<lparr>pm_subscription := pm_subscription pm'\<rparr>"
      by (auto simp: Let_def)
    then show ?thesis
      by blast
  qed
qed simp

lemma run_exit_id [simp]: "run_exit f pm = pm"
  by (cases f) (simp_all add: ietf_interface_exit_def ietf_nat_exit_def openconfig_interface_exit_def)

lemma subscribe_seq_ok:
  assumes "\<And>q se sub. q \<in> set qs \<Longrightarrow> fst (subscribe q se sub) = SR_ERR_OK"
  shows "subscribe_seq subscribe qs pm =
    (SR_ERR_OK, pm\<lparr>pm_subscription := fold (\<lambda>q sub. snd (subscribe q (pm_session pm) sub)) qs (pm_subscription pm)\<rparr>)"
  using assms
proof (induction qs arbitrary: pm)
  case (Cons q qs)
  obtain sub where "subscribe q (pm_session pm) (pm_subscription pm) = (SR_ERR_OK, sub)"
    using Cons.prems [of q "pm_session pm" "pm_subscription pm"] by (metis list.set_intros(1) prod.collapse)
  with Cons show ?case
    by (simp add: Let_def)
qed simp


section \<open>Properties\<close>

text \<open>
  The subscriptions of the three plugin files: no xpath is subscribed twice, and the
  callback for interfaces has a higher priority than the callbacks for the addresses below
  them, so that sysrepo calls it first.
\<close>

lemma subscriptions_consistent:
  "distinct (map req_xpath (concat (map requests_of [Ietf_interface, Ietf_nat, Openconfig_interface]))) \<and>
   list_all (\<lambda>p. list_all (\<lambda>p'. p < p') (priorities_of Ietf_interface_create_cb (requests_of Ietf_interface)))
     (priorities_of Ietf_interface_ipv46_address_change_cb (requests_of Ietf_interface))"
  by code_simp

text \<open>
  An init function makes its subscriptions in order up to and including the first one
  that fails, whose code it returns; each call gets the context that the previous one left.
\<close>

lemma init_stops_at_first_error:
  assumes "run_init subscribe f pm = (e, pm')" "e \<noteq> SR_ERR_OK"
  shows "\<exists>qs q qs' pm1. requests_of f = qs @ q # qs' \<and>
    subscribe_seq subscribe qs pm = (SR_ERR_OK, pm1) \<and>
    subscribe q (pm_session pm1) (pm_subscription pm1) = (e, pm_subscription pm') \<and>
    pm' = pm1\<lparr>pm_subscription := pm_subscription pm'\<rparr>"
  using assms unfolding run_init_eq by (rule subscribe_seq_error)

end
