(* ===== verification/Commit.thy ===== *)
theory Commit
  imports System Subscriptions "HOL-Library.Multiset"
begin

text \<open>
  A commit that touches several subscribed subtrees. Sysrepo decides which callbacks it
  notifies and in which order; a schedule is a list of subscription requests. What sysrepo
  documents of it is stated as the predicate \<open>by_priority\<close>: callbacks with a higher
  priority are notified first.
\<close>

section \<open>Notifying the callbacks\<close>

text \<open>
  The function that a subscription request names, on the state of VOM and of the mapping
  table. The providers of operational data are never notified of changes.
\<close>

definition notify ::
    "byte_order \<Rightarrow> sr_api \<Rightarrow> 'a net_api \<Rightarrow> ('s, 'i, 'p, 'a) vom_api \<Rightarrow> uninit \<Rightarrow> nat_uninit \<Rightarrow> session \<Rightarrow>
     sr_event \<Rightarrow> request \<Rightarrow> 's \<times> 'a nat_table_t \<Rightarrow> (sr_error \<times> 's \<times> 'a nat_table_t) outcome" where
  "notify order api net vom mem nmem ds event q st =
     (let on_vom = (\<lambda>m. bindO m (\<lambda>(rc, s'). Val (rc, s', snd st))) in
      case req_cb q of
        Ietf_interface_create_cb \<Rightarrow> on_vom (ietf_interface_create_cb api vom mem ds (req_xpath q) event (fst st))
      | Ietf_interface_ipv46_address_change_cb \<Rightarrow>
          on_vom (ietf_interface_ipv46_address_change_cb order api net vom ds (req_xpath q) event (fst st))
      | Oc_interfaces_config_cb \<Rightarrow>
          on_vom (oc_interfaces_config_cb api vom mem (Some ds) (Some (req_xpath q)) event (fst st))
      | Nat_instance_config_cb \<Rightarrow> nat_instance_config_cb (Some ds) (Some (req_xpath q)) event st
      | Nat_mapping_table_config_cb \<Rightarrow>
          nat_mapping_table_config_cb api net vom nmem (Some ds) (Some (req_xpath q)) event st
      | _ \<Rightarrow> Val (SR_ERR_OK, st))"

text \<open>The notifications of a phase, up to the first refusal.\<close>

fun verify_all ::
    "(request \<Rightarrow> 'st \<Rightarrow> (sr_error \<times> 'st) outcome) \<Rightarrow> request list \<Rightarrow> 'st \<Rightarrow> (sr_error \<times> 'st) outcome" where
  "verify_all call [] st = Val (SR_ERR_OK, st)"
| "verify_all call (q # qs) st =
     bindO (call q st) (\<lambda>(rc, st'). if rc \<noteq> SR_ERR_OK then Val (rc, st') else verify_all call qs st')"

text \<open>The notifications that a commit is aborted; their results are of no interest.\<close>

fun abort_all ::
    "(request \<Rightarrow> 'st \<Rightarrow> (sr_error \<times> 'st) outcome) \<Rightarrow> request list \<Rightarrow> 'st \<Rightarrow> 'st outcome" where
  "abort_all call [] st = Val st"
| "abort_all call (q # qs) st = bindO (call q st) (\<lambda>(rc, st'). abort_all call qs st')"

text \<open>Each subscription to changes is notified, those with a higher priority first.\<close>

definition by_priority :: "request list \<Rightarrow> request list \<Rightarrow> bool" where
  "by_priority qs subs \<longleftrightarrow>
     mset qs = mset (filter is_Subtree_change subs) \<and> sorted (map req_priority (rev qs))"

text \<open>
  What VOM documents: an interface that was written is found by its name, and stays so when
  address bindings are written. \<open>known\<close> are the states in which the interface \<open>i\<close> with
  name \<open>n\<close> exists and VPP accepts bindings to it.
\<close>

definition accepts_bindings :: "('s, 'i, 'p, 'a) vom_api \<Rightarrow> string \<Rightarrow> 'i \<Rightarrow> ('s \<Rightarrow> bool) \<Rightarrow> bool" where
  "accepts_bindings vom n i known \<longleftrightarrow>
     (\<forall>s. known s \<longrightarrow> interface_find vom n s = Some i \<and>
        (\<forall>key pfx. \<exists>s'. om_write_l3 vom key i pfx s = (RC_OK, s') \<and> known s'))"

definition well_formed_address :: "('s, 'i, 'p, 'a) vom_api \<Rightarrow> string \<Rightarrow> bool" where
  "well_formed_address vom a \<longleftrightarrow> a \<noteq> [] \<and> (\<forall>q. \<exists>pfx. prefix_t vom a q = Inr pfx)"


section \<open>Schedules\<close>

lemma by_priority_unique:
  assumes "by_priority qs subs" "inj_on req_priority (set (filter is_Subtree_change subs))"
  shows "qs = rev (sort_key req_priority (filter is_Subtree_change subs))"
proof -
  have "sort_key req_priority (filter is_Subtree_change subs) = rev qs"
    using assms by (intro sort_key_inj_key_eq) (auto simp: by_priority_def)
  then show ?thesis
    by (metis rev_rev_ident)
qed

lemma ietf_interface_schedule:
  assumes "by_priority qs ietf_interface_requests"
  shows "qs = take 3 ietf_interface_requests"
proof -
  have "inj_on req_priority (set (filter is_Subtree_change ietf_interface_requests))"
    by (simp add: ietf_interface_requests_def inj_on_def)
  from by_priority_unique [OF assms this] show ?thesis
    by (simp add: ietf_interface_requests_def)
qed


section \<open>Address bindings\<close>

lemma accepted_add:
  assumes "accepts_bindings vom n i known" "known s" "well_formed_address vom a"
  shows "\<exists>s'. ipv46_config_add_remove vom n a p True s = (SR_ERR_OK, s') \<and> known s'"
proof -
  obtain pfx where pfx: "prefix_t vom a p = Inr pfx"
    using assms(3) by (auto simp: well_formed_address_def)
  let ?key = "l3_key (interface_itf_name vom i s) (prefix_t_to_string vom pfx)"
  obtain s' where "interface_find vom n s = Some i" "om_write_l3 vom ?key i pfx s = (RC_OK, s')" "known s'"
    using assms(1,2) unfolding accepts_bindings_def by blast
  with pfx show ?thesis
    by (simp add: ipv46_config_add_remove_def Let_def)
qed

lemma accepted_addresses:
  assumes "accepts_bindings vom n i known" "known s" "\<forall>ap \<in> set aps. well_formed_address vom (fst ap)"
  shows "\<exists>s'. config_addresses vom True n prev aps (SR_ERR_OK, s) = (SR_ERR_OK, s') \<and> known s'"
  using assms(2,3)
proof (induction aps arbitrary: prev s)
  case (Cons ap aps)
  obtain a p where ap: "ap = (a, p)" "well_formed_address vom a"
    using Cons.prems(2) by (cases ap) auto
  obtain s1 where s1: "ipv46_config_add_remove vom n a prev True s = (SR_ERR_OK, s1)" "known s1"
    using accepted_add [OF assms(1) Cons.prems(1) ap(2)] by blast
  obtain s2 where "ipv46_config_add_remove vom n a p True s1 = (SR_ERR_OK, s2)" "known s2"
    using accepted_add [OF assms(1) s1(2) ap(2)] by blast
  with Cons ap s1 show ?case
    by auto
qed simp

lemma config_addresses_append:
  "config_addresses vom add n prev (aps @ aps') r =
    config_addresses vom add n (last_or prev (map snd aps)) aps' (config_addresses vom add n prev aps r)"
  by (induction vom add n prev aps r rule: config_addresses.induct) simp_all


section \<open>Notifications of the IETF plugin\<close>

text \<open>The changes of one commit that creates the interface \<open>n\<close>, enabled or not.\<close>

definition creates_interface :: "sr_api \<Rightarrow> change list \<Rightarrow> string \<Rightarrow> bool \<Rightarrow> bool" where
  "creates_interface api cs n b \<longleftrightarrow>
     list_all (creates api (\<lambda>v. True)) cs \<and> names_of api (new_vals cs) \<noteq> [] \<and>
     last (names_of api (new_vals cs)) = n \<and> n \<noteq> [] \<and> ethernet \<in> set (types_of api (new_vals cs)) \<and>
     states_of api (new_vals cs) \<noteq> [] \<and> last (states_of api (new_vals cs)) = b"

definition interface_xpath :: string where
  "interface_xpath = ''/ietf-interfaces:interfaces/interface''"

definition ipv4_xpath :: string where
  "ipv4_xpath = ''/ietf-interfaces:interfaces/interface/ietf-ip:ipv4/address''"

definition ipv6_xpath :: string where
  "ipv6_xpath = ''/ietf-interfaces:interfaces/interface/ietf-ip:ipv6/address''"

lemmas xpath_defs = interface_xpath_def ipv4_xpath_def ipv6_xpath_def

lemma notify_created_interface:
  assumes "sr_get_changes_iter ds (req_xpath q) = (SR_ERR_OK, cs)" "creates_interface api cs n b"
    and "make_interface vom n ''ETHERNET'' b s = (i, s1)"
    and "om_write_interface vom (interface_key vom i s1) i s1 = (RC_OK, s2)" "req_cb q = Ietf_interface_create_cb"
  shows "notify order api net vom mem nmem ds SR_EV_VERIFY q (s, tbl) = Val (SR_ERR_OK, s2, tbl)"
proof -
  note cr = assms(2) [unfolded creates_interface_def list_all_iff]
  have "ietf_interface_create_cb api vom mem ds (req_xpath q) SR_EV_VERIFY s = Val (SR_ERR_OK, s2)"
    using cr assms(3,4)
    by (simp add: ietf_interface_create_cb_verify [OF assms(1)] ietf_body.run_created last_or_map Let_def write_result_def)
  with assms(5) show ?thesis
    by (simp add: notify_def)
qed

lemma notify_created_addresses:
  assumes "sr_get_changes_iter ds (req_xpath q) = (SR_ERR_OK, cs)" "address_blocks api SR_OP_CREATED new_val n aps cs"
    and "n \<noteq> []" "\<forall>ap \<in> set aps. fst ap \<noteq> []" "req_cb q = Ietf_interface_ipv46_address_change_cb"
  shows "notify order api net vom mem nmem ds SR_EV_VERIFY q (s, tbl) =
    (case config_addresses vom True n 0 aps (SR_ERR_OK, s) of (rc, s') \<Rightarrow> Val (rc, s', tbl))"
  using assms(5) addr_cb_created [OF assms(1-4), of order net vom s]
  by (simp add: notify_def split: prod.split)

lemma notify_abort: "notify order api net vom mem nmem ds SR_EV_ABORT q st = Val (rc, st') \<Longrightarrow> st' = st"
  by (cases "req_cb q"; cases "sr_get_changes_iter ds (req_xpath q)")
    (auto simp: notify_def ietf_cb.other_events oc_cb.other_events nat_cb.other_events nat_instance_config_cb_def
      ietf_interface_ipv46_address_change_cb_def foreach_change_def addr_start_def split: if_splits)

lemma abort_all_keeps:
  "abort_all (notify order api net vom mem nmem ds SR_EV_ABORT) qs st = Val st' \<Longrightarrow> st' = st"
  by (induction qs arbitrary: st) (auto simp: bindO_eq_Val dest: notify_abort)


section \<open>Properties\<close>

text \<open>
  (C5) A commit that creates an interface together with IPv4 and IPv6 addresses on it: with
  the priorities that the plugin subscribes with, sysrepo notifies the interface callback
  before the two address callbacks, so the interface is found, every address is bound, and
  the commit succeeds. The final state is that of the single calls in order.
\<close>

theorem commit_interface_with_addresses:
  assumes "by_priority qs ietf_interface_requests"
    and "sr_get_changes_iter ds interface_xpath = (SR_ERR_OK, cs)" "creates_interface api cs n b"
    and "sr_get_changes_iter ds ipv4_xpath = (SR_ERR_OK, cs4)" "address_blocks api SR_OP_CREATED new_val n aps4 cs4"
    and "sr_get_changes_iter ds ipv6_xpath = (SR_ERR_OK, cs6)" "address_blocks api SR_OP_CREATED new_val n aps6 cs6"
    and "\<forall>ap \<in> set (aps4 @ aps6). well_formed_address vom (fst ap)"
    and "make_interface vom n ''ETHERNET'' b s = (i, s1)"
    and "om_write_interface vom (interface_key vom i s1) i s1 = (RC_OK, s2)"
    and "accepts_bindings vom n i known" "known s2"
  shows "\<exists>s4 s6. config_addresses vom True n 0 aps4 (SR_ERR_OK, s2) = (SR_ERR_OK, s4) \<and>
    config_addresses vom True n 0 aps6 (SR_ERR_OK, s4) = (SR_ERR_OK, s6) \<and>
    verify_all (notify order api net vom mem nmem ds SR_EV_VERIFY) qs (s, tbl) = Val (SR_ERR_OK, s6, tbl)"
proof -
  obtain s4 where s4: "config_addresses vom True n 0 aps4 (SR_ERR_OK, s2) = (SR_ERR_OK, s4)" "known s4"
    using accepted_addresses [OF assms(11,12), of aps4 0] assms(8) by auto
  obtain s6 where s6: "config_addresses vom True n 0 aps6 (SR_ERR_OK, s4) = (SR_ERR_OK, s6)"
    using accepted_addresses [OF assms(11) s4(2), of aps6 0] assms(8) by auto
  have n: "n \<noteq> []" "\<forall>ap \<in> set aps4. fst ap \<noteq> []" "\<forall>ap \<in> set aps6. fst ap \<noteq> []"
    using assms(3,8) by (auto simp: creates_interface_def well_formed_address_def)
  note its = assms(2,4,6) [unfolded xpath_defs]
  show ?thesis
    using s4 s6
    by (simp add: ietf_interface_schedule [OF assms(1)] ietf_interface_requests_def
        notify_created_interface [OF _ assms(3,9,10)] its
        notify_created_addresses [OF _ assms(5) n(1,2)] notify_created_addresses [OF _ assms(7) n(1,3)])
qed

text \<open>A commit that creates \<open>eth0\<close> and one IPv4 address on it.\<close>

definition eth0_commit :: "string \<Rightarrow> session" where
  "eth0_commit a =
     \<lparr>sr_get_changes_iter = (\<lambda>xp. (SR_ERR_OK,
        if xp = interface_xpath then create_eth0 else if xp = ipv4_xpath then create_address a 24 else [])),
      end_clears = True\<rparr>"

definition eth0_known :: "sample_db \<Rightarrow> bool" where
  "eth0_known s \<longleftrightarrow> (''eth0'', Sample_Itf ''eth0'') \<in> set (objs s)"

lemma sample_accepts_bindings: "accepts_bindings sample_vom ''eth0'' ''eth0'' eth0_known"
  by (auto simp: accepts_bindings_def eth0_known_def sample_vom_def sample_put_def)

lemma eth0_commit_iters:
  "sr_get_changes_iter (eth0_commit a) interface_xpath = (SR_ERR_OK, create_eth0)"
  "sr_get_changes_iter (eth0_commit a) ipv4_xpath = (SR_ERR_OK, create_address a 24)"
  "sr_get_changes_iter (eth0_commit a) ipv6_xpath = (SR_ERR_OK, [])"
  by (simp_all add: eth0_commit_def xpath_defs)

lemma ietf_priorities: "by_priority (take 3 ietf_interface_requests) ietf_interface_requests"
  by (simp add: by_priority_def ietf_interface_requests_def)

lemma eth0_created: "creates_interface sample_api create_eth0 ''eth0'' True"
  by code_simp

lemma eth0_written:
  "make_interface sample_vom ''eth0'' ''ETHERNET'' True sample_empty = (''eth0'', eth0_db\<lparr>objs := []\<rparr>)"
  "om_write_interface sample_vom (interface_key sample_vom ''eth0'' (eth0_db\<lparr>objs := []\<rparr>)) ''eth0'' (eth0_db\<lparr>objs := []\<rparr>) =
    (RC_OK, eth0_db)"
  by (simp_all add: sample_vom_def sample_empty_def eth0_db_def sample_put_def)

lemma eth0_known_db: "eth0_known eth0_db"
  by (simp add: eth0_known_def eth0_db_def)

theorem commit_interface_with_addresses_witness:
  "\<exists>s. verify_all (notify Little_Endian sample_api sample_net sample_vom indeterminate nat_zeroed
        (eth0_commit ''10.0.0.1'') SR_EV_VERIFY) (take 3 ietf_interface_requests) (sample_empty, \<lambda>_. None) =
      Val (SR_ERR_OK, s, \<lambda>_. None) \<and> map fst (objs s) = [''l3_eth0_10.0.0.1/24'', ''l3_eth0_10.0.0.1/0'', ''eth0'']"
proof -
  have blk: "address_blocks sample_api SR_OP_CREATED new_val ''eth0'' [(''10.0.0.1'', 24)] (create_address ''10.0.0.1'' 24)"
    by code_simp
  have "address_blocks sample_api SR_OP_CREATED new_val ''eth0'' [] []"
    by simp
  note commit_interface_with_addresses [OF ietf_priorities eth0_commit_iters(1) eth0_created eth0_commit_iters(2) blk
      eth0_commit_iters(3) this _ eth0_written sample_accepts_bindings eth0_known_db, of Little_Endian sample_net
      indeterminate nat_zeroed "\<lambda>_. None"]
  moreover have "config_addresses sample_vom True ''eth0'' 0 [(''10.0.0.1'', 24)] (SR_ERR_OK, eth0_db) =
      (SR_ERR_OK, eth0_db\<lparr>objs := [(''l3_eth0_10.0.0.1/24'', Sample_L3 ''eth0'' ''10.0.0.1/24''),
        (''l3_eth0_10.0.0.1/0'', Sample_L3 ''eth0'' ''10.0.0.1/0''), (''eth0'', Sample_Itf ''eth0'')]\<rparr>)"
    by code_simp
  ultimately show ?thesis
    by (simp add: well_formed_address_def sample_vom_def sample_prefix_t_def)
qed

text \<open>
  The order matters: an address callback that is notified while its interface is not
  yet known refuses the commit with \<open>SR_ERR_INVAL_ARG\<close> and changes nothing, whatever
  callbacks would follow.
\<close>

lemma address_before_interface:
  assumes "sr_get_changes_iter ds (req_xpath q) = (SR_ERR_OK, cs)" "req_cb q = Ietf_interface_ipv46_address_change_cb"
    and "address_blocks api SR_OP_CREATED new_val n aps cs" "aps \<noteq> []" "n \<noteq> []" "\<forall>ap \<in> set aps. fst ap \<noteq> []"
    and "interface_find vom n s = None"
  shows "verify_all (notify order api net vom mem nmem ds SR_EV_VERIFY) (q # qs) (s, tbl) =
    Val (SR_ERR_INVAL_ARG, s, tbl)"
proof -
  have unknown: "ipv46_config_add_remove vom n a p True s = (SR_ERR_INVAL_ARG, s)" for a p
    using assms(7) by (simp add: ipv46_config_add_remove_def)
  have "config_addresses vom True n prev aps' (SR_ERR_INVAL_ARG, s) = (SR_ERR_INVAL_ARG, s)" for prev aps'
    by (induction aps' arbitrary: prev) (auto simp: unknown)
  moreover obtain a p aps' where "aps = (a, p) # aps'"
    using assms(4) by (metis list.exhaust surj_pair)
  ultimately have "config_addresses vom True n 0 aps (SR_ERR_OK, s) = (SR_ERR_INVAL_ARG, s)"
    by (simp add: unknown)
  then show ?thesis
    by (simp add: notify_created_addresses [OF assms(1,3,5,6,2)])
qed

text \<open>
  (C27) A commit is not atomic: if the last of the IPv4 addresses is malformed, the commit
  fails with \<open>SR_ERR_OPERATION_FAILED\<close>, but the interface and the other addresses have
  been written, and aborting the commit does not take them back.
\<close>

theorem failed_commit_keeps_interface:
  assumes "by_priority qs ietf_interface_requests"
    and "sr_get_changes_iter ds interface_xpath = (SR_ERR_OK, cs)" "creates_interface api cs n b"
    and "sr_get_changes_iter ds ipv4_xpath = (SR_ERR_OK, cs4)"
    and "address_blocks api SR_OP_CREATED new_val n (aps @ [(a, p)]) cs4"
    and "\<forall>ap \<in> set aps. well_formed_address vom (fst ap)" "a \<noteq> []" "\<forall>q. \<exists>e. prefix_t vom a q = Inl e"
    and "make_interface vom n ''ETHERNET'' b s = (i, s1)"
    and "om_write_interface vom (interface_key vom i s1) i s1 = (RC_OK, s2)"
    and "accepts_bindings vom n i known" "known s2"
  shows "\<exists>s4. config_addresses vom True n 0 aps (SR_ERR_OK, s2) = (SR_ERR_OK, s4) \<and> known s4 \<and>
    verify_all (notify order api net vom mem nmem ds SR_EV_VERIFY) qs (s, tbl) = Val (SR_ERR_OPERATION_FAILED, s4, tbl) \<and>
    (\<forall>qs' st. abort_all (notify order api net vom mem nmem ds SR_EV_ABORT) qs' (s4, tbl) = Val st \<longrightarrow> st = (s4, tbl))"
proof -
  obtain s4 where s4: "config_addresses vom True n 0 aps (SR_ERR_OK, s2) = (SR_ERR_OK, s4)" "known s4"
    using accepted_addresses [OF assms(11,12,6)] by blast
  have "ipv46_config_add_remove vom n a q True s4 = (SR_ERR_OPERATION_FAILED, s4)" for q
    using assms(8) assms(11) [unfolded accepts_bindings_def, rule_format, OF s4(2)]
    by (auto simp: ipv46_config_add_remove_def split: sum.split dest: spec [of _ q])
  then have bad: "config_addresses vom True n 0 (aps @ [(a, p)]) (SR_ERR_OK, s2) = (SR_ERR_OPERATION_FAILED, s4)"
    by (simp add: config_addresses_append s4)
  have n: "n \<noteq> []" "\<forall>ap \<in> set (aps @ [(a, p)]). fst ap \<noteq> []"
    using assms(3,6,7) by (auto simp: creates_interface_def well_formed_address_def)
  note its = assms(2,4) [unfolded xpath_defs]
  have "verify_all (notify order api net vom mem nmem ds SR_EV_VERIFY) qs (s, tbl) =
      Val (SR_ERR_OPERATION_FAILED, s4, tbl)"
    by (simp add: ietf_interface_schedule [OF assms(1)] ietf_interface_requests_def bad
        notify_created_interface [OF _ assms(3,9,10)] its notify_created_addresses [OF _ assms(5) n])
  with s4 show ?thesis
    by (blast dest: abort_all_keeps)
qed

theorem failed_commit_keeps_interface_witness:
  "verify_all (notify Little_Endian sample_api sample_net sample_vom indeterminate nat_zeroed
      (eth0_commit ''bad'') SR_EV_VERIFY) (take 3 ietf_interface_requests) (sample_empty, \<lambda>_. None) =
    Val (SR_ERR_OPERATION_FAILED, eth0_db, \<lambda>_. None)"
proof -
  have blk: "address_blocks sample_api SR_OP_CREATED new_val ''eth0'' ([] @ [(''bad'', 24)]) (create_address ''bad'' 24)"
    by code_simp
  note failed_commit_keeps_interface [OF ietf_priorities eth0_commit_iters(1) eth0_created eth0_commit_iters(2) blk
      _ _ _ eth0_written sample_accepts_bindings eth0_known_db, of Little_Endian sample_net indeterminate nat_zeroed
      "\<lambda>_. None"]
  then show ?thesis
    by (simp add: sample_vom_def sample_prefix_t_def)
qed

end
