(* ===== verification/Datastore.thy ===== *)
theory Datastore
  imports Sysrepo
begin

text \<open>
  The configuration datastore as the specification of a plugin: a commit that carries an
  edit of the datastore is accepted, and afterwards the plugin's state mirrors the edited
  datastore. What follows for sequences of commits is proved once, for every plugin that
  keeps this contract.
\<close>

section \<open>Sequences of commits\<close>

text \<open>
  A commit is a notification to verify and, if it is accepted, one to apply, whose result
  sysrepo ignores. A refusal ends the sequence.
\<close>

fun commit_all ::
    "(sr_event \<Rightarrow> 's \<Rightarrow> (sr_error \<times> 's) outcome) list \<Rightarrow> 's \<Rightarrow> (sr_error \<times> 's) outcome" where
  "commit_all [] s = Val (SR_ERR_OK, s)"
| "commit_all (cb # cbs) s =
     bindO (cb SR_EV_VERIFY s) (\<lambda>(rc, s').
       if rc \<noteq> SR_ERR_OK then Val (rc, s')
       else bindO (cb SR_EV_APPLY s') (\<lambda>r. commit_all cbs (snd r)))"

text \<open>Edits that the datastore admits one after the other\<close>

fun edits_valid :: "('e \<Rightarrow> 'm \<Rightarrow> bool) \<Rightarrow> ('e \<Rightarrow> 'm \<Rightarrow> 'm) \<Rightarrow> 'e list \<Rightarrow> 'm \<Rightarrow> bool" where
  "edits_valid valid edit [] m = True"
| "edits_valid valid edit (e # es) m = (valid e m \<and> edits_valid valid edit es (edit e m))"


section \<open>The contract\<close>

locale datastore =
  fixes cb :: "'c \<Rightarrow> sr_event \<Rightarrow> 's \<Rightarrow> (sr_error \<times> 's) outcome"
    and carries :: "'c \<Rightarrow> 'e \<Rightarrow> bool"
    and valid :: "'e \<Rightarrow> 'm \<Rightarrow> bool"
    and edit :: "'e \<Rightarrow> 'm \<Rightarrow> 'm"
    and mirrors :: "'s \<Rightarrow> 'm \<Rightarrow> bool"
  assumes verified: "mirrors s m \<Longrightarrow> valid e m \<Longrightarrow> carries c e \<Longrightarrow>
      \<exists>s'. cb c SR_EV_VERIFY s = Val (SR_ERR_OK, s') \<and> mirrors s' (edit e m)"
    and applied: "carries c e \<Longrightarrow> cb c SR_EV_APPLY s = Val (SR_ERR_OK, s)"
begin

lemma commits_mirror:
  assumes "list_all2 carries cs es" "mirrors s m" "edits_valid valid edit es m"
  shows "\<exists>s'. commit_all (map cb cs) s = Val (SR_ERR_OK, s') \<and> mirrors s' (fold edit es m)"
  using assms
proof (induction arbitrary: s m rule: list_all2_induct)
  case (Cons c cs e es)
  obtain s1 where s1: "cb c SR_EV_VERIFY s = Val (SR_ERR_OK, s1)" "mirrors s1 (edit e m)"
    using verified [OF Cons.prems(1) _ Cons.hyps(1)] Cons.prems(2) by auto
  with Cons.IH [OF s1(2)] Cons.prems(2) applied [OF Cons.hyps(1)] show ?case
    by simp
qed simp

end

end
