(* ===== verification/Address_Datastore.thy ===== *)
theory Address_Datastore
  imports Commit Datastore
begin

text \<open>
  Which address bindings VOM holds for an interface after a sequence of commits that create
  and delete addresses. The addresses of the datastore alone do not determine them: since
  the callback configures an address before it has read its prefix length, each commit
  also writes or removes bindings with the prefix length of the address before.
\<close>

section \<open>The specification\<close>

text \<open>The addresses with the prefix lengths under which a commit configures them\<close>

fun configured :: "8 word \<Rightarrow> (string \<times> 8 word) list \<Rightarrow> (string \<times> 8 word) list" where
  "configured prev [] = []"
| "configured prev ((a, p) # aps) = (a, prev) # (a, p) # configured p aps"

text \<open>The key of a binding in the object model, for an interface that VPP calls \<open>nm\<close>\<close>

definition binding_key :: "('s, 'i, 'p, 'a) vom_api \<Rightarrow> string \<Rightarrow> string \<times> 8 word \<Rightarrow> string" where
  "binding_key vom nm ap =
     (case prefix_t vom (fst ap) (snd ap) of Inl e \<Rightarrow> [] | Inr pfx \<Rightarrow> l3_key nm (prefix_t_to_string vom pfx))"

definition commit_keys :: "('s, 'i, 'p, 'a) vom_api \<Rightarrow> string \<Rightarrow> (string \<times> 8 word) list \<Rightarrow> string set" where
  "commit_keys vom nm aps = binding_key vom nm ` set (configured 0 aps)"

datatype address_edit =
    Add_Addresses "(string \<times> 8 word) list"
  | Drop_Addresses "(string \<times> 8 word) list"

fun edit_bindings :: "('s, 'i, 'p, 'a) vom_api \<Rightarrow> string \<Rightarrow> address_edit \<Rightarrow> string set \<Rightarrow> string set" where
  "edit_bindings vom nm (Add_Addresses aps) B = B \<union> commit_keys vom nm aps"
| "edit_bindings vom nm (Drop_Addresses aps) B = B - commit_keys vom nm aps"

fun valid_addresses :: "('s, 'i, 'p, 'a) vom_api \<Rightarrow> address_edit \<Rightarrow> string set \<Rightarrow> bool" where
  "valid_addresses vom (Add_Addresses aps) B = list_all (\<lambda>ap. well_formed_address vom (fst ap)) aps"
| "valid_addresses vom (Drop_Addresses aps) B = list_all (\<lambda>ap. well_formed_address vom (fst ap)) aps"


section \<open>Commits\<close>

definition address_commit_cb ::
    "byte_order \<Rightarrow> sr_api \<Rightarrow> 'a net_api \<Rightarrow> ('s, 'i, 'p, 'a) vom_api \<Rightarrow> session \<times> string \<Rightarrow> sr_event \<Rightarrow> 's \<Rightarrow>
     (sr_error \<times> 's) outcome" where
  "address_commit_cb order api net vom c = ietf_interface_ipv46_address_change_cb order api net vom (fst c) (snd c)"

definition carries_addresses :: "sr_api \<Rightarrow> string \<Rightarrow> session \<times> string \<Rightarrow> address_edit \<Rightarrow> bool" where
  "carries_addresses api n c e \<longleftrightarrow>
     (case sr_get_changes_iter (fst c) (snd c) of (rc, cs) \<Rightarrow>
        rc = SR_ERR_OK \<and>
        (case e of
           Add_Addresses aps \<Rightarrow> address_blocks api SR_OP_CREATED new_val n aps cs
         | Drop_Addresses aps \<Rightarrow>
             address_blocks api SR_OP_DELETED old_val n aps cs \<and> list_all (\<lambda>c. new_val c = None) cs))"

text \<open>
  What VOM documents, for an interface \<open>i\<close> of name \<open>n\<close> to which VPP accepts bindings:
  \<open>bound\<close> are the keys of the bindings that the object model holds.
\<close>

definition exact_l3 ::
    "('s, 'i, 'p, 'a) vom_api \<Rightarrow> string \<Rightarrow> 'i \<Rightarrow> string \<Rightarrow> ('s \<Rightarrow> string set) \<Rightarrow> ('s \<Rightarrow> bool) \<Rightarrow> bool" where
  "exact_l3 vom n i nm bound known \<longleftrightarrow>
     (\<forall>s. known s \<longrightarrow>
        interface_find vom n s = Some i \<and> interface_itf_name vom i s = nm \<and>
        (\<forall>key pfx. \<exists>s'. om_write_l3 vom key i pfx s = (RC_OK, s') \<and> known s' \<and> bound s' = insert key (bound s)) \<and>
        (\<forall>t. known (om_remove vom (l3_key nm t) s) \<and> bound (om_remove vom (l3_key nm t) s) = bound s - {l3_key nm t}))"


section \<open>Single bindings\<close>

lemma binding_added:
  assumes "exact_l3 vom n i nm bound known" "known s" "well_formed_address vom a"
  shows "\<exists>s'. ipv46_config_add_remove vom n a p True s = (SR_ERR_OK, s') \<and> known s' \<and>
    bound s' = insert (binding_key vom nm (a, p)) (bound s)"
proof -
  obtain pfx where pfx: "prefix_t vom a p = Inr pfx"
    using assms(3) by (auto simp: well_formed_address_def)
  let ?key = "l3_key nm (prefix_t_to_string vom pfx)"
  obtain s' where "interface_find vom n s = Some i" "interface_itf_name vom i s = nm"
    "om_write_l3 vom ?key i pfx s = (RC_OK, s')" "known s'" "bound s' = insert ?key (bound s)"
    using assms(1,2) unfolding exact_l3_def by blast
  with pfx show ?thesis
    by (simp add: ipv46_config_add_remove_def binding_key_def Let_def)
qed

lemma binding_removed:
  assumes "exact_l3 vom n i nm bound known" "known s" "well_formed_address vom a"
  shows "\<exists>s'. ipv46_config_add_remove vom n a p False s = (SR_ERR_OK, s') \<and> known s' \<and>
    bound s' = bound s - {binding_key vom nm (a, p)}"
proof -
  obtain pfx where pfx: "prefix_t vom a p = Inr pfx"
    using assms(3) by (auto simp: well_formed_address_def)
  with assms(1,2) show ?thesis
    by (simp add: exact_l3_def ipv46_config_add_remove_def binding_key_def Let_def)
qed

lemma bindings_added:
  assumes "exact_l3 vom n i nm bound known" "known s" "list_all (\<lambda>ap. well_formed_address vom (fst ap)) aps"
  shows "\<exists>s'. config_addresses vom True n prev aps (SR_ERR_OK, s) = (SR_ERR_OK, s') \<and> known s' \<and>
    bound s' = bound s \<union> binding_key vom nm ` set (configured prev aps)"
  using assms(2,3)
proof (induction aps arbitrary: prev s)
  case (Cons ap aps)
  obtain a p where ap: "ap = (a, p)" "well_formed_address vom a"
    using Cons.prems(2) by (cases ap) auto
  obtain s1 where s1: "ipv46_config_add_remove vom n a prev True s = (SR_ERR_OK, s1)" "known s1"
    "bound s1 = insert (binding_key vom nm (a, prev)) (bound s)"
    using binding_added [OF assms(1) Cons.prems(1) ap(2)] by blast
  obtain s2 where s2: "ipv46_config_add_remove vom n a p True s1 = (SR_ERR_OK, s2)" "known s2"
    "bound s2 = insert (binding_key vom nm (a, p)) (bound s1)"
    using binding_added [OF assms(1) s1(2) ap(2)] by blast
  with Cons.IH [OF s2(2), of p] Cons.prems(2) ap s1 show ?case
    by auto
qed simp

lemma bindings_removed:
  assumes "exact_l3 vom n i nm bound known" "known s" "list_all (\<lambda>ap. well_formed_address vom (fst ap)) aps"
  shows "\<exists>s'. config_addresses vom False n prev aps (SR_ERR_OK, s) = (SR_ERR_OK, s') \<and> known s' \<and>
    bound s' = bound s - binding_key vom nm ` set (configured prev aps)"
  using assms(2,3)
proof (induction aps arbitrary: prev s)
  case (Cons ap aps)
  obtain a p where ap: "ap = (a, p)" "well_formed_address vom a"
    using Cons.prems(2) by (cases ap) auto
  obtain s1 where s1: "ipv46_config_add_remove vom n a prev False s = (SR_ERR_OK, s1)" "known s1"
    "bound s1 = bound s - {binding_key vom nm (a, prev)}"
    using binding_removed [OF assms(1) Cons.prems(1) ap(2)] by blast
  obtain s2 where s2: "ipv46_config_add_remove vom n a p False s1 = (SR_ERR_OK, s2)" "known s2"
    "bound s2 = bound s1 - {binding_key vom nm (a, p)}"
    using binding_removed [OF assms(1) s1(2) ap(2)] by blast
  with Cons.IH [OF s2(2), of p] Cons.prems(2) ap s1 show ?case
    by auto
qed simp


section \<open>Commits of addresses\<close>

abbreviation holds_bindings where
  "holds_bindings vom n i nm bound known s B \<equiv>
     exact_l3 vom n i nm bound known \<and> n \<noteq> [] \<and> known s \<and> bound s = B"

lemma address_commit:
  assumes "exact_l3 vom n i nm bound known" "n \<noteq> []" "known s" "valid_addresses vom e (bound s)"
    and "carries_addresses api n c e"
  shows "\<exists>s'. address_commit_cb order api net vom c SR_EV_VERIFY s = Val (SR_ERR_OK, s') \<and> known s' \<and>
    bound s' = edit_bindings vom nm e (bound s)"
proof (cases e)
  case (Add_Addresses aps)
  then obtain cs where cs: "sr_get_changes_iter (fst c) (snd c) = (SR_ERR_OK, cs)"
    "address_blocks api SR_OP_CREATED new_val n aps cs"
    using assms(5) by (auto simp: carries_addresses_def split: prod.splits)
  have "\<forall>ap \<in> set aps. fst ap \<noteq> []"
    using assms(4) Add_Addresses by (auto simp: list_all_iff well_formed_address_def)
  then show ?thesis
    using bindings_added [OF assms(1,3), of aps 0] assms(4) Add_Addresses
    by (auto simp: address_commit_cb_def commit_keys_def addr_cb_created [OF cs assms(2)])
next
  case (Drop_Addresses aps)
  then obtain cs where cs: "sr_get_changes_iter (fst c) (snd c) = (SR_ERR_OK, cs)"
    "address_blocks api SR_OP_DELETED old_val n aps cs" "\<forall>c \<in> set cs. new_val c = None"
    using assms(5) by (auto simp: carries_addresses_def list_all_iff split: prod.splits)
  have "\<forall>ap \<in> set aps. fst ap \<noteq> []"
    using assms(4) Drop_Addresses by (auto simp: list_all_iff well_formed_address_def)
  then show ?thesis
    using bindings_removed [OF assms(1,3), of aps 0] assms(4) Drop_Addresses
    by (auto simp: address_commit_cb_def commit_keys_def ipv46_delete_addresses [OF cs(1,2) assms(2) _ cs(3)])
qed

interpretation addresses: datastore "address_commit_cb order api net vom" "carries_addresses api n"
  "valid_addresses vom" "edit_bindings vom nm" "holds_bindings vom n i nm bound known"
  for order api net vom n nm i bound known
proof unfold_locales
  fix s B e and c :: "session \<times> string"
  assume "holds_bindings vom n i nm bound known s B" "valid_addresses vom e B" "carries_addresses api n c e"
  then show "\<exists>s'. address_commit_cb order api net vom c SR_EV_VERIFY s = Val (SR_ERR_OK, s') \<and>
      holds_bindings vom n i nm bound known s' (edit_bindings vom nm e B)"
    using address_commit [of vom n i nm bound known s e api c order net] by auto
qed (simp add: address_commit_cb_def ietf_interface_ipv46_address_change_cb_def)


section \<open>Concrete inputs\<close>

definition sample_bound :: "sample_db \<Rightarrow> string set" where
  "sample_bound s = {k. \<exists>i p. (k, Sample_L3 i p) \<in> set (objs s)}"

lemma sample_exact_l3: "exact_l3 sample_vom ''eth0'' ''eth0'' ''eth0'' sample_bound eth0_known"
  by (auto simp: exact_l3_def eth0_known_def sample_vom_def sample_put_def sample_bound_def l3_key_def)

lemma sample_well_formed: "a \<noteq> [] \<Longrightarrow> a \<noteq> ''bad'' \<Longrightarrow> well_formed_address sample_vom a"
  by (simp add: well_formed_address_def sample_vom_def sample_prefix_t_def)


section \<open>Properties\<close>

text \<open>
  (C10) The bindings after any sequence of commits that create or delete well-formed addresses
  on an interface: every commit is accepted, and VOM holds exactly the bindings that the
  commits have written and not removed again, where each commit touches an address twice,
  with the prefix length of the address before it in the commit (0 for the first) and with
  its own.
\<close>

theorem address_bindings_exact:
  assumes "exact_l3 vom n i nm bound known" "n \<noteq> []" "known s"
    and "edits_valid (valid_addresses vom) (edit_bindings vom nm) es (bound s)"
    and "list_all2 (carries_addresses api n) cs es"
  shows "\<exists>s'. commit_all (map (address_commit_cb order api net vom) cs) s = Val (SR_ERR_OK, s') \<and> known s' \<and>
    bound s' = fold (edit_bindings vom nm) es (bound s)"
proof -
  have "holds_bindings vom n i nm bound known s (bound s)"
    using assms(1-3) by simp
  from addresses.commits_mirror [OF assms(5) this assms(4), of order net] show ?thesis
    by blast
qed

theorem address_bindings_exact_witness:
  "\<exists>s. commit_all (map (address_commit_cb Little_Endian sample_api sample_net sample_vom)
      [(sample_session (create_address ''10.0.0.1'' 24), []), (sample_session (delete_address ''10.0.0.1'' 24), [])]) eth0_db =
      Val (SR_ERR_OK, s) \<and> sample_bound s = {}"
proof -
  let ?es = "[Add_Addresses [(''10.0.0.1'', 24)], Drop_Addresses [(''10.0.0.1'', 24)]]"
  have c: "list_all2 (carries_addresses sample_api ''eth0'')
      [(sample_session (create_address ''10.0.0.1'' 24), []), (sample_session (delete_address ''10.0.0.1'' 24), [])] ?es"
    by code_simp
  have v: "edits_valid (valid_addresses sample_vom) (edit_bindings sample_vom ''eth0'') ?es (sample_bound eth0_db)"
    by (simp add: sample_well_formed)
  have "sample_bound eth0_db = {}"
    by (simp add: sample_bound_def eth0_db_def)
  then have "fold (edit_bindings sample_vom ''eth0'') ?es (sample_bound eth0_db) = {}"
    by simp
  with address_bindings_exact [OF sample_exact_l3 _ eth0_known_db v c, of Little_Endian sample_net] show ?thesis
    by auto
qed

text \<open>
  (C28) Deleting the addresses one by one does not undo creating them together. Two addresses
  \<open>a/p\<close> and \<open>b/q\<close> are created in one commit and later deleted in one commit each: the
  datastore has no address left, every commit was accepted, and yet VOM and VPP keep the
  second address with the prefix length of the first, \<open>b/p\<close>, exactly if the addresses
  differ and the first prefix length is neither 0 nor that of the second address; otherwise
  nothing is left. VOM is taken to keep the bindings involved under different keys.
\<close>

theorem stale_binding_survives:
  assumes "exact_l3 vom n i nm bound known" "n \<noteq> []" "known s" "bound s = {}"
    and "well_formed_address vom a" "well_formed_address vom b"
    and "carries_addresses api n c1 (Add_Addresses [(a, p), (b, q)])"
    and "carries_addresses api n c2 (Drop_Addresses [(a, p)])" "carries_addresses api n c3 (Drop_Addresses [(b, q)])"
    and "inj_on (binding_key vom nm) {(a, 0), (a, p), (b, 0), (b, p), (b, q)}"
  shows "\<exists>s'. commit_all (map (address_commit_cb order api net vom) [c1, c2, c3]) s = Val (SR_ERR_OK, s') \<and>
    bound s' = (if a \<noteq> b \<and> p \<noteq> 0 \<and> p \<noteq> q then {binding_key vom nm (b, p)} else {})"
proof -
  let ?es = "[Add_Addresses [(a, p), (b, q)], Drop_Addresses [(a, p)], Drop_Addresses [(b, q)]]"
  let ?K = "binding_key vom nm"
  have c: "list_all2 (carries_addresses api n) [c1, c2, c3] ?es"
    using assms(7-9) by simp
  have h: "holds_bindings vom n i nm bound known s {}"
    using assms(1-4) by simp
  have v: "edits_valid (valid_addresses vom) (edit_bindings vom nm) ?es {}"
    using assms(5,6) by simp
  have "?K (b, p) \<in> {?K (a, 0), ?K (a, p), ?K (b, 0), ?K (b, q)} \<longleftrightarrow> a = b \<or> p = 0 \<or> p = q"
    using inj_onD [OF assms(10), of "(b, p)"] by auto
  then have "fold (edit_bindings vom nm) ?es {} = (if a \<noteq> b \<and> p \<noteq> 0 \<and> p \<noteq> q then {?K (b, p)} else {})"
    by (auto simp: commit_keys_def)
  with addresses.commits_mirror [OF c h v, of order net] show ?thesis
    by auto
qed

text \<open>Prefix lengths 24 and 16 leave a binding behind, twice 24 does not.\<close>

theorem stale_binding_survives_witness:
  "(\<exists>s. commit_all (map (address_commit_cb Little_Endian sample_api sample_net sample_vom)
      [(sample_session (create_address ''10.0.0.1'' 24 @ create_address ''10.0.1.1'' 16), []),
       (sample_session (delete_address ''10.0.0.1'' 24), []), (sample_session (delete_address ''10.0.1.1'' 16), [])])
      eth0_db = Val (SR_ERR_OK, s) \<and> sample_bound s = {''l3_eth0_10.0.1.1/24''}) \<and>
   (\<exists>s. commit_all (map (address_commit_cb Little_Endian sample_api sample_net sample_vom)
      [(sample_session (create_address ''10.0.0.1'' 24 @ create_address ''10.0.1.1'' 24), []),
       (sample_session (delete_address ''10.0.0.1'' 24), []), (sample_session (delete_address ''10.0.1.1'' 24), [])])
      eth0_db = Val (SR_ERR_OK, s) \<and> sample_bound s = {})"
proof -
  have c: "carries_addresses sample_api ''eth0''
      (sample_session (create_address ''10.0.0.1'' 24 @ create_address ''10.0.1.1'' 16), [])
      (Add_Addresses [(''10.0.0.1'', 24), (''10.0.1.1'', 16)])"
    "carries_addresses sample_api ''eth0''
      (sample_session (create_address ''10.0.0.1'' 24 @ create_address ''10.0.1.1'' 24), [])
      (Add_Addresses [(''10.0.0.1'', 24), (''10.0.1.1'', 24)])"
    "carries_addresses sample_api ''eth0'' (sample_session (delete_address ''10.0.0.1'' 24), []) (Drop_Addresses [(''10.0.0.1'', 24)])"
    "carries_addresses sample_api ''eth0'' (sample_session (delete_address ''10.0.1.1'' 16), []) (Drop_Addresses [(''10.0.1.1'', 16)])"
    "carries_addresses sample_api ''eth0'' (sample_session (delete_address ''10.0.1.1'' 24), []) (Drop_Addresses [(''10.0.1.1'', 24)])"
    by code_simp+
  have keys: "binding_key sample_vom ''eth0'' (''10.0.0.1'', 0) = ''l3_eth0_10.0.0.1/0''"
    "binding_key sample_vom ''eth0'' (''10.0.0.1'', 24) = ''l3_eth0_10.0.0.1/24''"
    "binding_key sample_vom ''eth0'' (''10.0.1.1'', 0) = ''l3_eth0_10.0.1.1/0''"
    "binding_key sample_vom ''eth0'' (''10.0.1.1'', 24) = ''l3_eth0_10.0.1.1/24''"
    "binding_key sample_vom ''eth0'' (''10.0.1.1'', 16) = ''l3_eth0_10.0.1.1/16''"
    by code_simp+
  have k: "inj_on (binding_key sample_vom ''eth0'')
      {(''10.0.0.1'', 0), (''10.0.0.1'', 24), (''10.0.1.1'', 0), (''10.0.1.1'', 24), (''10.0.1.1'', 16)}"
    "inj_on (binding_key sample_vom ''eth0'')
      {(''10.0.0.1'', 0), (''10.0.0.1'', 24), (''10.0.1.1'', 0), (''10.0.1.1'', 24), (''10.0.1.1'', 24)}"
    by (simp_all add: inj_on_def keys)
  have b: "sample_bound eth0_db = {}"
    by (simp add: sample_bound_def eth0_db_def)
  note survives = stale_binding_survives [OF sample_exact_l3 _ eth0_known_db b]
  show ?thesis
    using survives [OF _ _ _ c(1,3,4) k(1), of Little_Endian sample_net]
      survives [OF _ _ _ c(2,3,5) k(2), of Little_Endian sample_net]
    by (simp add: sample_well_formed keys)
qed

end
