(* ===== verification/Commit_Delete.thy ===== *)
theory Commit_Delete
  imports Address_Datastore
begin

text \<open>
  A commit that deletes an interface together with its addresses. The interface callback
  comes first, so the interface leaves the object model while its bindings are still
  there; the address callbacks find it only because a binding keeps its interface alive.
\<close>

section \<open>Interfaces that bindings keep alive\<close>










section \<open>Notifications\<close>




section \<open>A concrete instance\<close>









section \<open>Properties\<close>



end
