(* ===== verification/Interface_Datastore.thy ===== *)
theory Interface_Datastore
  imports System Datastore
begin

text \<open>
  The interfaces of the configuration datastore as the specification of the two interface
  callbacks together: commits that come through the IETF or the OpenConfig module, in any
  mixture, keep the interfaces that VOM holds equal to those of the datastore.
\<close>

section \<open>The specification\<close>

text \<open>An interface of the datastore is its name and the leaf \<open>enabled\<close>.\<close>

datatype intf_edit =
    Add_Intf string bool
  | Set_Intf string bool
  | Drop_Intf string

fun edit_intf :: "intf_edit \<Rightarrow> (string \<Rightarrow> bool option) \<Rightarrow> (string \<Rightarrow> bool option)" where
  "edit_intf (Add_Intf n b) m = m(n \<mapsto> b)"
| "edit_intf (Set_Intf n b) m = m(n \<mapsto> b)"
| "edit_intf (Drop_Intf n) m = m(n := None)"

fun valid_intf :: "intf_edit \<Rightarrow> (string \<Rightarrow> bool option) \<Rightarrow> bool" where
  "valid_intf (Add_Intf n b) m = (n \<noteq> [] \<and> m n = None)"
| "valid_intf (Set_Intf n b) m = (m n \<noteq> None)"
| "valid_intf (Drop_Intf n) m = (m n \<noteq> None)"


section \<open>Commits\<close>

datatype yang_model = Ietf | Openconfig

text \<open>A commit through one of the modules, with the memory that the callback finds.\<close>

record intf_commit =
  through :: yang_model
  memory :: uninit
  in_session :: session
  subtree :: string

definition intf_commit_cb ::
    "sr_api \<Rightarrow> ('s, 'i, 'p, 'a) vom_api \<Rightarrow> intf_commit \<Rightarrow> sr_event \<Rightarrow> 's \<Rightarrow> (sr_error \<times> 's) outcome" where
  "intf_commit_cb api vom c event s =
     (case through c of
        Ietf \<Rightarrow> ietf_interface_create_cb api vom (memory c) (in_session c) (subtree c) event s
      | Openconfig \<Rightarrow> oc_interfaces_config_cb api vom (memory c) (Some (in_session c)) (Some (subtree c)) event s)"

text \<open>
  The changes that a session delivers for one edit: the leaves of one new interface of the
  supported type, one change of \<open>enabled\<close>, or the leaves of one interface that is deleted.
  The OpenConfig callback does not survive a deletion.
\<close>

definition carries_intf :: "sr_api \<Rightarrow> intf_commit \<Rightarrow> intf_edit \<Rightarrow> bool" where
  "carries_intf api c e \<longleftrightarrow>
     (let good = (case through c of Ietf \<Rightarrow> (\<lambda>v. True) | Openconfig \<Rightarrow> names_interface api) in
      case sr_get_changes_iter (in_session c) (subtree c) of (rc, cs) \<Rightarrow>
        rc = SR_ERR_OK \<and>
        (case e of
           Add_Intf n b \<Rightarrow>
             list_all (creates api good) cs \<and>
             last_or None (map Some (names_of api (new_vals cs))) = Some n \<and>
             ethernet \<in> set (types_of api (new_vals cs)) \<and>
             last_or None (map Some (states_of api (new_vals cs))) = Some b
         | Set_Intf n b \<Rightarrow> length cs = 1 \<and> enables api good (hd cs) n b
         | Drop_Intf n \<Rightarrow>
             through c = Ietf \<and> list_all (deletes api) cs \<and>
             last_or None (map Some (names_of api (old_vals cs))) = Some n))"

text \<open>The uninitialised flags that no path of these commits sets\<close>

definition flags_clear :: "intf_commit \<Rightarrow> bool" where
  "flags_clear c \<longleftrightarrow> mem_create (memory c) = Some False \<and> mem_modify (memory c) = Some False"

text \<open>
  What VOM documents, for interfaces that VPP accepts and nothing else refers to; \<open>view\<close>
  gives the interfaces that the object model holds with their administrative state.
\<close>

definition exact_intf :: "('s, 'i, 'p, 'a) vom_api \<Rightarrow> ('s \<Rightarrow> string \<Rightarrow> bool option) \<Rightarrow> bool" where
  "exact_intf vom view \<longleftrightarrow>
     (\<forall>n b s. case make_interface vom n ''ETHERNET'' b s of (i, s1) \<Rightarrow>
        \<exists>s2. om_write_interface vom (interface_key vom i s1) i s1 = (RC_OK, s2) \<and> view s2 = (view s)(n \<mapsto> b)) \<and>
     (\<forall>n s. interface_find vom n s = None \<longleftrightarrow> view s n = None) \<and>
     (\<forall>n i b s. interface_find vom n s = Some i \<longrightarrow>
        (\<exists>s2. om_write_interface vom (interface_key vom i (interface_set vom i b s)) i (interface_set vom i b s)
           = (RC_OK, s2) \<and> view s2 = (view s)(n \<mapsto> b))) \<and>
     (\<forall>n s. view (om_remove vom n s) = (view s)(n := None))"


section \<open>One commit\<close>

lemma intf_commit_verify:
  assumes "sr_get_changes_iter (in_session c) (subtree c) = (SR_ERR_OK, cs)"
  shows "intf_commit_cb api vom c SR_EV_VERIFY s =
    (case through c of
       Ietf \<Rightarrow> intf_run (ietf_create_step api vom) vom (memory c) (in_session c) SR_EV_VERIFY cs s
     | Openconfig \<Rightarrow> intf_run (oc_config_step api vom) vom (memory c) (in_session c) SR_EV_VERIFY cs s)"
  using assms
  by (simp add: intf_commit_cb_def ietf_interface_create_cb_verify oc_interfaces_config_cb_verify split: yang_model.split)

lemma last_or_map_Some: "last_or None (map Some xs) = Some y \<longleftrightarrow> xs \<noteq> [] \<and> last xs = y"
  by (cases xs rule: rev_cases) (auto simp: last_or_def)

lemma commit_added:
  assumes "carries_intf api c (Add_Intf n b)" "n \<noteq> []"
  shows "intf_commit_cb api vom c SR_EV_VERIFY s =
    (case make_interface vom n ''ETHERNET'' b s of (i, s') \<Rightarrow>
       write_result vom (vals_after_loop (in_session c) (snd (sr_get_changes_iter (in_session c) (subtree c)))) i s')"
proof -
  obtain cs where cs: "sr_get_changes_iter (in_session c) (subtree c) = (SR_ERR_OK, cs)"
    and leaves: "names_of api (new_vals cs) \<noteq> []" "last (names_of api (new_vals cs)) = n"
      "ethernet \<in> set (types_of api (new_vals cs))"
      "states_of api (new_vals cs) \<noteq> []" "last (states_of api (new_vals cs)) = b"
    and cr: "\<forall>d \<in> set cs. creates api (case through c of Ietf \<Rightarrow> (\<lambda>v. True) | Openconfig \<Rightarrow> names_interface api) d"
    using assms(1) by (auto simp: carries_intf_def Let_def last_or_map_Some list_all_iff split: prod.splits)
  show ?thesis
  proof (cases "through c")
    case Ietf
    with cr have cr': "\<forall>d \<in> set cs. creates api (\<lambda>v. True) d"
      by simp
    from Ietf leaves assms(2) show ?thesis
      by (simp add: intf_commit_verify [OF cs] cs ietf_body.run_created [OF cr' leaves(1)] last_or_nonempty last_map Let_def)
  next
    case Openconfig
    with cr have cr': "\<forall>d \<in> set cs. creates api (names_interface api) d"
      by simp
    from Openconfig leaves assms(2) show ?thesis
      by (simp add: intf_commit_verify [OF cs] cs oc_body.run_created [OF cr' leaves(1)] last_or_nonempty last_map Let_def)
  qed
qed

lemma commit_set:
  assumes "carries_intf api c (Set_Intf n b)" "flags_clear c" "interface_find vom n s = Some i"
    and "om_write_interface vom (interface_key vom i (interface_set vom i b s)) i (interface_set vom i b s) = (RC_OK, s')"
  shows "intf_commit_cb api vom c SR_EV_VERIFY s = Val (SR_ERR_OK, s')"
proof -
  obtain d where cs: "sr_get_changes_iter (in_session c) (subtree c) = (SR_ERR_OK, [d])"
    and d: "enables api (case through c of Ietf \<Rightarrow> (\<lambda>v. True) | Openconfig \<Rightarrow> names_interface api) d n b"
    using assms(1) by (auto simp: carries_intf_def Let_def length_Suc_conv split: prod.splits)
  show ?thesis
  proof (cases "through c")
    case Ietf
    with d assms(2) show ?thesis
      by (simp add: intf_commit_verify [OF cs] flags_clear_def ietf_body.run_enabled_written [OF _ assms(3) _ assms(4)])
  next
    case Openconfig
    with d assms(2) show ?thesis
      by (simp add: intf_commit_verify [OF cs] flags_clear_def oc_body.run_enabled_written [OF _ assms(3) _ assms(4)])
  qed
qed

lemma commit_dropped:
  assumes "carries_intf api c (Drop_Intf n)" "flags_clear c"
  shows "intf_commit_cb api vom c SR_EV_VERIFY s = Val (SR_ERR_OK, om_remove vom n s)"
proof -
  obtain cs where "through c = Ietf" and cs: "sr_get_changes_iter (in_session c) (subtree c) = (SR_ERR_OK, cs)"
    and del: "\<forall>d \<in> set cs. deletes api d" "names_of api (old_vals cs) \<noteq> []" "last (names_of api (old_vals cs)) = n"
    using assms(1) by (auto simp: carries_intf_def Let_def last_or_map_Some list_all_iff split: prod.splits)
  with ietf_cb_deleted [OF cs del(1,2), of vom "memory c" s] assms(2) show ?thesis
    by (simp add: intf_commit_cb_def flags_clear_def)
qed

lemma exact_intf_made:
  assumes "exact_intf vom view" "make_interface vom n ''ETHERNET'' b s = (i, s1)"
  shows "\<exists>s2. om_write_interface vom (interface_key vom i s1) i s1 = (RC_OK, s2) \<and> view s2 = (view s)(n \<mapsto> b)"
proof -
  have "case make_interface vom n ''ETHERNET'' b s of (i, s1) \<Rightarrow>
      \<exists>s2. om_write_interface vom (interface_key vom i s1) i s1 = (RC_OK, s2) \<and> view s2 = (view s)(n \<mapsto> b)"
    using assms(1) by (simp add: exact_intf_def)
  with assms(2) show ?thesis
    by simp
qed

lemma exact_intf_found:
  assumes "exact_intf vom view" "view s n \<noteq> None"
  obtains i s2 where "interface_find vom n s = Some i" "view s2 = (view s)(n \<mapsto> b)"
    "om_write_interface vom (interface_key vom i (interface_set vom i b s)) i (interface_set vom i b s) = (RC_OK, s2)"
proof -
  have "interface_find vom n s \<noteq> None"
    using assms by (simp add: exact_intf_def)
  then obtain i where "interface_find vom n s = Some i"
    by blast
  moreover from this have "\<exists>s2. om_write_interface vom (interface_key vom i (interface_set vom i b s)) i
      (interface_set vom i b s) = (RC_OK, s2) \<and> view s2 = (view s)(n \<mapsto> b)"
    using assms(1) by (simp add: exact_intf_def)
  ultimately show ?thesis
    using that by blast
qed

lemma intf_commit_mirrors:
  assumes "exact_intf vom view" "view s = m" "valid_intf e m" "carries_intf api c e" "flags_clear c"
  shows "\<exists>s'. intf_commit_cb api vom c SR_EV_VERIFY s = Val (SR_ERR_OK, s') \<and> view s' = edit_intf e m"
proof (cases e)
  case (Add_Intf n b)
  obtain i s1 where i: "make_interface vom n ''ETHERNET'' b s = (i, s1)"
    by fastforce
  obtain s2 where
    "om_write_interface vom (interface_key vom i s1) i s1 = (RC_OK, s2)" "view s2 = (view s)(n \<mapsto> b)"
    using exact_intf_made [OF assms(1) i] by blast
  with commit_added [of api c n b vom s] assms(2-4) Add_Intf i show ?thesis
    by (simp add: write_result_def)
next
  case (Set_Intf n b)
  with assms(2,3) have "view s n \<noteq> None"
    by simp
  then obtain i s2 where i: "interface_find vom n s = Some i" "view s2 = (view s)(n \<mapsto> b)"
    "om_write_interface vom (interface_key vom i (interface_set vom i b s)) i (interface_set vom i b s) = (RC_OK, s2)"
    by (rule exact_intf_found [OF assms(1)])
  with commit_set [of api c n b vom s i] assms(2,4,5) Set_Intf i show ?thesis
    by simp
next
  case (Drop_Intf n)
  with commit_dropped [of api c n vom s] assms(1,2,4,5) show ?thesis
    by (simp add: exact_intf_def)
qed

interpretation interfaces: datastore "intf_commit_cb api vom" "\<lambda>c e. flags_clear c \<and> carries_intf api c e"
  valid_intf edit_intf "\<lambda>s m. exact_intf vom view \<and> view s = m" for api vom view
proof unfold_locales
  fix s m e and c :: intf_commit
  assume "exact_intf vom view \<and> view s = m" "valid_intf e m" "flags_clear c \<and> carries_intf api c e"
  then show "\<exists>s'. intf_commit_cb api vom c SR_EV_VERIFY s = Val (SR_ERR_OK, s') \<and>
      exact_intf vom view \<and> view s' = edit_intf e m"
    using intf_commit_mirrors [of vom view s m e api c] by blast
qed (simp add: intf_commit_cb_def ietf_cb.other_events oc_cb.other_events split: yang_model.split)


section \<open>A concrete instance\<close>

text \<open>An object model that holds nothing but interfaces\<close>

definition intf_vom :: "(string \<Rightarrow> bool option, string, unit, unit) vom_api" where
  "intf_vom = \<lparr>
     make_interface = (\<lambda>n t b s. (n, s(n \<mapsto> b))), interface_find = (\<lambda>n s. if s n = None then None else Some n),
     interface_set = (\<lambda>i b s. s(i \<mapsto> b)), interface_key = (\<lambda>i s. i), interface_itf_name = (\<lambda>i s. i),
     get_stats = (\<lambda>i s. sample_stats), prefix_t = (\<lambda>a l. Inr ()), prefix_t_to_string = (\<lambda>p. []),
     om_write_interface = (\<lambda>k i s. (RC_OK, s)), om_write_l3 = (\<lambda>k i p s. (RC_OK, s)),
     om_write_nat = (\<lambda>k x y s. (RC_OK, s)), om_remove = (\<lambda>k s. s(k := None)), dump = (\<lambda>p s. []),
     name_filter_size = 64\<rparr>"

lemma intf_vom_exact: "exact_intf intf_vom (\<lambda>s. s)"
  by (simp add: exact_intf_def intf_vom_def)

definition itf_commit :: "yang_model \<Rightarrow> change list \<Rightarrow> intf_commit" where
  "itf_commit md cs = \<lparr>through = md, memory = zeroed, in_session = sample_session cs, subtree = []\<rparr>"


section \<open>Properties\<close>

text \<open>
  (C4) Both modules implement one datastore. In a sequence of commits let each add one
  interface of the supported type \<open>ethernetCsmacd\<close> with its \<open>enabled\<close> leaf or change
  one \<open>enabled\<close> leaf, through either module, or delete one interface through the IETF
  module; the OpenConfig callback does not survive a deletion. If VOM keeps its contract,
  VPP accepts the interfaces, and the uninitialised flags \<open>create\<close> and \<open>modify\<close> happen to
  start as false, every commit is accepted, and VOM holds exactly the interfaces of the
  datastore in their administrative states.
\<close>

theorem interfaces_mirror_datastore:
  assumes "exact_intf vom view" "view s = m" "edits_valid valid_intf edit_intf es m"
    and "list_all2 (\<lambda>c e. flags_clear c \<and> carries_intf api c e) cs es"
  shows "\<exists>s'. commit_all (map (intf_commit_cb api vom) cs) s = Val (SR_ERR_OK, s') \<and> view s' = fold edit_intf es m"
  using interfaces.commits_mirror [OF assms(4), of vom view s m] assms(1-3) by blast

theorem interfaces_mirror_datastore_witness:
  "\<exists>s. commit_all (map (intf_commit_cb sample_api intf_vom)
      [itf_commit Openconfig oc_create_eth0, itf_commit Ietf [disable_eth0],
       itf_commit Ietf [sample_deleted (eth0_path ''name'') (SR_STRING_T ''eth0'')], itf_commit Ietf create_eth0])
      (\<lambda>_. None) = Val (SR_ERR_OK, s) \<and> s = [''eth0'' \<mapsto> True]"
proof -
  let ?es = "[Add_Intf ''eth0'' True, Set_Intf ''eth0'' False, Drop_Intf ''eth0'', Add_Intf ''eth0'' True]"
  have "flags_clear (itf_commit md cs)" for md cs
    by (simp add: flags_clear_def itf_commit_def zeroed_def)
  moreover have "carries_intf sample_api (itf_commit Openconfig oc_create_eth0) (Add_Intf ''eth0'' True)"
    "carries_intf sample_api (itf_commit Ietf [disable_eth0]) (Set_Intf ''eth0'' False)"
    "carries_intf sample_api (itf_commit Ietf [sample_deleted (eth0_path ''name'') (SR_STRING_T ''eth0'')]) (Drop_Intf ''eth0'')"
    "carries_intf sample_api (itf_commit Ietf create_eth0) (Add_Intf ''eth0'' True)"
    by code_simp+
  ultimately have c: "list_all2 (\<lambda>c e. flags_clear c \<and> carries_intf sample_api c e)
      [itf_commit Openconfig oc_create_eth0, itf_commit Ietf [disable_eth0],
       itf_commit Ietf [sample_deleted (eth0_path ''name'') (SR_STRING_T ''eth0'')], itf_commit Ietf create_eth0] ?es"
    by simp
  have v: "edits_valid valid_intf edit_intf ?es (\<lambda>_. None)"
    by simp
  have f: "fold edit_intf ?es (\<lambda>_. None) = [''eth0'' \<mapsto> True]"
    by simp
  from interfaces_mirror_datastore [OF intf_vom_exact _ v c, of "\<lambda>_. None", unfolded f] show ?thesis
    by simp
qed

end
