(* ===== verification/Nat_Datastore.thy ===== *)
theory Nat_Datastore
  imports System Datastore
begin

text \<open>
  The mapping table of the configuration datastore as the specification of the NAT plugin:
  a sequence of commits, each of which adds or deletes one entry, keeps the plugin's table
  and the objects that VOM holds equal to the datastore.
\<close>

section \<open>The specification\<close>

datatype 'a entry_edit =
    Add_Entry "32 word" 'a 'a
  | Drop_Entry "32 word"

fun edit :: "'a entry_edit \<Rightarrow> 'a nat_table_t \<Rightarrow> 'a nat_table_t" where
  "edit (Add_Entry x i out) m = m(x \<mapsto> (i, out))"
| "edit (Drop_Entry x) m = m(x := None)"

text \<open>An entry is only created where the datastore has none under its index.\<close>

fun valid_entry :: "'a entry_edit \<Rightarrow> 'a nat_table_t \<Rightarrow> bool" where
  "valid_entry (Add_Entry x i out) m = (m x = None)"
| "valid_entry (Drop_Entry x) m = True"


section \<open>Commits\<close>

text \<open>The changes that a session delivers for one edit of a static mapping with source prefixes.\<close>

definition carries :: "sr_api \<Rightarrow> 'a net_api \<Rightarrow> string \<Rightarrow> session \<Rightarrow> 'a entry_edit \<Rightarrow> bool" where
  "carries api net xp ds e \<longleftrightarrow>
     (case sr_get_changes_iter ds xp of (rc, cs) \<Rightarrow>
        rc = SR_ERR_OK \<and>
        (case e of
           Add_Entry x i out \<Rightarrow>
             (let vs = new_vals cs in
              list_all (creates_leaf api net) cs \<and>
              last_or None (map Some (indices_of api vs)) = Some x \<and>
              last_or [] (nat_types_of api vs) = ''static'' \<and>
              last_or None (map (Some \<circ> m_address) (prefixes_of api net Internal_Src vs)) = Some i \<and>
              last_or None (map (Some \<circ> m_address) (prefixes_of api net External_Src vs)) = Some out)
         | Drop_Entry x \<Rightarrow>
             list_all (deletes_leaf api) cs \<and>
             last_or None (map Some (indices_of api (old_vals cs))) = Some x))"

text \<open>The memory that the callback finds in its variables differs from commit to commit.\<close>

definition nat_commit_cb ::
    "sr_api \<Rightarrow> 'a net_api \<Rightarrow> ('s, 'i, 'p, 'a) vom_api \<Rightarrow> string \<Rightarrow> nat_uninit \<times> session \<Rightarrow> sr_event \<Rightarrow>
     's \<times> 'a nat_table_t \<Rightarrow> (sr_error \<times> 's \<times> 'a nat_table_t) outcome" where
  "nat_commit_cb api net vom xp c = nat_mapping_table_config_cb api net vom (fst c) (Some (snd c)) (Some xp)"

text \<open>
  What VOM documents, for objects that VPP accepts: a key owns the objects that were written
  under it until it is removed.
\<close>

definition exact_om :: "('s, 'i, 'p, 'a) vom_api \<Rightarrow> ('s \<Rightarrow> string \<Rightarrow> ('a \<times> 'a) set) \<Rightarrow> bool" where
  "exact_om vom owned \<longleftrightarrow>
     (\<forall>k x y s. \<exists>s'. om_write_nat vom k x y s = (RC_OK, s') \<and> owned s' = (owned s)(k := insert (x, y) (owned s k))) \<and>
     (\<forall>k s. owned (om_remove vom k s) = (owned s)(k := {}))"

text \<open>Datastore, table and object model agree.\<close>

definition mirrors :: "('s \<Rightarrow> string \<Rightarrow> ('a \<times> 'a) set) \<Rightarrow> 's \<times> 'a nat_table_t \<Rightarrow> 'a nat_table_t \<Rightarrow> bool" where
  "mirrors owned st m \<longleftrightarrow> snd st = m \<and> (\<forall>x. owned (fst st) (nat_key x) = set_option (m x))"


section \<open>One commit\<close>

lemma last_or_Some:
  "last_or None (map (Some \<circ> f) xs) = Some y \<longleftrightarrow> (\<exists>ys x. xs = ys @ [x] \<and> f x = y)"
  by (cases xs rule: rev_cases) (auto simp: last_or_def)

lemmas last_or_Some_id = last_or_Some [where f = "\<lambda>x. x", unfolded comp_def]

lemma commit_add:
  assumes "carries api net xp ds (Add_Entry x i out)" "om_write_nat vom (nat_key x) i out s = (RC_OK, s')"
  shows "nat_mapping_table_config_cb api net vom mem (Some ds) (Some xp) SR_EV_VERIFY (s, tbl) =
    Val (SR_ERR_OK, s', tbl(x \<mapsto> (i, out)))"
proof -
  obtain cs where cs: "sr_get_changes_iter ds xp = (SR_ERR_OK, cs)"
    and cr: "\<forall>c \<in> set cs. creates_leaf api net c" and ty: "last_or [] (nat_types_of api (new_vals cs)) = ''static''"
    using assms(1) by (auto simp: carries_def Let_def list_all_iff split: prod.splits)
  obtain xs ps p qs q where idx: "indices_of api (new_vals cs) = xs @ [x]"
    and pq: "prefixes_of api net Internal_Src (new_vals cs) = ps @ [p]" "m_address p = i"
      "prefixes_of api net External_Src (new_vals cs) = qs @ [q]" "m_address q = out"
    using assms(1) by (auto simp: carries_def Let_def cs last_or_Some last_or_Some_id)
  obtain m n where "m_prefix_len p = Some m" "m_prefix_len q = Some n"
    using prefixes_of_initialised [of p api net Internal_Src "new_vals cs"]
      prefixes_of_initialised [of q api net External_Src "new_vals cs"] pq by auto
  with idx pq assms(2) show ?thesis
    by (simp add: nat_run_created [OF cs cr _ ty] last_or_nonempty nat_write_def Let_def)
qed

lemma commit_drop:
  assumes "carries api net xp ds (Drop_Entry x)" "nat_mem_create mem = Some False"
  shows "nat_mapping_table_config_cb api net vom mem (Some ds) (Some xp) SR_EV_VERIFY (s, tbl) =
    Val (SR_ERR_OK, om_remove vom (nat_key x) s, tbl(x := None))"
proof -
  obtain cs xs where cs: "sr_get_changes_iter ds xp = (SR_ERR_OK, cs)"
    and del: "\<forall>c \<in> set cs. deletes_leaf api c" and idx: "indices_of api (old_vals cs) = xs @ [x]"
    using assms(1) by (auto simp: carries_def list_all_iff last_or_Some_id split: prod.splits)
  with assms(2) show ?thesis
    by (simp add: nat_cb_verify [OF cs] nat_walk_deleted [OF del] nat_finish_def nat_start_def last_or_nonempty)
qed

lemma commit_mirrors:
  assumes "exact_om vom owned" "mirrors owned st m" "valid_entry e m" "carries api net xp ds e"
    and "nat_mem_create mem = Some False"
  shows "\<exists>st'. nat_mapping_table_config_cb api net vom mem (Some ds) (Some xp) SR_EV_VERIFY st = Val (SR_ERR_OK, st') \<and>
    mirrors owned st' (edit e m)"
proof (cases e)
  case (Add_Entry x i out)
  obtain s tbl where st: "st = (s, tbl)"
    by (cases st)
  obtain s' where s': "om_write_nat vom (nat_key x) i out s = (RC_OK, s')"
    "owned s' = (owned s)(nat_key x := insert (i, out) (owned s (nat_key x)))"
    using assms(1) unfolding exact_om_def by blast
  have "mirrors owned (s', tbl(x \<mapsto> (i, out))) (edit e m)"
    using assms(2,3) Add_Entry st s'(2) by (auto simp: mirrors_def)
  with commit_add [OF assms(4) [unfolded Add_Entry] s'(1), of mem tbl] st show ?thesis
    by blast
next
  case (Drop_Entry x)
  obtain s tbl where st: "st = (s, tbl)"
    by (cases st)
  have "mirrors owned (om_remove vom (nat_key x) s, tbl(x := None)) (edit e m)"
    using assms(1,2) Drop_Entry st by (auto simp: mirrors_def exact_om_def)
  with commit_drop [OF assms(4) [unfolded Drop_Entry] assms(5), of vom s tbl] st show ?thesis
    by blast
qed


interpretation entries: datastore "nat_commit_cb api net vom xp"
  "\<lambda>c e. nat_mem_create (fst c) = Some False \<and> carries api net xp (snd c) e"
  valid_entry edit "\<lambda>st m. exact_om vom owned \<and> mirrors owned st m"
  for api net vom xp owned
proof unfold_locales
  fix st m e and c :: "nat_uninit \<times> session"
  assume "exact_om vom owned \<and> mirrors owned st m" "valid_entry e m"
    "nat_mem_create (fst c) = Some False \<and> carries api net xp (snd c) e"
  then show "\<exists>st'. nat_commit_cb api net vom xp c SR_EV_VERIFY st = Val (SR_ERR_OK, st') \<and>
      exact_om vom owned \<and> mirrors owned st' (edit e m)"
    using commit_mirrors [of vom owned st m e] by (auto simp: nat_commit_cb_def)
qed (simp add: nat_commit_cb_def nat_cb.other_events)


section \<open>Properties\<close>

text \<open>
  (C3) The plugin implements the datastore: after any sequence of commits, each of which
  adds one static mapping with source prefixes under a new index or deletes one, every
  commit has been accepted, the plugin's table is the datastore's, and VOM holds under the
  key of each index exactly the mapping of that index, if the flag \<open>create\<close> happens to
  start as false.
\<close>

theorem nat_table_mirrors_datastore:
  assumes "exact_om vom owned" "mirrors owned st m" "edits_valid valid_entry edit es m"
    and "list_all2 (\<lambda>c e. nat_mem_create (fst c) = Some False \<and> carries api net xp (snd c) e) cs es"
  shows "\<exists>st'. commit_all (map (nat_commit_cb api net vom xp) cs) st = Val (SR_ERR_OK, st') \<and>
    mirrors owned st' (fold edit es m)"
  using entries.commits_mirror [OF assms(4), of vom owned st m] assms(1-3) by blast

lemma sample_exact_om: "exact_om sample_vom sample_owned"
  by (auto simp: exact_om_def sample_vom_def sample_owned_def sample_put_def fun_eq_iff)

theorem nat_table_mirrors_datastore_witness:
  "\<exists>st. commit_all (map (nat_commit_cb sample_api sample_net sample_vom [])
      [(nat_zeroed, sample_session (create_entry ''static'' ''src'')), (nat_zeroed, sample_session delete_entry),
       (nat_zeroed, sample_session (create_entry ''static'' ''src''))]) (sample_empty, \<lambda>_. None) = Val (SR_ERR_OK, st) \<and>
    mirrors sample_owned st [7 \<mapsto> ([10, 0, 0, 2], [192, 0, 2, 9])]"
proof -
  let ?es = "[Add_Entry 7 [10, 0, 0, 2] [192, 0, 2, 9], Drop_Entry 7, Add_Entry 7 [10, 0, 0, 2] [192, 0, 2, 9]]"
  have "carries sample_api sample_net [] (sample_session (create_entry ''static'' ''src''))
      (Add_Entry 7 [10, 0, 0, 2] [192, 0, 2, 9])"
    "carries sample_api sample_net [] (sample_session delete_entry) (Drop_Entry 7)"
    by code_simp+
  then have c: "list_all2 (\<lambda>c e. nat_mem_create (fst c) = Some False \<and> carries sample_api sample_net [] (snd c) e)
      [(nat_zeroed, sample_session (create_entry ''static'' ''src'')), (nat_zeroed, sample_session delete_entry),
       (nat_zeroed, sample_session (create_entry ''static'' ''src''))] ?es"
    by (simp add: nat_zeroed_def)
  have m: "mirrors sample_owned (sample_empty, \<lambda>_. None) (\<lambda>_. None)"
    by (simp add: mirrors_def sample_owned_def sample_empty_def)
  have v: "edits_valid valid_entry edit ?es (\<lambda>_. None)"
    by simp
  have f: "fold edit ?es (\<lambda>_. None) = [7 \<mapsto> ([10, 0, 0, 2], [192, 0, 2, 9])]"
    by simp
  from nat_table_mirrors_datastore [OF sample_exact_om m v c, unfolded f] show ?thesis .
qed

end
