(* ===== verification/Sr_Memory.thy ===== *)
theory Sr_Memory
  imports Ietf_Interface Openconfig_Interfaces Ietf_Nat
begin

text \<open>
  The objects that sysrepo allocates for a configuration callback: the change iterator and
  the two values of each change. The callbacks of the other theories keep only what their
  results depend on; here they are given with every pointer, so that releasing, releasing
  twice and not releasing are visible. Erasing the pointers gives back the callbacks.
\<close>

section \<open>Pointers\<close>

text \<open>
  The variables of a callback, and the number of objects that became unreachable because
  the only pointer to them was overwritten.
\<close>

record ptrs =
  p_old :: lifetime
  p_new :: lifetime
  p_iter :: lifetime
  leaked :: nat

definition start_ptrs :: "lifetime \<Rightarrow> ptrs" where
  "start_ptrs it = \<lparr>p_old = Null, p_new = Null, p_iter = it, leaked = 0\<rparr>"

definition live :: "lifetime \<Rightarrow> nat" where
  "live p = (if p = Live then 1 else 0)"

text \<open>\<open>sr_get_change_next\<close>: the two output pointers are overwritten.\<close>

definition set_vals :: "lifetime \<Rightarrow> lifetime \<Rightarrow> ptrs \<Rightarrow> ptrs" where
  "set_vals p q m = m\<lparr>p_old := p, p_new := q, leaked := leaked m + live (p_old m) + live (p_new m)\<rparr>"

definition alloc :: "'v option \<Rightarrow> lifetime" where
  "alloc v = (case v of None \<Rightarrow> Null | Some _ \<Rightarrow> Live)"

definition next_change :: "change \<Rightarrow> ptrs \<Rightarrow> ptrs" where
  "next_change c m = set_vals (alloc (old_val c)) (alloc (new_val c)) m"

definition end_of_changes :: "session \<Rightarrow> ptrs \<Rightarrow> ptrs" where
  "end_of_changes ds m = (if end_clears ds then set_vals Null Null m else m)"

text \<open>\<open>sr_free_val(old_val); sr_free_val(new_val);\<close> and \<open>sr_free_change_iter(iter);\<close>\<close>

definition free_vals :: "ptrs \<Rightarrow> ptrs outcome" where
  "free_vals m =
     bindO (free_ptr (p_old m)) (\<lambda>p. bindO (free_ptr (p_new m)) (\<lambda>q. Val (m\<lparr>p_old := p, p_new := q\<rparr>)))"

definition free_iter :: "ptrs \<Rightarrow> ptrs outcome" where
  "free_iter m = bindO (free_ptr (p_iter m)) (\<lambda>p. Val (m\<lparr>p_iter := p\<rparr>))"

text \<open>The cleanup labels\<close>

definition release :: "ptrs \<Rightarrow> ptrs outcome" where
  "release m = bindO (free_vals m) free_iter"


section \<open>The loop\<close>

text \<open>Every body ends with the release of the two values, unless it leaves the loop.\<close>

fun walk_mem ::
    "session \<Rightarrow> (change \<Rightarrow> 'l \<Rightarrow> 'l flow outcome) \<Rightarrow> change list \<Rightarrow> ptrs \<Rightarrow> 'l \<Rightarrow> ('l flow \<times> ptrs) outcome" where
  "walk_mem ds step [] m l = Val (Next l, end_of_changes ds m)"
| "walk_mem ds step (c # cs) m l =
     bindO (step c l) (\<lambda>f. case f of
        Next l' \<Rightarrow> bindO (free_vals (next_change c m)) (\<lambda>m'. walk_mem ds step cs m' l')
      | Leave rc l' \<Rightarrow> Val (Leave rc l', next_change c m))"

definition foreach_mem ::
    "sr_event \<Rightarrow> session \<Rightarrow> (change \<Rightarrow> 'l \<Rightarrow> 'l flow outcome) \<Rightarrow> change list \<Rightarrow> ptrs \<Rightarrow> 'l \<Rightarrow>
     ('l flow \<times> ptrs) outcome" where
  "foreach_mem event ds step cs m l =
     (if event = SR_EV_ABORT then Val (Next l, m) else walk_mem ds step cs m l)"


section \<open>The callbacks\<close>

text \<open>
  The code behind the loop of the interface callbacks: the flag tells a jump to
  \<open>nothing_todo\<close> from the return at the end.
\<close>

definition intf_commit ::
    "('s, 'i, 'p, 'a) vom_api \<Rightarrow> ('s, 'i) intf_locals \<Rightarrow> (bool \<times> sr_error \<times> 's) outcome" where
  "intf_commit vom l =
     bindO (load (create l)) (\<lambda>c.
     bindO
       (if c then bindO (build vom (builder l) (db l)) (\<lambda>(i, s). Val (l\<lparr>intf := i, db := s\<rparr>))
        else Val l)
       (\<lambda>l.
        if c \<and> intf l = None then Val (True, SR_ERR_INVAL_ARG, db l)
        else bindO (if c then Val True else load (modify l)) (\<lambda>wr.
          if wr
          then bindO (deref (intf l)) (\<lambda>i.
            (case om_write_interface vom (interface_key vom i (db l)) i (db l) of
               (RC_OK, s) \<Rightarrow> Val (False, SR_ERR_OK, s)
             | (RC_FAILED _, s) \<Rightarrow>
                 bindO (builder_to_string (builder l)) (\<lambda>_. Val (True, SR_ERR_OPERATION_FAILED, s))
             | (RC_THROWN e, s) \<Rightarrow> Throw e))
          else bindO (load (remove l)) (\<lambda>rm.
            if rm then Val (False, SR_ERR_OK, om_remove vom (builder_name (builder l)) (db l))
            else Val (False, SR_ERR_OK, db l)))))"

definition intf_finish_mem ::
    "('s, 'i, 'p, 'a) vom_api \<Rightarrow> ptrs \<Rightarrow> ('s, 'i) intf_locals \<Rightarrow> ((sr_error \<times> 's) \<times> ptrs) outcome" where
  "intf_finish_mem vom m l =
     bindO (intf_commit vom l) (\<lambda>(jump, r). bindO (if jump then release m else free_iter m) (\<lambda>m'. Val (r, m')))"

definition ietf_interface_create_mem ::
    "sr_api \<Rightarrow> ('s, 'i, 'p, 'a) vom_api \<Rightarrow> uninit \<Rightarrow> session \<Rightarrow> string \<Rightarrow> sr_event \<Rightarrow> 's \<Rightarrow>
     ((sr_error \<times> 's) \<times> ptrs) outcome" where
  "ietf_interface_create_mem api vom mem ds xp event s =
     (if event \<noteq> SR_EV_VERIFY then Val ((SR_ERR_OK, s), start_ptrs Null)
      else case sr_get_changes_iter ds xp of (rc, cs) \<Rightarrow>
        if rc \<noteq> SR_ERR_OK
        then bindO (free_iter (start_ptrs Null)) (\<lambda>m. Val ((SR_ERR_OPERATION_FAILED, s), m))
        else bindO (foreach_mem event ds (ietf_create_step api vom) cs (start_ptrs Live) (intf_start mem s)) (\<lambda>(f, m).
          case f of
            Leave rc l \<Rightarrow> bindO (release m) (\<lambda>m'. Val ((rc, db l), m'))
          | Next l \<Rightarrow> intf_finish_mem vom m l))"

definition ietf_interface_ipv46_address_change_mem ::
    "byte_order \<Rightarrow> sr_api \<Rightarrow> 'a net_api \<Rightarrow> ('s, 'i, 'p, 'a) vom_api \<Rightarrow> session \<Rightarrow> string \<Rightarrow> sr_event \<Rightarrow>
     's \<Rightarrow> ((sr_error \<times> 's) \<times> ptrs) outcome" where
  "ietf_interface_ipv46_address_change_mem order api net vom ds xp event s =
     (if event = SR_EV_APPLY then Val ((SR_ERR_OK, s), start_ptrs Null)
      else case sr_get_changes_iter ds xp of (rc, cs) \<Rightarrow>
        if rc \<noteq> SR_ERR_OK then bindO (free_iter (start_ptrs Null)) (\<lambda>m. Val ((rc, s), m))
        else bindO (foreach_mem event ds (addr_step order api net vom) cs (start_ptrs Live) (addr_start s)) (\<lambda>(f, m).
          case f of
            Leave rc l \<Rightarrow> bindO (release m) (\<lambda>m'. Val ((rc, addr_db l), m'))
          | Next l \<Rightarrow> bindO (free_iter m) (\<lambda>m'. Val ((op_rc l, addr_db l), m'))))"

text \<open>
  The OpenConfig callback returns from inside the loop where the name is empty, without
  releasing anything; its other exits jump to \<open>nothing_todo\<close>.
\<close>

definition oc_interfaces_config_mem ::
    "sr_api \<Rightarrow> ('s, 'i, 'p, 'a) vom_api \<Rightarrow> uninit \<Rightarrow> session option \<Rightarrow> string option \<Rightarrow> sr_event \<Rightarrow> 's \<Rightarrow>
     ((sr_error \<times> 's) \<times> ptrs) outcome" where
  "oc_interfaces_config_mem api vom mem ds xp event s =
     ARG_CHECK2 ((SR_ERR_INVAL_ARG, s), start_ptrs Null) ds xp (\<lambda>ds xp.
       if event \<noteq> SR_EV_VERIFY then Val ((SR_ERR_OK, s), start_ptrs Null)
       else case sr_get_changes_iter ds xp of (rc, cs) \<Rightarrow>
         if rc \<noteq> SR_ERR_OK then bindO (free_iter (start_ptrs Null)) (\<lambda>m. Val ((SR_ERR_OK, s), m))
         else bindO (foreach_mem event ds (oc_config_step api vom) cs (start_ptrs Live) (intf_start mem s)) (\<lambda>(f, m).
           case f of
             Leave rc l \<Rightarrow>
               if rc = SR_ERR_INVAL_ARG then Val ((rc, db l), m)
               else bindO (release m) (\<lambda>m'. Val ((rc, db l), m'))
           | Next l \<Rightarrow> intf_finish_mem vom m l))"

definition nat_commit ::
    "'a net_api \<Rightarrow> ('s, 'i, 'p, 'a) vom_api \<Rightarrow> 'a nat_locals \<Rightarrow> 's \<times> 'a nat_table_t \<Rightarrow>
     (bool \<times> sr_error \<times> 's \<times> 'a nat_table_t) outcome" where
  "nat_commit net vom l st =
     bindO (load (nat_create l)) (\<lambda>c.
     if c
     then bindO (nat_build net (nat_builder l)) (\<lambda>(ns, b).
       (case ns of
          None \<Rightarrow> Val (True, SR_ERR_INVAL_ARG, st)
        | Some (i, out) \<Rightarrow>
            bindO (load (xindex l)) (\<lambda>x.
            (case om_write_nat vom (nat_key x) i out (fst st) of
               (RC_OK, s) \<Rightarrow> Val (False, SR_ERR_OK, s, (snd st)(x \<mapsto> (nat_inside b, nat_outside b)))
             | (RC_FAILED _, s) \<Rightarrow> Val (True, SR_ERR_OPERATION_FAILED, s, snd st)
             | (RC_THROWN e, s) \<Rightarrow> Throw e))))
     else bindO (load (nat_remove l)) (\<lambda>r.
       if r
       then bindO (load (xindex l)) (\<lambda>x.
         Val (False, SR_ERR_OK, om_remove vom (nat_key x) (fst st), (snd st)(x := None)))
       else Val (False, SR_ERR_OK, st)))"

definition nat_mapping_table_config_mem ::
    "sr_api \<Rightarrow> 'a net_api \<Rightarrow> ('s, 'i, 'p, 'a) vom_api \<Rightarrow> nat_uninit \<Rightarrow> session option \<Rightarrow> string option \<Rightarrow>
     sr_event \<Rightarrow> 's \<times> 'a nat_table_t \<Rightarrow> ((sr_error \<times> 's \<times> 'a nat_table_t) \<times> ptrs) outcome" where
  "nat_mapping_table_config_mem api net vom mem ds xp event st =
     ARG_CHECK2 ((SR_ERR_INVAL_ARG, st), start_ptrs Null) ds xp (\<lambda>ds xp.
     if event \<noteq> SR_EV_VERIFY then Val ((SR_ERR_OK, st), start_ptrs Null)
     else case sr_get_changes_iter ds xp of (rc, cs) \<Rightarrow>
       if rc \<noteq> SR_ERR_OK then bindO (release (start_ptrs (nat_mem_it mem))) (\<lambda>m. Val ((rc, st), m))
       else bindO (foreach_mem event ds (nat_step api net) cs (start_ptrs Live) (nat_start net mem)) (\<lambda>(f, m).
         case f of
           Leave rc l \<Rightarrow> bindO (release m) (\<lambda>m'. Val ((rc, st), m'))
         | Next l \<Rightarrow> bindO (free_iter m) (\<lambda>m.
             bindO (nat_commit net vom l st) (\<lambda>(jump, r).
               bindO (if jump then release m else Val m) (\<lambda>m'. Val (r, m'))))))"


section \<open>Pointers in the loop\<close>

text \<open>Nothing is held between two changes; during a change the values are held.\<close>

definition at_rest :: "ptrs \<Rightarrow> bool" where
  "at_rest m \<longleftrightarrow> p_old m \<in> {Null, Freed} \<and> p_new m \<in> {Null, Freed}"

definition in_change :: "ptrs \<Rightarrow> bool" where
  "in_change m \<longleftrightarrow> p_old m \<in> {Null, Live} \<and> p_new m \<in> {Null, Live}"

text \<open>Every object was released.\<close>

definition clean :: "ptrs \<Rightarrow> bool" where
  "clean m \<longleftrightarrow> p_old m \<noteq> Live \<and> p_new m \<noteq> Live \<and> p_iter m \<noteq> Live \<and> leaked m = 0"

definition erase :: "('r \<times> ptrs) outcome \<Rightarrow> 'r outcome" where
  "erase m = bindO m (\<lambda>(r, p). Val r)"

lemmas ptr_defs = start_ptrs_def set_vals_def next_change_def end_of_changes_def alloc_def live_def

lemma next_change_ptrs:
  assumes "at_rest m"
  shows "in_change (next_change c m)" "p_iter (next_change c m) = p_iter m" "leaked (next_change c m) = leaked m"
  using assms by (auto simp: ptr_defs at_rest_def in_change_def split: option.split)

lemma free_vals_in_change:
  assumes "in_change m"
  shows "\<exists>m'. free_vals m = Val m' \<and> at_rest m' \<and> p_iter m' = p_iter m \<and> leaked m' = leaked m \<and>
    (p_old m' = Freed \<longleftrightarrow> p_old m = Live) \<and> (p_new m' = Freed \<longleftrightarrow> p_new m = Live)"
  using assms by (auto simp: in_change_def free_vals_def at_rest_def)

lemma end_of_changes_ptrs:
  assumes "at_rest m"
  shows "at_rest (end_of_changes ds m)" "p_iter (end_of_changes ds m) = p_iter m" "leaked (end_of_changes ds m) = leaked m"
  using assms by (auto simp: ptr_defs at_rest_def)

lemma erase_walk_mem: "at_rest m \<Longrightarrow> erase (walk_mem ds step cs m l) = walk_changes step cs l"
proof (induction cs arbitrary: m l)
  case (Cons c cs)
  obtain m' where m': "free_vals (next_change c m) = Val m'" "at_rest m'"
    using free_vals_in_change [OF next_change_ptrs(1) [OF Cons.prems, of c]] by blast
  show ?case
    using Cons.IH [OF m'(2)] m'(1)
    by (auto simp: erase_def bindO_assoc intro!: bindO_cong split: flow.split)
qed (simp add: erase_def)

lemma walk_mem_ptrs:
  assumes "walk_mem ds step cs m l = Val (f, m')" "at_rest m"
  shows "p_iter m' = p_iter m \<and> leaked m' = leaked m \<and>
    (case f of Next l' \<Rightarrow> at_rest m' | Leave rc l' \<Rightarrow> in_change m')"
  using assms
proof (induction cs arbitrary: m l)
  case (Cons c cs)
  obtain g where g: "step c l = Val g"
    using Cons.prems(1) by (auto simp: outcome_simps)
  obtain m1 where m1: "free_vals (next_change c m) = Val m1" "at_rest m1"
    "p_iter m1 = p_iter m" "leaked m1 = leaked m"
    using free_vals_in_change [OF next_change_ptrs(1) [OF Cons.prems(2), of c]] next_change_ptrs(2,3) [OF Cons.prems(2), of c]
    by auto
  show ?case
  proof (cases g)
    case (Next l')
    with Cons g m1 show ?thesis
      by auto
  next
    case (Leave rc l')
    with Cons.prems g next_change_ptrs [OF Cons.prems(2), of c] show ?thesis
      by auto
  qed
qed (auto simp: end_of_changes_ptrs)


section \<open>The contract of a loop body\<close>

text \<open>
  A body that goes on to the next change has looked at one of the two values: after the
  loop, a value pointer is dangling exactly where \<open>vals_after_loop\<close> says so.
\<close>

definition dangling :: "ptrs \<Rightarrow> bool" where
  "dangling m \<longleftrightarrow> p_old m = Freed \<or> p_new m = Freed"

locale reading_body =
  fixes step :: "change \<Rightarrow> 'l \<Rightarrow> 'l flow outcome"
  assumes reads: "step c l = Val (Next l') \<Longrightarrow> old_val c \<noteq> None \<or> new_val c \<noteq> None"
begin

lemma next_dangling:
  assumes "step c l = Val (Next l')" "at_rest m" "free_vals (next_change c m) = Val m'"
  shows "dangling m'"
  using reads [OF assms(1)] free_vals_in_change [OF next_change_ptrs(1) [OF assms(2), of c]] assms(3)
  by (auto simp: dangling_def next_change_def set_vals_def alloc_def)

lemma walk_dangling:
  assumes "walk_mem ds step cs m l = Val (Next l', m')" "at_rest m"
  shows "dangling m' \<longleftrightarrow> \<not> end_clears ds \<and> (cs \<noteq> [] \<or> dangling m)"
  using assms
proof (induction cs arbitrary: m l)
  case (Cons c cs)
  obtain f where "step c l = Val f"
    using Cons.prems(1) by (auto simp: outcome_simps)
  with Cons.prems(1) obtain l1 where l1: "step c l = Val (Next l1)"
    by (cases f) auto
  obtain m1 where m1: "free_vals (next_change c m) = Val m1" "at_rest m1"
    using free_vals_in_change [OF next_change_ptrs(1) [OF Cons.prems(2), of c]] by blast
  with Cons l1 next_dangling [OF l1 Cons.prems(2) m1(1)] show ?case
    by auto
qed (auto simp: end_of_changes_def set_vals_def dangling_def split: if_splits)

lemma walk_vals_after_loop:
  assumes "walk_mem ds step cs (start_ptrs Live) l = Val (Next l', m)"
  shows "dangling m \<longleftrightarrow> vals_after_loop ds cs = Freed"
  using walk_dangling [OF assms] by (auto simp: at_rest_def start_ptrs_def dangling_def vals_after_loop_def)

end

interpretation ietf_reads: reading_body "ietf_create_step api vom" for api vom
  by unfold_locales (auto simp: ietf_create_step_def outcome_simps split: option.splits)

interpretation addr_reads: reading_body "addr_step order api net vom" for order api net vom
  by unfold_locales (auto simp: addr_step_def outcome_simps split: option.splits)

interpretation oc_reads: reading_body "oc_config_step api vom" for api vom
  by unfold_locales (auto simp: oc_config_step_def outcome_simps)

interpretation nat_reads: reading_body "nat_step api net" for api net
proof unfold_locales
  fix c :: change and l l' :: "'a nat_locals"
  assume "nat_step api net c l = Val (Next l')"
  then show "old_val c \<noteq> None \<or> new_val c \<noteq> None"
    by (cases "oper c") (auto simp: nat_step_def outcome_simps)
qed


section \<open>The cleanup labels\<close>

lemma start_ptrs_at_rest [simp]: "at_rest (start_ptrs it)"
  by (simp add: at_rest_def start_ptrs_def)

lemma release_in_change:
  assumes "in_change m" "p_iter m = Live" "leaked m = 0"
  shows "\<exists>m'. release m = Val m' \<and> clean m'"
  using assms by (auto simp: in_change_def release_def free_vals_def free_iter_def clean_def)

lemma release_at_rest:
  assumes "at_rest m" "p_iter m = Live" "leaked m = 0"
  shows "if dangling m then release m = Undef DoubleFree else \<exists>m'. release m = Val m' \<and> clean m'"
  using assms by (auto simp: at_rest_def dangling_def release_def free_vals_def free_iter_def clean_def)

lemma free_iter_at_rest:
  assumes "at_rest m" "p_iter m = Live" "leaked m = 0"
  shows "\<exists>m'. free_iter m = Val m' \<and> clean m' \<and> p_iter m' = Freed \<and> at_rest m'"
  using assms by (auto simp: at_rest_def free_iter_def clean_def)

lemma intf_finish_commit:
  "intf_finish vom vals l =
    bindO (intf_commit vom l) (\<lambda>(jump, r). if jump then bindO (free_ptr vals) (\<lambda>_. Val r) else Val r)"
  by (auto simp: intf_finish_def intf_commit_def bindO_assoc intro!: bindO_cong split: prod.split rc_t.split)

lemma nat_finish_commit:
  "nat_finish net vom vals l st =
    bindO (nat_commit net vom l st) (\<lambda>(jump, r). if jump then nat_error vals Freed r else Val r)"
  by (auto simp: nat_finish_def nat_commit_def bindO_assoc intro!: bindO_cong
      split: prod.split rc_t.split option.split)


lemma foreach_mem_verify [simp]:
  "foreach_mem SR_EV_VERIFY ds step cs m l = walk_mem ds step cs m l"
  "foreach_mem SR_EV_ABORT ds step cs m l = Val (Next l, m)"
  by (simp_all add: foreach_mem_def)

text \<open>
  The loop with the code behind it: a jump releases everything, a normal end goes on with
  the pointers at rest and the iterator live.
\<close>

lemma run_mem_erase:
  assumes "\<And>rc l m. in_change m \<Longrightarrow> p_iter m = Live \<Longrightarrow> leaked m = 0 \<Longrightarrow> erase (jump rc l m) = jump' rc l"
    and "\<And>l m. at_rest m \<Longrightarrow> p_iter m = Live \<Longrightarrow> leaked m = 0 \<Longrightarrow>
      walk_mem ds step cs (start_ptrs Live) l0 = Val (Next l, m) \<Longrightarrow> erase (finish l m) = finish' l"
  shows "erase (bindO (walk_mem ds step cs (start_ptrs Live) l0)
      (\<lambda>(f, m). case f of Leave rc l \<Rightarrow> jump rc l m | Next l \<Rightarrow> finish l m)) =
    bindO (walk_changes step cs l0) (\<lambda>f. case f of Leave rc l \<Rightarrow> jump' rc l | Next l \<Rightarrow> finish' l)"
proof -
  have walk: "walk_changes step cs l0 = erase (walk_mem ds step cs (start_ptrs Live) l0)"
    by (rule erase_walk_mem [symmetric]) simp
  show ?thesis
  proof (cases "walk_mem ds step cs (start_ptrs Live) l0")
    case (Val fm)
    obtain f m where fm: "fm = (f, m)"
      by fastforce
    have "p_iter m = Live" "leaked m = 0" "case f of Next l \<Rightarrow> at_rest m | Leave rc l \<Rightarrow> in_change m"
      using walk_mem_ptrs [OF Val [unfolded fm]] by (simp_all add: start_ptrs_def at_rest_def)
    with Val fm assms show ?thesis
      by (cases f) (simp_all add: walk erase_def)
  qed (simp_all add: walk erase_def)
qed


lemma erase_Val [simp]: "erase (Val (r, m)) = Val r"
  by (simp add: erase_def)

lemma erase_release:
  assumes "in_change m" "p_iter m = Live" "leaked m = 0"
  shows "erase (bindO (release m) (\<lambda>m'. Val (r, m'))) = Val r"
  using release_in_change [OF assms] by auto

lemma erase_free_iter:
  assumes "at_rest m" "p_iter m = Live" "leaked m = 0"
  shows "erase (bindO (free_iter m) (\<lambda>m'. Val (r, m'))) = Val r"
  using free_iter_at_rest [OF assms] by auto

lemma erase_intf_finish:
  assumes "at_rest m" "p_iter m = Live" "leaked m = 0" "dangling m \<longleftrightarrow> vals_after_loop ds cs = Freed"
  shows "erase (intf_finish_mem vom m l) = intf_finish vom (vals_after_loop ds cs) l"
proof -
  have "erase (bindO (if jump then release m else free_iter m) (\<lambda>m'. Val (r, m'))) =
      (if jump then bindO (free_ptr (vals_after_loop ds cs)) (\<lambda>_. Val r) else Val r)" for jump and r :: "sr_error \<times> 'a"
    using release_at_rest [OF assms(1-3)] free_iter_at_rest [OF assms(1-3)] assms(4)
    by (auto simp: vals_after_loop_def erase_def split: if_splits)
  then show ?thesis
    by (auto simp: intf_finish_mem_def intf_finish_commit erase_def bindO_assoc intro!: bindO_cong
        split: prod.split)
qed


section \<open>Erasing the pointers\<close>

lemma free_iter_null: "free_iter (start_ptrs Null) = Val (start_ptrs Null)"
  by (simp add: free_iter_def start_ptrs_def)

lemma erase_ietf_create:
  "erase (ietf_interface_create_mem api vom mem ds xp event s) = ietf_interface_create_cb api vom mem ds xp event s"
  by (auto simp: ietf_interface_create_mem_def ietf_interface_create_cb_def intf_run_def free_iter_null
      split: prod.split intro!: run_mem_erase erase_release erase_intf_finish ietf_reads.walk_vals_after_loop)

lemma erase_addr_change:
  "erase (ietf_interface_ipv46_address_change_mem order api net vom ds xp event s) =
    ietf_interface_ipv46_address_change_cb order api net vom ds xp event s"
proof (cases "event = SR_EV_ABORT")
  case True
  then show ?thesis
    by (auto simp: ietf_interface_ipv46_address_change_mem_def ietf_interface_ipv46_address_change_cb_def
        free_iter_null erase_free_iter start_ptrs_def at_rest_def free_iter_def split: prod.split)
next
  case False
  then show ?thesis
    by (auto simp: ietf_interface_ipv46_address_change_mem_def ietf_interface_ipv46_address_change_cb_def
        free_iter_null foreach_mem_def split: prod.split intro!: run_mem_erase erase_release erase_free_iter)
qed

lemma erase_oc_config:
  "erase (oc_interfaces_config_mem api vom mem ds xp event s) = oc_interfaces_config_cb api vom mem ds xp event s"
proof (cases "ds = None \<or> xp = None")
  case False
  then obtain d x where "ds = Some d" "xp = Some x"
    by auto
  then show ?thesis
    by (auto simp: oc_interfaces_config_mem_def oc_interfaces_config_cb_def intf_run_def free_iter_null
        split: prod.split intro!: run_mem_erase erase_release erase_intf_finish oc_reads.walk_vals_after_loop)
qed (auto simp: oc_interfaces_config_mem_def oc_interfaces_config_cb_def)

lemma release_freed_iter:
  assumes "at_rest m" "p_iter m = Freed"
  shows "release m = Undef DoubleFree"
  using assms by (auto simp: at_rest_def release_def free_vals_def free_iter_def)

lemma nat_error_freed_iter: "vals \<noteq> Uninit \<Longrightarrow> nat_error vals Freed r = Undef DoubleFree"
  by (cases vals) (simp_all add: nat_error_def)

lemma vals_after_loop_null_or_freed: "vals_after_loop ds cs \<in> {Null, Freed}"
  by (simp add: vals_after_loop_def)

lemma erase_nat_finish:
  assumes "at_rest m" "p_iter m = Live" "leaked m = 0" "vals \<in> {Null, Freed}"
  shows "erase (bindO (free_iter m) (\<lambda>m. bindO (nat_commit net vom l st) (\<lambda>(jump, r).
      bindO (if jump then release m else Val m) (\<lambda>m'. Val (r, m'))))) = nat_finish net vom vals l st"
  using free_iter_at_rest [OF assms(1-3)] assms(4)
  by (auto simp: nat_finish_commit nat_error_freed_iter release_freed_iter erase_def bindO_assoc
      intro!: bindO_cong split: prod.split)

lemma erase_nat_config:
  "erase (nat_mapping_table_config_mem api net vom mem ds xp event st) =
    nat_mapping_table_config_cb api net vom mem ds xp event st"
proof (cases "ds = None \<or> xp = None")
  case False
  then obtain d x where dx: "ds = Some d" "xp = Some x"
    by auto
  have "erase (bindO (release (start_ptrs it)) (\<lambda>m. Val ((rc, st), m))) = nat_error Null it (rc, st)" for it rc
    by (cases it) (simp_all add: release_def free_vals_def free_iter_def start_ptrs_def nat_error_def erase_def)
  then show ?thesis
    by (auto simp: dx nat_mapping_table_config_mem_def nat_mapping_table_config_cb_def nat_error_def
        split: prod.split intro!: run_mem_erase erase_release erase_nat_finish vals_after_loop_null_or_freed)
qed (auto simp: nat_mapping_table_config_mem_def nat_mapping_table_config_cb_def)



section \<open>What is released\<close>

text \<open>
  Where the jumps and the code behind the loop end in a state described by \<open>good\<close>, so does
  the callback.
\<close>

lemma run_mem_good:
  assumes "bindO (walk_mem ds step cs (start_ptrs Live) l0)
      (\<lambda>(f, m). case f of Leave rc l \<Rightarrow> jump rc l m | Next l \<Rightarrow> finish l m) = Val (r, m')"
    and "\<And>rc l m. in_change m \<Longrightarrow> p_iter m = Live \<Longrightarrow> leaked m = 0 \<Longrightarrow> jump rc l m = Val (r, m') \<Longrightarrow> good r m'"
    and "\<And>l m. at_rest m \<Longrightarrow> p_iter m = Live \<Longrightarrow> leaked m = 0 \<Longrightarrow> finish l m = Val (r, m') \<Longrightarrow> good r m'"
  shows "good r m'"
proof -
  obtain f m where w: "walk_mem ds step cs (start_ptrs Live) l0 = Val (f, m)"
    and rest: "(case f of Leave rc l \<Rightarrow> jump rc l m | Next l \<Rightarrow> finish l m) = Val (r, m')"
    using assms(1) by (auto simp: outcome_simps)
  have "p_iter m = Live" "leaked m = 0" "case f of Next l \<Rightarrow> at_rest m | Leave rc l \<Rightarrow> in_change m"
    using walk_mem_ptrs [OF w] by (simp_all add: start_ptrs_def at_rest_def)
  with rest assms(2,3) show ?thesis
    by (cases f) auto
qed

lemma release_clean:
  "release m = Val m' \<Longrightarrow> leaked m = 0 \<Longrightarrow> clean m'"
  by (auto simp: release_def free_vals_def free_iter_def clean_def outcome_simps)

lemma free_iter_clean:
  "free_iter m = Val m' \<Longrightarrow> at_rest m \<Longrightarrow> leaked m = 0 \<Longrightarrow> clean m'"
  by (auto simp: at_rest_def free_iter_def clean_def outcome_simps)

lemma start_ptrs_clean [simp]: "clean (start_ptrs Null)" "leaked (start_ptrs it) = 0"
  by (simp_all add: clean_def start_ptrs_def)

lemma intf_finish_clean:
  "intf_finish_mem vom m l = Val (r, m') \<Longrightarrow> at_rest m \<Longrightarrow> leaked m = 0 \<Longrightarrow> clean m'"
  by (auto simp: intf_finish_mem_def outcome_simps split: if_splits intro: release_clean free_iter_clean)

lemma ietf_create_clean:
  assumes "ietf_interface_create_mem api vom mem ds xp event s = Val (r, m)"
  shows "clean m"
proof (cases "event = SR_EV_VERIFY \<and> fst (sr_get_changes_iter ds xp) = SR_ERR_OK")
  case True
  with assms show ?thesis
    by (auto simp: ietf_interface_create_mem_def bindO_eq_Val [of "release _"] split: prod.splits
        intro: release_clean intf_finish_clean
        elim!: run_mem_good [where good = "\<lambda>r. clean"])
qed (use assms in \<open>auto simp: ietf_interface_create_mem_def free_iter_null split: prod.splits if_splits\<close>)


lemma addr_change_clean:
  assumes "ietf_interface_ipv46_address_change_mem order api net vom ds xp event s = Val (r, m)"
  shows "clean m"
proof (cases "event \<in> {SR_EV_APPLY, SR_EV_ABORT} \<or> fst (sr_get_changes_iter ds xp) \<noteq> SR_ERR_OK")
  case True
  with assms show ?thesis
    by (auto simp: ietf_interface_ipv46_address_change_mem_def free_iter_null outcome_simps split: prod.splits if_splits
        intro: free_iter_clean)
next
  case False
  with assms show ?thesis
    by (auto simp: ietf_interface_ipv46_address_change_mem_def foreach_mem_def bindO_eq_Val [of "release _"]
        bindO_eq_Val [of "free_iter _"] split: prod.splits
        intro: release_clean free_iter_clean elim!: run_mem_good [where good = "\<lambda>r. clean"])
qed

lemma nat_finish_clean:
  assumes "bindO (free_iter m) (\<lambda>m. bindO (nat_commit net vom l st) (\<lambda>(jump, r).
      bindO (if jump then release m else Val m) (\<lambda>m'. Val (r, m')))) = Val (r, m')"
    and "at_rest m" "p_iter m = Live" "leaked m = 0"
  shows "clean m'"
proof -
  obtain m1 where m1: "free_iter m = Val m1" "clean m1" "p_iter m1 = Freed" "at_rest m1"
    using free_iter_at_rest [OF assms(2-4)] by blast
  then have "m' = m1"
    using assms(1) by (auto simp: bindO_eq_Val [of "nat_commit _ _ _ _"] release_freed_iter split: if_splits)
  with m1 show ?thesis
    by simp
qed

lemma nat_config_clean:
  assumes "nat_mapping_table_config_mem api net vom mem ds xp event st = Val (r, m)"
  shows "clean m"
proof (cases "ds = None \<or> xp = None \<or> event \<noteq> SR_EV_VERIFY")
  case False
  then obtain d x where dx: "ds = Some d" "xp = Some x" "event = SR_EV_VERIFY"
    by auto
  show ?thesis
  proof (cases "fst (sr_get_changes_iter d x) = SR_ERR_OK")
    case True
    then obtain cs where cs: "sr_get_changes_iter d x = (SR_ERR_OK, cs)"
      by (metis prod.collapse)
    note run = assms [unfolded nat_mapping_table_config_mem_def dx ARG_CHECK2_simps cs, simplified]
    show ?thesis
      by (rule run_mem_good [OF run, where good = "\<lambda>r. clean"])
        (auto simp: bindO_eq_Val [of "release _"] intro: release_clean nat_finish_clean)
  qed (use assms dx in \<open>auto simp: nat_mapping_table_config_mem_def bindO_eq_Val split: prod.splits intro: release_clean\<close>)
qed (use assms in \<open>auto simp: nat_mapping_table_config_mem_def ARG_CHECK2_def ARG_CHECK_def split: option.splits\<close>)

lemma oc_config_clean:
  assumes "oc_interfaces_config_mem api vom mem ds xp event s = Val (r, m)" "fst r \<noteq> SR_ERR_INVAL_ARG"
  shows "clean m"
proof (cases "ds = None \<or> xp = None \<or> event \<noteq> SR_EV_VERIFY")
  case False
  then obtain d x where dx: "ds = Some d" "xp = Some x" "event = SR_EV_VERIFY"
    by auto
  show ?thesis
  proof (cases "fst (sr_get_changes_iter d x) = SR_ERR_OK")
    case True
    then obtain cs where cs: "sr_get_changes_iter d x = (SR_ERR_OK, cs)"
      by (metis prod.collapse)
    note run = assms(1) [unfolded oc_interfaces_config_mem_def dx ARG_CHECK2_simps cs, simplified]
    have "fst r \<noteq> SR_ERR_INVAL_ARG \<longrightarrow> clean m"
      by (rule run_mem_good [OF run, where good = "\<lambda>r m. fst r \<noteq> SR_ERR_INVAL_ARG \<longrightarrow> clean m"])
        (auto simp: bindO_eq_Val [of "release _"] intro: release_clean intf_finish_clean split: if_splits)
    with assms(2) show ?thesis
      by simp
  qed (use assms dx in \<open>auto simp: oc_interfaces_config_mem_def free_iter_null split: prod.splits\<close>)
qed (use assms in \<open>auto simp: oc_interfaces_config_mem_def ARG_CHECK2_def ARG_CHECK_def split: option.splits\<close>)


section \<open>Properties\<close>

text \<open>
  (C11) The pointers do not matter for the results: each of the four configuration
  callbacks, with every allocation and release written out, gives the outcome of its
  model without them. In particular the condition that the models use for a second
  release on the error paths is the right one.
\<close>

theorem memory_refines:
  "erase (ietf_interface_create_mem api vom mem d x event s) = ietf_interface_create_cb api vom mem d x event s \<and>
   erase (ietf_interface_ipv46_address_change_mem order api net vom d x event s) =
     ietf_interface_ipv46_address_change_cb order api net vom d x event s \<and>
   erase (oc_interfaces_config_mem api vom mem ds xp event s) = oc_interfaces_config_cb api vom mem ds xp event s \<and>
   erase (nat_mapping_table_config_mem api net vom nmem ds xp event (s, tbl)) =
     nat_mapping_table_config_cb api net vom nmem ds xp event (s, tbl)"
  by (intro conjI erase_ietf_create erase_addr_change erase_oc_config erase_nat_config)

text \<open>
  (C19) Nothing is lost: whenever one of the callbacks returns, the iterator and every
  value it got are released, on success and on all error paths. The OpenConfig callback
  does so unless it returns \<open>SR_ERR_INVAL_ARG\<close>.
\<close>

theorem callbacks_release:
  "(ietf_interface_create_mem api vom mem d x event s = Val (r, m) \<longrightarrow> clean m) \<and>
   (ietf_interface_ipv46_address_change_mem order api net vom d x event s = Val (r, m) \<longrightarrow> clean m) \<and>
   (nat_mapping_table_config_mem api net vom nmem ds xp event (s, tbl) = Val (r', m) \<longrightarrow> clean m) \<and>
   (oc_interfaces_config_mem api vom mem ds xp event s = Val (r, m) \<longrightarrow> fst r = SR_ERR_INVAL_ARG \<or> clean m)"
  by (blast intro: ietf_create_clean addr_change_clean nat_config_clean oc_config_clean)

definition released :: ptrs where
  "released = \<lparr>p_old = Null, p_new = Null, p_iter = Freed, leaked = 0\<rparr>"

theorem callbacks_release_witness:
  "\<exists>r. ietf_interface_create_mem sample_api sample_vom indeterminate (sample_session create_eth0) [] SR_EV_VERIFY
      sample_empty = Val (r, released) \<and> clean released"
proof -
  let ?r = "(SR_ERR_OK, \<lparr>itfs = [(''eth0'', ''ETHERNET'', True)], objs = [(''eth0'', Sample_Itf ''eth0'')]\<rparr>)"
  have "ietf_interface_create_mem sample_api sample_vom indeterminate (sample_session create_eth0) [] SR_EV_VERIFY
      sample_empty = Val (?r, released)"
    by code_simp
  with callbacks_release [of sample_api sample_vom indeterminate "sample_session create_eth0" "[]" SR_EV_VERIFY
      sample_empty ?r released]
  show ?thesis
    by blast
qed

text \<open>
  The early return of the OpenConfig callback: for a change whose xpath names no
  interface it returns \<open>SR_ERR_INVAL_ARG\<close> with the iterator and the values of that change
  still allocated.
\<close>

lemma oc_empty_name_leaks:
  assumes "sr_get_changes_iter ds xp = (SR_ERR_OK, c # cs)" "new_val c = Some v"
    and "sr_xpath_key_value api (xpath v) ''interface'' ''name'' = Some []"
  shows "oc_interfaces_config_mem api vom mem (Some ds) (Some xp) SR_EV_VERIFY s =
    Val ((SR_ERR_INVAL_ARG, s), \<lparr>p_old = alloc (old_val c), p_new = Live, p_iter = Live, leaked = 0\<rparr>)"
  using assms
  by (simp add: oc_interfaces_config_mem_def oc_config_step_def intf_start_def ptr_defs)

definition unnamed_created :: change where
  "unnamed_created = sample_created (''/interfaces/interface[name='' @ [CHR 0x27, CHR 0x27] @ '']/config'') SR_OTHER_T"

end
