(* ===== verification/Exceptions.thy ===== *)
theory Exceptions
  imports Sr_Memory
begin

text \<open>
  C++ exceptions in the configuration callbacks, which sysrepo calls from C. An exception
  that leaves a callback ends the plugin daemon or, if it is caught further up, loses the
  objects that the callback held in its variables.
\<close>

section \<open>Outcomes without exceptions\<close>

fun no_throw :: "'a outcome \<Rightarrow> bool" where
  "no_throw (Throw e) = False"
| "no_throw _ = True"

lemma no_throw_iff: "no_throw m \<longleftrightarrow> (\<forall>e. m \<noteq> Throw e)"
  by (cases m) simp_all

lemma bindO_eq_Throw: "bindO m f = Throw e \<longleftrightarrow> m = Throw e \<or> (\<exists>x. m = Val x \<and> f x = Throw e)"
  by (cases m) auto

lemma no_throw_bindO: "no_throw m \<Longrightarrow> (\<And>x. m = Val x \<Longrightarrow> no_throw (f x)) \<Longrightarrow> no_throw (bindO m f)"
  by (cases m) simp_all

lemma no_throw_catchO: "(\<And>e. no_throw (h e)) \<Longrightarrow> no_throw (catchO m h)"
  by (cases m) simp_all

lemma no_throw_reads [simp]:
  "no_throw (load x)" "no_throw (deref p)" "no_throw (free_ptr q)"
  by (simp_all add: load_def deref_def split: option.split) (cases q; simp)

lemma no_throw_vals [simp]:
  "no_throw (string_val v)" "no_throw (bool_val v)" "no_throw (uint8_val v)" "no_throw (uint32_val v)"
  by (cases "data v"; simp)+

lemma never_Throw [simp]:
  "load x \<noteq> Throw e" "deref p \<noteq> Throw e" "free_ptr q \<noteq> Throw e"
  by (simp_all add: load_def deref_def split: option.split) (cases q; simp)

lemma walk_no_throw:
  "(\<And>c l. c \<in> set cs \<Longrightarrow> no_throw (step c l)) \<Longrightarrow> no_throw (walk_changes step cs l)"
  by (induction cs arbitrary: l) (auto intro!: no_throw_bindO split: flow.split)

lemma foreach_no_throw:
  "(\<And>c l. no_throw (step c l)) \<Longrightarrow> no_throw (foreach_change event step cs l)"
  by (simp add: foreach_change_def walk_no_throw)

lemmas no_throw_intros = no_throw_bindO no_throw_catchO


section \<open>The interface callbacks\<close>

lemma intf_branches_no_throw:
  "no_throw (intf_created api v l)" "no_throw (intf_modified api vom v l)" "no_throw (intf_deleted api v l)"
  by (auto simp: intf_created_def intf_modified_def intf_deleted_def simp del: string_val.simps bool_val.simps
      intro!: no_throw_intros split: option.split)

text \<open>An exception comes from the write alone, when the loop is over.\<close>

lemma build_no_throw: "build vom b s \<noteq> Throw e"
  by (simp add: build_def bindO_eq_Throw split: prod.split)

lemma intf_finish_Throw:
  assumes "intf_finish vom vals l = Throw e"
  shows "\<exists>i s. fst (om_write_interface vom (interface_key vom i s) i s) = RC_THROWN e"
proof -
  have w: "fst (om_write_interface vom k i s) = RC_THROWN e"
    if "(case om_write_interface vom k i s of
      (RC_OK, s') \<Rightarrow> Val (SR_ERR_OK, s')
    | (RC_FAILED _, s') \<Rightarrow> bindO (builder_to_string b) (\<lambda>_. bindO (free_ptr vals) (\<lambda>_. Val (SR_ERR_OPERATION_FAILED, s')))
    | (RC_THROWN e, s') \<Rightarrow> Throw e) = Throw e" for k i s b
    using that by (auto simp: builder_to_string_def bindO_eq_Throw split: prod.splits rc_t.splits)
  show ?thesis
    using assms by (auto simp: intf_finish_def bindO_eq_Throw build_no_throw dest!: w split: if_splits)
qed

lemma intf_run_Throw:
  assumes "\<And>c l. no_throw (step c l)" "intf_run step vom mem ds SR_EV_VERIFY cs s = Throw e"
  shows "\<exists>l m. walk_mem ds step cs (start_ptrs Live) (intf_start mem s) = Val (Next l, m) \<and> p_iter m = Live \<and>
    (\<exists>i s'. fst (om_write_interface vom (interface_key vom i s') i s') = RC_THROWN e)"
proof -
  have "no_throw (walk_changes step cs (intf_start mem s))"
    using assms(1) by (intro walk_no_throw)
  then obtain f where f: "walk_changes step cs (intf_start mem s) = Val f"
    "(case f of Leave rc l \<Rightarrow> Val (rc, db l) | Next l \<Rightarrow> intf_finish vom (vals_after_loop ds cs) l) = Throw e"
    using assms(2) by (auto simp: intf_run_def foreach_change_def bindO_eq_Throw)
  then obtain l where l: "f = Next l" "intf_finish vom (vals_after_loop ds cs) l = Throw e"
    by (cases f) simp_all
  have rest: "at_rest (start_ptrs Live)" "p_iter (start_ptrs Live) = Live"
    by (simp_all add: start_ptrs_def at_rest_def)
  obtain m where m: "walk_mem ds step cs (start_ptrs Live) (intf_start mem s) = Val (Next l, m)"
    using erase_walk_mem [OF rest(1), of ds step cs "intf_start mem s"] f(1) l(1)
    by (auto simp: erase_def bindO_eq_Val)
  with walk_mem_ptrs [OF m rest(1)] rest(2) intf_finish_Throw [OF l(2)] show ?thesis
    by auto
qed

lemma ietf_create_step_no_throw: "no_throw (ietf_create_step api vom c l)"
  by (auto simp: ietf_create_step_def intf_branches_no_throw intro!: no_throw_intros split: sr_oper.split)

lemma oc_config_step_no_throw: "no_throw (oc_config_step api vom c l)"
  by (auto simp: oc_config_step_def intf_branches_no_throw intro!: no_throw_intros split: sr_oper.split)

lemma addr_step_no_throw: "no_throw (addr_step order api net vom c l)"
  by (auto simp: addr_step_def addr_switch_def Let_def intro!: no_throw_intros split: sr_oper.split)


section \<open>The mapping callback\<close>

lemma nat_created_Throw:
  assumes "nat_created api net v l = Throw e"
  shows "leaf_of api v \<in> {Internal_Src, External_Src, Internal_Dest, External_Dest} \<and>
    bindO (string_val v) (make_prefix net) = Throw e"
proof -
  have "uint32_val v \<noteq> Throw e" "string_val v \<noteq> Throw e"
    using no_throw_vals(1,4) [of v] by (metis no_throw.simps(1))+
  with assms show ?thesis
    by (cases "leaf_of api v")
      (auto simp: nat_created_leaf setter_defs bindO_eq_Throw simp del: string_val.simps uint32_val.simps)
qed

lemma nat_step_Throw:
  assumes "nat_step api net c l = Throw e"
  shows "oper c = SR_OP_CREATED \<and> (\<exists>v. new_val c = Some v \<and> nat_created api net v l = Throw e)"
proof -
  have "deref p \<noteq> Throw e" "uint32_val v \<noteq> Throw e" for p :: "sr_val option" and v
    using no_throw_reads(2) [of p] no_throw_vals(4) [of v] by (metis no_throw.simps(1))+
  with assms show ?thesis
    by (cases "oper c")
      (auto simp: nat_step_def bindO_eq_Throw outcome_simps simp del: uint32_val.simps split: if_splits)
qed

lemma nat_build_no_throw: "no_throw (nat_build net b)"
  by (auto simp: nat_build_def both_present_eq Let_def intro!: no_throw_intros)

lemma nat_error_no_throw [simp]: "nat_error vals it r \<noteq> Throw e"
  by (simp add: nat_error_def bindO_eq_Throw)

lemma nat_finish_Throw:
  assumes "nat_finish net vom vals l st = Throw e"
  shows "\<exists>x i out. fst (om_write_nat vom (nat_key x) i out (fst st)) = RC_THROWN e"
proof -
  have w: "fst (om_write_nat vom k i out s) = RC_THROWN e"
    if "(case om_write_nat vom k i out s of
      (RC_OK, s) \<Rightarrow> Val (r s)
    | (RC_FAILED _, s) \<Rightarrow> nat_error vals it (SR_ERR_OPERATION_FAILED, s, snd st)
    | (RC_THROWN e, s) \<Rightarrow> Throw e) = Throw e" for k i out s r it
    using that by (auto split: prod.splits rc_t.splits)
  have b: "nat_build net b \<noteq> Throw e" for b
    using nat_build_no_throw [of net b] by auto
  from assms show ?thesis
    by (auto simp: nat_finish_def bindO_eq_Throw b dest!: w split: if_splits option.splits) blast
qed


section \<open>What an exception loses\<close>

text \<open>
  The variables of a callback when an exception leaves the body of its loop: no label is
  reached any more, so what they point to stays allocated. \<open>None\<close>: no exception.
\<close>

fun walk_unwound ::
    "(change \<Rightarrow> 'l \<Rightarrow> 'l flow outcome) \<Rightarrow> change list \<Rightarrow> ptrs \<Rightarrow> 'l \<Rightarrow> ptrs option" where
  "walk_unwound step [] m l = None"
| "walk_unwound step (c # cs) m l =
     (case step c l of
        Throw e \<Rightarrow> Some (next_change c m)
      | Val (Next l') \<Rightarrow>
          (case free_vals (next_change c m) of Val m' \<Rightarrow> walk_unwound step cs m' l' | _ \<Rightarrow> None)
      | _ \<Rightarrow> None)"

lemma walk_unwound_Throw:
  assumes "walk_changes step cs l = Throw e" "at_rest m"
  shows "\<exists>c l' m'. c \<in> set cs \<and> step c l' = Throw e \<and> walk_unwound step cs m l = Some m' \<and>
    p_iter m' = p_iter m \<and> leaked m' = leaked m \<and> p_old m' = alloc (old_val c) \<and> p_new m' = alloc (new_val c)"
  using assms
proof (induction cs arbitrary: m l)
  case (Cons c cs)
  show ?case
  proof (cases "step c l")
    case (Throw e')
    with Cons.prems have "step c l = Throw e" "walk_unwound step (c # cs) m l = Some (next_change c m)"
      by simp_all
    with next_change_ptrs(2,3) [OF Cons.prems(2), of c] show ?thesis
      by (force simp: next_change_def set_vals_def)
  next
    case (Val f)
    with Cons.prems(1) obtain l1 where l1: "f = Next l1" "walk_changes step cs l1 = Throw e"
      by (cases f) simp_all
    obtain m1 where m1: "free_vals (next_change c m) = Val m1" "at_rest m1"
      "p_iter m1 = p_iter m" "leaked m1 = leaked m"
      using free_vals_in_change [OF next_change_ptrs(1) [OF Cons.prems(2), of c]]
        next_change_ptrs(2,3) [OF Cons.prems(2), of c] by auto
    with Cons.IH [OF l1(2) m1(2)] Val l1(1) show ?thesis
      by auto
  qed (use Cons.prems in auto)
qed simp

lemma nat_walk_Throw:
  assumes "walk_changes (nat_step api net) cs (nat_start net mem) = Throw e"
  shows "\<exists>c v m. c \<in> set cs \<and> oper c = SR_OP_CREATED \<and> new_val c = Some v \<and>
    bindO (string_val v) (make_prefix net) = Throw e \<and>
    walk_unwound (nat_step api net) cs (start_ptrs Live) (nat_start net mem) = Some m \<and> p_iter m = Live \<and> p_new m = Live"
proof -
  have rest: "at_rest (start_ptrs Live)" "p_iter (start_ptrs Live) = Live"
    by (simp_all add: start_ptrs_def at_rest_def)
  obtain c l' m where c: "c \<in> set cs" "nat_step api net c l' = Throw e"
    "walk_unwound (nat_step api net) cs (start_ptrs Live) (nat_start net mem) = Some m"
    "p_iter m = Live" "p_new m = alloc (new_val c)"
    using walk_unwound_Throw [OF assms rest(1)] rest(2) by auto
  obtain v where v: "oper c = SR_OP_CREATED" "new_val c = Some v" "nat_created api net v l' = Throw e"
    using nat_step_Throw [OF c(2)] by blast
  with c nat_created_Throw [OF v(3)] show ?thesis
    by (force simp: alloc_def)
qed

lemma nat_cb_Throw:
  assumes "nat_mapping_table_config_cb api net vom mem (Some ds) (Some xp) event st = Throw e"
  shows "walk_changes (nat_step api net) (snd (sr_get_changes_iter ds xp)) (nat_start net mem) = Throw e \<or>
    (\<exists>x i out. fst (om_write_nat vom (nat_key x) i out (fst st)) = RC_THROWN e)"
proof (cases "event = SR_EV_VERIFY \<and> fst (sr_get_changes_iter ds xp) = SR_ERR_OK")
  case True
  then obtain cs where cs: "sr_get_changes_iter ds xp = (SR_ERR_OK, cs)"
    by (metis prod.collapse)
  have "\<exists>l vals. nat_finish net vom vals l st = Throw e"
    if "(case f of Leave rc l \<Rightarrow> nat_error Live Live (rc, st)
      | Next l \<Rightarrow> nat_finish net vom (vals_after_loop ds cs) l st) = Throw e" for f
    using that by (cases f) auto
  with assms True show ?thesis
    using nat_finish_Throw [of net vom _ _ st e] by (auto simp: nat_cb_verify [OF cs] cs bindO_eq_Throw)
next
  case False
  have "nat_error Null it (rc, st) \<noteq> Throw e" for it and rc :: sr_error
    by (cases it) (simp_all add: nat_error_def)
  with False assms show ?thesis
    by (auto simp: nat_mapping_table_config_cb_def split: prod.splits if_splits)
qed


section \<open>Properties\<close>

text \<open>
  (C20) Exceptions and the boundary to C. In the interface callbacks only the write to the
  object model can throw, nothing catches it, and the change iterator is not released any
  more. No exception leaves the address callback, although the addresses of a commit, VOM's
  prefixes and the writes of bindings may all throw in it. From the mapping callback it is
  either the exception of a write, or one for a created address leaf whose text is no
  prefix, and then the change iterator and the value of that leaf are never released.

  The object model throws from \<open>OM::write\<close> and the constructor of prefixes only, and what
  it throws derives from \<open>std::exception\<close>.
\<close>

theorem exceptions_contained:
  "(ietf_interface_create_cb api vom mem ds xp event s = Throw e \<longrightarrow>
     (\<exists>l m i s'. walk_mem ds (ietf_create_step api vom) (snd (sr_get_changes_iter ds xp)) (start_ptrs Live)
         (intf_start mem s) = Val (Next l, m) \<and> p_iter m = Live \<and>
       fst (om_write_interface vom (interface_key vom i s') i s') = RC_THROWN e)) \<and>
   (oc_interfaces_config_cb api vom mem (Some ds) (Some xp) event s = Throw e \<longrightarrow>
     (\<exists>l m i s'. walk_mem ds (oc_config_step api vom) (snd (sr_get_changes_iter ds xp)) (start_ptrs Live)
         (intf_start mem s) = Val (Next l, m) \<and> p_iter m = Live \<and>
       fst (om_write_interface vom (interface_key vom i s') i s') = RC_THROWN e)) \<and>
   ietf_interface_ipv46_address_change_cb order api net vom ds xp event s \<noteq> Throw e \<and>
   (nat_mapping_table_config_cb api net vom nmem (Some ds) (Some xp) event st = Throw e \<longrightarrow>
     (\<exists>x i out. fst (om_write_nat vom (nat_key x) i out (fst st)) = RC_THROWN e) \<or>
     (\<exists>c v m. c \<in> set (snd (sr_get_changes_iter ds xp)) \<and> oper c = SR_OP_CREATED \<and> new_val c = Some v \<and>
       bindO (string_val v) (make_prefix net) = Throw e \<and>
       walk_unwound (nat_step api net) (snd (sr_get_changes_iter ds xp)) (start_ptrs Live) (nat_start net nmem) = Some m \<and>
       p_iter m = Live \<and> p_new m = Live))"
proof (intro conjI impI)
  assume "ietf_interface_create_cb api vom mem ds xp event s = Throw e"
  then show "\<exists>l m i s'. walk_mem ds (ietf_create_step api vom) (snd (sr_get_changes_iter ds xp)) (start_ptrs Live)
      (intf_start mem s) = Val (Next l, m) \<and> p_iter m = Live \<and>
      fst (om_write_interface vom (interface_key vom i s') i s') = RC_THROWN e"
    using intf_run_Throw [OF ietf_create_step_no_throw]
    by (auto simp: ietf_interface_create_cb_def split: prod.splits if_splits)
next
  assume "oc_interfaces_config_cb api vom mem (Some ds) (Some xp) event s = Throw e"
  then show "\<exists>l m i s'. walk_mem ds (oc_config_step api vom) (snd (sr_get_changes_iter ds xp)) (start_ptrs Live)
      (intf_start mem s) = Val (Next l, m) \<and> p_iter m = Live \<and>
      fst (om_write_interface vom (interface_key vom i s') i s') = RC_THROWN e"
    using intf_run_Throw [OF oc_config_step_no_throw]
    by (auto simp: oc_interfaces_config_cb_def split: prod.splits if_splits)
next
  have "no_throw (ietf_interface_ipv46_address_change_cb order api net vom ds xp event s)"
    by (auto simp: ietf_interface_ipv46_address_change_cb_def
        intro!: no_throw_bindO foreach_no_throw addr_step_no_throw split: prod.split flow.split)
  then show "ietf_interface_ipv46_address_change_cb order api net vom ds xp event s \<noteq> Throw e"
    by (auto simp: no_throw_iff)
next
  assume "nat_mapping_table_config_cb api net vom nmem (Some ds) (Some xp) event st = Throw e"
  from nat_cb_Throw [OF this] show "(\<exists>x i out. fst (om_write_nat vom (nat_key x) i out (fst st)) = RC_THROWN e) \<or>
     (\<exists>c v m. c \<in> set (snd (sr_get_changes_iter ds xp)) \<and> oper c = SR_OP_CREATED \<and> new_val c = Some v \<and>
       bindO (string_val v) (make_prefix net) = Throw e \<and>
       walk_unwound (nat_step api net) (snd (sr_get_changes_iter ds xp)) (start_ptrs Live) (nat_start net nmem) = Some m \<and>
       p_iter m = Live \<and> p_new m = Live)"
  proof
    assume "walk_changes (nat_step api net) (snd (sr_get_changes_iter ds xp)) (nat_start net nmem) = Throw e"
    from nat_walk_Throw [OF this] show ?thesis
      by blast
  qed blast
qed

definition slashless_entry :: "change list" where
  "slashless_entry =
     [sample_created (entry_path ''index'') (SR_UINT32_T 7),
      sample_created (entry_path ''internal-src-address'') (SR_STRING_T ''10.0.0.2'')]"

text \<open>An object model whose writes throw\<close>

definition throwing_vom :: "(sample_db, string, string, 8 word list) vom_api" where
  "throwing_vom = sample_vom\<lparr>
     om_write_interface := (\<lambda>k i s. (RC_THROWN (Library_error ''VPP''), s)),
     om_write_l3 := (\<lambda>k i p s. (RC_THROWN (Library_error ''VPP''), s))\<rparr>"

text \<open>
  An address without a slash unwinds the mapping callback; a throwing write leaves the
  interface callback but not the address callback.
\<close>

theorem exceptions_contained_witness:
  "(\<exists>m. walk_unwound (nat_step sample_api sample_net) slashless_entry (start_ptrs Live) (nat_start sample_net nat_zeroed)
      = Some m \<and> \<not> clean m) \<and>
   ietf_interface_create_cb sample_api throwing_vom zeroed (sample_session create_eth0) [] SR_EV_VERIFY sample_empty =
     Throw (Library_error ''VPP'') \<and>
   (\<exists>l m. walk_mem (sample_session create_eth0) (ietf_create_step sample_api throwing_vom) create_eth0 (start_ptrs Live)
      (intf_start zeroed sample_empty) = Val (Next l, m) \<and> \<not> clean m) \<and>
   ietf_interface_ipv46_address_change_cb Little_Endian sample_api sample_net throwing_vom
     (sample_session (create_address ''10.0.0.1'' 24)) [] SR_EV_VERIFY eth0_db = Val (SR_ERR_OPERATION_FAILED, eth0_db)"
proof -
  let ?e = "Runtime_error (''missing '' @ [CHR 0x27, CHR ''/'', CHR 0x27] @ '' in 10.0.0.2'')"
  have nat: "nat_mapping_table_config_cb sample_api sample_net sample_vom nat_zeroed
      (Some (sample_session slashless_entry)) (Some []) SR_EV_VERIFY (sample_empty, \<lambda>_. None) = Throw ?e"
    by code_simp
  have quiet: "fst (om_write_nat sample_vom k i out s) \<noteq> RC_THROWN e" for k i out s e
    by (simp add: sample_vom_def sample_put_def)
  have intf: "ietf_interface_create_cb sample_api throwing_vom zeroed (sample_session create_eth0) [] SR_EV_VERIFY
      sample_empty = Throw (Library_error ''VPP'')"
    by code_simp
  have addr: "ietf_interface_ipv46_address_change_cb Little_Endian sample_api sample_net throwing_vom
      (sample_session (create_address ''10.0.0.1'' 24)) [] SR_EV_VERIFY eth0_db = Val (SR_ERR_OPERATION_FAILED, eth0_db)"
    by code_simp
  have "\<exists>m. walk_unwound (nat_step sample_api sample_net) slashless_entry (start_ptrs Live)
      (nat_start sample_net nat_zeroed) = Some m \<and> \<not> clean m"
    using exceptions_contained [of sample_api sample_vom zeroed "sample_session slashless_entry" "[]" SR_EV_VERIFY
        sample_empty ?e Little_Endian sample_net nat_zeroed "(sample_empty, \<lambda>_. None)"] nat quiet
    by (auto simp: clean_def)
  moreover have "\<exists>l m. walk_mem (sample_session create_eth0) (ietf_create_step sample_api throwing_vom) create_eth0
      (start_ptrs Live) (intf_start zeroed sample_empty) = Val (Next l, m) \<and> \<not> clean m"
    using exceptions_contained [of sample_api throwing_vom zeroed "sample_session create_eth0" "[]" SR_EV_VERIFY
        sample_empty "Library_error ''VPP''" Little_Endian sample_net nat_zeroed "(sample_empty, \<lambda>_. None)"] intf
    by (auto simp: clean_def)
  ultimately show ?thesis
    using intf addr by blast
qed

end
