(* ===== verification/Interface_State.thy ===== *)
theory Interface_State
  imports Ietf_Interface Sr_Values
begin

text \<open>
  The providers of operational data in \<open>src/plugins/ietf/ietf_interface.cpp\<close>:
  \<open>ietf_interface_state_cb\<close> answers with five values per VPP interface,
  \<open>interface_statistics_cb\<close> with the eight counters of one interface.
\<close>

section \<open>ietf\_interface\_state\_cb\<close>

text \<open>\<open>"%02x:%02x:%02x:%02x:%02x:%02x"\<close>\<close>

fun colon_join :: "string list \<Rightarrow> string" where
  "colon_join [] = []"
| "colon_join [x] = x"
| "colon_join (x # xs) = x @ '':'' @ colon_join xs"

definition mac_string :: "8 word list \<Rightarrow> string" where
  "mac_string bs = colon_join (map hex_02x (take 6 bs))"

text \<open>\<open>"%s[name='%s']/leaf"\<close>\<close>

definition named_path :: "string \<Rightarrow> string \<Rightarrow> string \<Rightarrow> string" where
  "named_path xp n leaf = xp @ ''[name='' @ [CHR 0x27] @ n @ [CHR 0x27] @ '']/'' @ leaf"

definition state_values :: "string \<Rightarrow> sw_interface_details \<Rightarrow> sr_val list" where
  "state_values xp d =
     [\<lparr>xpath = named_path xp (interface_name d) ''admin-status'',
       data = SR_ENUM_T (if flags d \<noteq> 0 then ''up'' else ''down'')\<rparr>,
      \<lparr>xpath = named_path xp (interface_name d) ''oper-status'',
       data = SR_ENUM_T (if link_duplex d \<noteq> 0 then ''up'' else ''down'')\<rparr>,
      \<lparr>xpath = named_path xp (interface_name d) ''phys-address'',
       data = SR_STRING_T (mac_string (l2_address d))\<rparr>,
      \<lparr>xpath = named_path xp (interface_name d) ''if-index'',
       data = SR_INT32_T (sw_if_index d)\<rparr>,
      \<lparr>xpath = named_path xp (interface_name d) ''speed'',
       data = SR_UINT64_T (ucast (link_speed d))\<rparr>]"

text \<open>\<open>for (auto &it : *dump)\<close>\<close>

fun state_loop :: "string \<Rightarrow> sw_interface_details list \<Rightarrow> val_array \<Rightarrow> val_array outcome" where
  "state_loop xp [] a = Val a"
| "state_loop xp (d # ds) a = bindO (put_vals (state_values xp d) a) (state_loop xp ds)"

text \<open>\<open>sr_new_values\<close> is the result of the allocation for a number of values.\<close>

definition ietf_interface_state_cb ::
    "sr_api \<Rightarrow> ('s, 'i, 'p, 'a) vom_api \<Rightarrow> (nat \<Rightarrow> sr_error) \<Rightarrow> string \<Rightarrow> 's \<Rightarrow> answer outcome" where
  "ietf_interface_state_cb api vom sr_new_values xp s =
     (if \<not> sr_xpath_node_name_eq api xp ''interface'' then Val (give_nothing SR_ERR_OK)
      else bindO (issue vom interface_dump_all s) (\<lambda>(_, details).
        (let vc = 6; n = (length details + 1) * vc in
         if sr_new_values n \<noteq> SR_ERR_OK then Val (give_nothing (sr_new_values n))
         else bindO (state_loop xp details (new_array n)) (\<lambda>a. Val (give a)))))"


section \<open>interface\_statistics\_cb\<close>

definition statistics_values :: "string \<Rightarrow> stats_t \<Rightarrow> sr_val list" where
  "statistics_values xp st =
     [\<lparr>xpath = xp @ ''/in-octets'', data = SR_UINT64_T (bytes (m_rx st))\<rparr>,
      \<lparr>xpath = xp @ ''/in-unicast-pkts'', data = SR_UINT64_T (packets (m_rx_unicast st))\<rparr>,
      \<lparr>xpath = xp @ ''/in-broadcast-pkts'', data = SR_UINT64_T (packets (m_rx_broadcast st))\<rparr>,
      \<lparr>xpath = xp @ ''/in-multicast-pkts'', data = SR_UINT64_T (packets (m_rx_multicast st))\<rparr>,
      \<lparr>xpath = xp @ ''/out-octets'', data = SR_UINT64_T (bytes (m_tx st))\<rparr>,
      \<lparr>xpath = xp @ ''/out-unicast-pkts'', data = SR_UINT64_T (packets (m_tx_unicast st))\<rparr>,
      \<lparr>xpath = xp @ ''/out-broadcast-pkts'', data = SR_UINT64_T (packets (m_tx_broadcast st))\<rparr>,
      \<lparr>xpath = xp @ ''/out-multicast-pkts'', data = SR_UINT64_T (packets (m_tx_multicast st))\<rparr>]"

definition interface_statistics_cb ::
    "sr_api \<Rightarrow> ('s, 'i, 'p, 'a) vom_api \<Rightarrow> (nat \<Rightarrow> sr_error) \<Rightarrow> string \<Rightarrow> 's \<Rightarrow> answer outcome" where
  "interface_statistics_cb api vom sr_new_values xp s =
     bindO (deref (sr_xpath_key_value api xp ''interface'' ''name'')) (\<lambda>intf_name.
     if intf_name = [] then Val (SR_ERR_INVAL_ARG, None)
     else (case interface_find vom intf_name s of
       None \<Rightarrow> Val (give_nothing SR_ERR_OK)
     | Some i \<Rightarrow>
         (let vc = 8 in
          if sr_new_values vc \<noteq> SR_ERR_OK then Val (give_nothing (sr_new_values vc))
          else bindO (put_vals (statistics_values xp (get_stats vom i s)) (new_array vc)) (\<lambda>a. Val (give a)))))"



section \<open>The providers meet the contract\<close>

lemma state_loop_put_vals: "state_loop xp ds a = put_vals (concat (map (state_values xp) ds)) a"
  by (induction ds arbitrary: a) (auto simp: put_vals_append intro!: bindO_cong)

lemma length_concat_state_values: "length (concat (map (state_values xp) ds)) = 5 * length ds"
  by (induction ds) (simp_all add: state_values_def)

abbreviation all_details :: "('s, 'i, 'p, 'a) vom_api \<Rightarrow> 's \<Rightarrow> sw_interface_details list" where
  "all_details vom s \<equiv> dump vom \<lparr>name_filter_valid = 0, name_filter = []\<rparr> s"

interpretation ietf_state: provider
  "\<lambda>xp. ietf_interface_state_cb api vom sr_new_values xp s"
  "\<lambda>xp. sr_xpath_node_name_eq api xp ''interface'' \<and>
     sr_new_values ((length (all_details vom s) + 1) * 6) = SR_ERR_OK"
  "\<lambda>xp. (length (all_details vom s) + 1) * 6"
  "\<lambda>xp. concat (map (state_values xp) (all_details vom s))"
  for api vom sr_new_values s
  by unfold_locales
    (simp_all add: ietf_interface_state_cb_def issue_all state_loop_put_vals length_concat_state_values Let_def)

lemma length_statistics_values [simp]: "length (statistics_values xp st) = 8"
  by (simp add: statistics_values_def)

interpretation ietf_statistics: provider
  "\<lambda>xp. interface_statistics_cb api vom sr_new_values xp s"
  "\<lambda>xp. sr_xpath_key_value api xp ''interface'' ''name'' = Some n \<and> n \<noteq> [] \<and>
     interface_find vom n s = Some i \<and> sr_new_values 8 = SR_ERR_OK"
  "\<lambda>xp. 8"
  "\<lambda>xp. statistics_values xp (get_stats vom i s)"
  for api vom sr_new_values s n i
  by unfold_locales (simp_all add: interface_statistics_cb_def Let_def)


section \<open>Texts\<close>

lemma colon_join_Cons: "xs \<noteq> [] \<Longrightarrow> colon_join (x # xs) = x @ CHR '':'' # colon_join xs"
  by (cases xs) simp_all

lemma colon_join_hex_inject:
  "length bs = length cs \<Longrightarrow> colon_join (map hex_02x bs) = colon_join (map hex_02x cs) \<longleftrightarrow> bs = cs"
proof (induction bs cs rule: list_induct2)
  case (Cons b bs c cs)
  show ?case
  proof (cases "bs = []")
    case True
    with Cons show ?thesis
      by simp
  next
    case False
    with Cons have "cs \<noteq> []"
      by auto
    with Cons False show ?thesis
      by (simp add: colon_join_Cons)
  qed
qed simp

lemma length_colon_join_hex: "length (colon_join (map hex_02x bs)) = 3 * length bs - 1"
proof (induction bs)
  case (Cons b bs)
  then show ?case
    by (cases bs) simp_all
qed simp

lemma named_path_inject:
  assumes "CHR 0x27 \<notin> set n" "CHR 0x27 \<notin> set n'"
  shows "named_path xp n l = named_path xp n' l' \<longleftrightarrow> n = n' \<and> l = l'"
proof
  assume "named_path xp n l = named_path xp n' l'"
  then have eq: "n @ CHR 0x27 # '']/'' @ l = n' @ CHR 0x27 # '']/'' @ l'"
    by (simp add: named_path_def)
  have "takeWhile (\<lambda>c. c \<noteq> CHR 0x27) (n @ CHR 0x27 # '']/'' @ l) = n"
    "takeWhile (\<lambda>c. c \<noteq> CHR 0x27) (n' @ CHR 0x27 # '']/'' @ l') = n'"
    using assms by (intro takeWhile_append_stop; auto)+
  with eq have "n = n'"
    by simp
  with eq show "n = n' \<and> l = l'"
    by simp
qed simp

lemma state_values_paths:
  "map xpath (state_values xp d) = map (named_path xp (interface_name d))
     [''admin-status'', ''oper-status'', ''phys-address'', ''if-index'', ''speed'']"
  by (simp add: state_values_def)


section \<open>Properties\<close>

text \<open>
  (C23) The state provider answers a request for interfaces with the five values of every
  interface VPP reports, in VPP's order, and never writes past the
  \<open>6 * (interfaces + 1)\<close> cells it allocated.
\<close>

theorem ietf_state_answer:
  assumes "sr_xpath_node_name_eq api xp ''interface''"
    and "sr_new_values ((length (all_details vom s) + 1) * 6) = SR_ERR_OK"
  shows "\<exists>r. ietf_interface_state_cb api vom sr_new_values xp s = Val r \<and> fst r = SR_ERR_OK \<and>
    answered r = concat (map (state_values xp) (all_details vom s)) \<and>
    (\<exists>cells. snd r = Some (Some cells, 5 * length (all_details vom s)))"
  using ietf_state.cb_answers [of api xp sr_new_values vom s] assms by (auto simp: length_concat_state_values)

theorem ietf_state_answer_witness:
  "\<exists>r. ietf_interface_state_cb sample_api sample_vom (\<lambda>n. SR_ERR_OK) ''/interfaces-state/interface'' eth0_db = Val r \<and>
    map data (answered r) =
      [SR_ENUM_T ''up'', SR_ENUM_T ''up'', SR_STRING_T ''02:fe:00:00:00:ab'', SR_INT32_T 1, SR_UINT64_T 1000000]"
proof -
  have n: "sr_xpath_node_name_eq sample_api ''/interfaces-state/interface'' ''interface''"
    by code_simp
  have "map data (concat (map (state_values ''/interfaces-state/interface'') (all_details sample_vom eth0_db))) =
      [SR_ENUM_T ''up'', SR_ENUM_T ''up'', SR_STRING_T ''02:fe:00:00:00:ab'', SR_INT32_T 1, SR_UINT64_T 1000000]"
    by code_simp
  with ietf_state_answer [OF n, of "\<lambda>n. SR_ERR_OK" sample_vom eth0_db] show ?thesis
    by auto
qed

text \<open>
  No two values of the state answer have the same xpath, provided VPP's interface
  names are distinct and contain no quote.
\<close>

lemma ietf_state_paths_distinct:
  assumes "distinct (map interface_name ds)" "\<forall>d \<in> set ds. CHR 0x27 \<notin> set (interface_name d)"
  shows "distinct (map xpath (concat (map (state_values xp) ds)))"
  using assms
proof (induction ds)
  case (Cons d ds)
  have paths: "xpath ` set (state_values xp e) \<subseteq> range (named_path xp (interface_name e))" for e
    by (auto simp: state_values_def)
  have other: "named_path xp (interface_name d) l \<noteq> named_path xp (interface_name e) l'"
    if "e \<in> set ds" for e l l'
    using Cons.prems that by (subst named_path_inject) auto
  have "xpath ` set (state_values xp d) \<inter> xpath ` set (state_values xp e) = {}" if "e \<in> set ds" for e
  proof (rule equals0I)
    fix y
    assume y: "y \<in> xpath ` set (state_values xp d) \<inter> xpath ` set (state_values xp e)"
    from IntD1 [OF y] obtain l where l: "y = named_path xp (interface_name d) l"
      using paths [THEN subsetD] by blast
    from IntD2 [OF y] obtain l' where "y = named_path xp (interface_name e) l'"
      using paths [THEN subsetD] by blast
    with l other [OF that, of l l'] show False
      by simp
  qed
  then have "xpath ` set (state_values xp d) \<inter> xpath ` (\<Union>e \<in> set ds. set (state_values xp e)) = {}"
    by (simp add: image_UN Int_UN_distrib)
  moreover have "distinct (map xpath (state_values xp d))"
    using Cons.prems by (simp add: state_values_paths named_path_inject)
  ultimately show ?case
    using Cons by simp
qed simp

text \<open>
  The physical address prints as seventeen characters that determine its six bytes.
\<close>

lemma mac_string_faithful:
  assumes "length bs = 6" "length cs = 6"
  shows "length (mac_string bs) = 17 \<and> (mac_string bs = mac_string cs \<longleftrightarrow> bs = cs)"
  using assms by (simp add: mac_string_def colon_join_hex_inject length_colon_join_hex)

text \<open>
  The statistics provider on every branch: without a name key it dereferences a null
  pointer, an empty name is refused with the outputs unwritten, an unknown interface and a
  failed allocation give an empty answer, and otherwise exactly the eight counters fill
  the eight cells.
\<close>

lemma statistics_cb_branches:
  "case sr_xpath_key_value api xp ''interface'' ''name'' of
     None \<Rightarrow> interface_statistics_cb api vom sr_new_values xp s = Undef NullPointer
   | Some n \<Rightarrow>
       if n = [] then interface_statistics_cb api vom sr_new_values xp s = Val (SR_ERR_INVAL_ARG, None)
       else (case interface_find vom n s of
         None \<Rightarrow> interface_statistics_cb api vom sr_new_values xp s = Val (SR_ERR_OK, Some (None, 0))
       | Some i \<Rightarrow>
           if sr_new_values 8 \<noteq> SR_ERR_OK
           then interface_statistics_cb api vom sr_new_values xp s = Val (sr_new_values 8, Some (None, 0))
           else interface_statistics_cb api vom sr_new_values xp s =
             Val (SR_ERR_OK, Some (Some (map Some (statistics_values xp (get_stats vom i s))), 8)))"
  by (auto simp: interface_statistics_cb_def give_nothing_def put_vals_exact give_def Let_def
      split: option.split)

end
