(* ===== verification/Xpath_Buffer.thy ===== *)
theory Xpath_Buffer
  imports Openconfig_Interfaces Interface_State
begin

text \<open>
  The xpath strings as the buffers they are: \<open>sr_xpath_key_value\<close> ends the value it returns
  by a change of the string it was given, which \<open>sr_xpath_recover\<close> takes back. The
  callbacks with these changes written out have the outcomes of the callbacks on constant
  xpaths, because each xpath is recovered before it is read again.
\<close>

section \<open>The library on buffers\<close>

text \<open>
  The result of \<open>sr_xpath_key_value\<close>, what it leaves in the buffer, and what it notes in the
  \<open>sr_xpath_ctx_t\<close>.
\<close>

record 'x xpath_lib =
  node_name_eq :: "string \<Rightarrow> string \<Rightarrow> bool"
  key_value :: "string \<Rightarrow> string \<Rightarrow> string \<Rightarrow> string option \<times> string \<times> 'x"
  recover :: "'x \<Rightarrow> string \<Rightarrow> string"

text \<open>The same functions for callers that do not read the buffer again\<close>

definition api_of :: "'x xpath_lib \<Rightarrow> sr_api" where
  "api_of lib = \<lparr>sr_xpath_node_name_eq = node_name_eq lib, sr_xpath_key_value = (\<lambda>xp n k. fst (key_value lib xp n k))\<rparr>"

text \<open>A buffer that holds one C string of its whole length; what sysrepo documents of recovery\<close>

abbreviation intact :: "string \<Rightarrow> bool" where
  "intact xp \<equiv> CHR 0x00 \<notin> set xp"

definition recovers :: "'x xpath_lib \<Rightarrow> bool" where
  "recovers lib \<longleftrightarrow>
     (\<forall>xp n k. intact xp \<longrightarrow> (case key_value lib xp n k of (v, buf, st) \<Rightarrow> recover lib st buf = xp))"

abbreviation intact_changes :: "change list \<Rightarrow> bool" where
  "intact_changes cs \<equiv>
     \<forall>c \<in> set cs. \<forall>v. new_val c = Some v \<or> old_val c = Some v \<longrightarrow> intact (xpath v)"


section \<open>The configuration callbacks\<close>

definition oc_config_step_buf ::
    "'x xpath_lib \<Rightarrow> ('s, 'i, 'p, 'a) vom_api \<Rightarrow> change \<Rightarrow> ('s, 'i) intf_locals \<Rightarrow>
     ('s, 'i) intf_locals flow outcome" where
  "oc_config_step_buf lib vom c l =
     bindO (deref (new_val c)) (\<lambda>ne.
     case key_value lib (xpath ne) ''interface'' ''name'' of (name, buf, st) \<Rightarrow>
     bindO (deref name) (\<lambda>intf_name.
     if intf_name = [] then Val (Leave SR_ERR_INVAL_ARG l)
     else (let ne = ne\<lparr>xpath := recover lib st buf\<rparr> in
       case oper c of
         SR_OP_CREATED \<Rightarrow> oc_created (api_of lib) ne l
       | SR_OP_MODIFIED \<Rightarrow> oc_modified (api_of lib) vom ne l
       | SR_OP_DELETED \<Rightarrow> bindO (deref (old_val c)) (\<lambda>ol. oc_deleted (api_of lib) ol l)
       | _ \<Rightarrow> Val (Leave SR_ERR_UNSUPPORTED l))))"

definition oc_interfaces_config_buf ::
    "'x xpath_lib \<Rightarrow> ('s, 'i, 'p, 'a) vom_api \<Rightarrow> uninit \<Rightarrow> session option \<Rightarrow> string option \<Rightarrow> sr_event \<Rightarrow> 's \<Rightarrow>
     (sr_error \<times> 's) outcome" where
  "oc_interfaces_config_buf lib vom mem ds xp event s =
     ARG_CHECK2 (SR_ERR_INVAL_ARG, s) ds xp (\<lambda>ds xp.
       if event \<noteq> SR_EV_VERIFY then Val (SR_ERR_OK, s)
       else case sr_get_changes_iter ds xp of (rc, cs) \<Rightarrow>
         if rc \<noteq> SR_ERR_OK then Val (SR_ERR_OK, s)
         else bindO (foreach_change event (oc_config_step_buf lib vom) cs (oc_start mem s))
           (\<lambda>f. case f of
              Leave rc l \<Rightarrow> Val (rc, db l)
            | Next l \<Rightarrow> oc_finish vom (vals_after_loop ds cs) l))"

text \<open>The name of an address is read from \<open>new_val\<close> if there is one, else from \<open>old_val\<close>.\<close>

definition addr_step_buf ::
    "byte_order \<Rightarrow> 'x xpath_lib \<Rightarrow> 'a net_api \<Rightarrow> ('s, 'i, 'p, 'a) vom_api \<Rightarrow> change \<Rightarrow> 's addr_locals \<Rightarrow>
     's addr_locals flow outcome" where
  "addr_step_buf order lib net vom c l =
     bindO (deref (case new_val c of Some v \<Rightarrow> Some v | None \<Rightarrow> old_val c)) (\<lambda>v.
     case key_value lib (xpath v) ''interface'' ''name'' of (name, buf, st) \<Rightarrow>
     bindO (deref name) (\<lambda>if_name.
     if if_name = [] then Val (Leave SR_ERR_OPERATION_FAILED l)
     else (let v = v\<lparr>xpath := recover lib st buf\<rparr>;
               c = (case new_val c of Some _ \<Rightarrow> c\<lparr>new_val := Some v\<rparr> | None \<Rightarrow> c\<lparr>old_val := Some v\<rparr>)
           in bindO (addr_switch order (api_of lib) net c l) (\<lambda>l. Val (Next (addr_apply vom if_name l))))))"

definition ietf_interface_ipv46_address_change_buf ::
    "byte_order \<Rightarrow> 'x xpath_lib \<Rightarrow> 'a net_api \<Rightarrow> ('s, 'i, 'p, 'a) vom_api \<Rightarrow> session \<Rightarrow> string \<Rightarrow> sr_event \<Rightarrow>
     's \<Rightarrow> (sr_error \<times> 's) outcome" where
  "ietf_interface_ipv46_address_change_buf order lib net vom ds xp event s =
     (if event = SR_EV_APPLY then Val (SR_ERR_OK, s)
      else case sr_get_changes_iter ds xp of (rc, cs) \<Rightarrow>
        if rc \<noteq> SR_ERR_OK then Val (rc, s)
        else bindO (foreach_change event (addr_step_buf order lib net vom) cs (addr_start s))
          (\<lambda>f. case f of
             Leave rc l \<Rightarrow> Val (rc, addr_db l)
           | Next l \<Rightarrow> Val (op_rc l, addr_db l)))"


section \<open>The state callbacks\<close>

text \<open>
  They cast away the \<open>const\<close> of the xpath that sysrepo hands them; the second component of
  the result is what they leave in it.
\<close>

definition interface_statistics_buf ::
    "'x xpath_lib \<Rightarrow> ('s, 'i, 'p, 'a) vom_api \<Rightarrow> (nat \<Rightarrow> sr_error) \<Rightarrow> string \<Rightarrow> 's \<Rightarrow> (answer \<times> string) outcome" where
  "interface_statistics_buf lib vom sr_new_values xp s =
     (case key_value lib xp ''interface'' ''name'' of (name, buf, st) \<Rightarrow>
      bindO (deref name) (\<lambda>intf_name.
      if intf_name = [] then Val ((SR_ERR_INVAL_ARG, None), buf)
      else (let xp = recover lib st buf in
        case interface_find vom intf_name s of
          None \<Rightarrow> Val (give_nothing SR_ERR_OK, xp)
        | Some i \<Rightarrow>
            (let vc = 8 in
             if sr_new_values vc \<noteq> SR_ERR_OK then Val (give_nothing (sr_new_values vc), xp)
             else bindO (put_vals (statistics_values xp (get_stats vom i s)) (new_array vc))
               (\<lambda>a. Val (give a, xp))))))"

definition oc_interfaces_state_buf ::
    "'x xpath_lib \<Rightarrow> ('s, 'i, 'p, 'a) vom_api \<Rightarrow> (nat \<Rightarrow> sr_error) \<Rightarrow> string option \<Rightarrow> unit option \<Rightarrow> unit option \<Rightarrow>
     's \<Rightarrow> (answer \<times> string option) outcome" where
  "oc_interfaces_state_buf lib vom sr_new_values xp out_values out_cnt s =
     ARG_CHECK3 ((SR_ERR_INVAL_ARG, None), xp) xp out_values out_cnt (\<lambda>xp _ _.
     case key_value lib xp ''interface'' ''name'' of (name, buf, st) \<Rightarrow>
     bindO (deref name) (\<lambda>intf_name.
     if intf_name = [] then Val ((SR_ERR_INVAL_ARG, None), Some buf)
     else (let xp = Some (recover lib st buf);
               root = snprintf_str XPATH_SIZE (oc_state_path intf_name); vc = 7 in
       if sr_new_values vc \<noteq> SR_ERR_OK then Val ((sr_new_values vc, None), xp)
       else bindO (issue vom (interface_dump_one intf_name) s) (\<lambda>(_, details).
         (case details of
            [] \<Rightarrow> Undef EndIterator
          | d # _ \<Rightarrow> bindO (put_vals (oc_state_values root d) (new_array vc)) (\<lambda>a. Val (give a, xp)))))))"


section \<open>Recovery\<close>

lemma api_of_simps [simp]:
  "sr_xpath_node_name_eq (api_of lib) = node_name_eq lib"
  "sr_xpath_key_value (api_of lib) xp n k = fst (key_value lib xp n k)"
  by (simp_all add: api_of_def)

lemma recoversD:
  assumes "recovers lib" "key_value lib xp n k = (v, buf, st)" "intact xp"
  shows "recover lib st buf = xp"
proof -
  have "case key_value lib xp n k of (v, buf, st) \<Rightarrow> recover lib st buf = xp"
    using assms(1,3) by (simp add: recovers_def)
  with assms(2) show ?thesis
    by simp
qed

lemma walk_changes_eq:
  assumes "\<And>c l. c \<in> set cs \<Longrightarrow> step c l = step' c l"
  shows "walk_changes step cs l = walk_changes step' cs l"
  using assms
proof (induction cs arbitrary: l)
  case (Cons c cs)
  then show ?case
    by (auto intro!: bindO_cong split: flow.split)
qed simp

lemma foreach_change_eq:
  assumes "\<And>c l. c \<in> set cs \<Longrightarrow> step c l = step' c l"
  shows "foreach_change event step cs l = foreach_change event step' cs l"
  using assms by (simp add: foreach_change_def walk_changes_eq [of cs step step'])

lemma oc_config_step_buf_eq:
  assumes "recovers lib" "\<And>v. new_val c = Some v \<Longrightarrow> intact (xpath v)"
  shows "oc_config_step_buf lib vom c l = oc_config_step (api_of lib) vom c l"
proof (cases "new_val c")
  case (Some ne)
  obtain name buf st where kv: "key_value lib (xpath ne) ''interface'' ''name'' = (name, buf, st)"
    by (metis prod_cases3)
  with recoversD [OF assms(1) kv] assms(2) Some show ?thesis
    by (cases name) (simp_all add: oc_config_step_buf_def oc_config_step_def)
qed (simp add: oc_config_step_buf_def oc_config_step_def)

lemma addr_step_buf_eq:
  assumes "recovers lib" "\<And>v. new_val c = Some v \<or> old_val c = Some v \<Longrightarrow> intact (xpath v)"
  shows "addr_step_buf order lib net vom c l = addr_step order (api_of lib) net vom c l"
proof (cases "case new_val c of Some v \<Rightarrow> Some v | None \<Rightarrow> old_val c")
  case (Some v)
  obtain name buf st where kv: "key_value lib (xpath v) ''interface'' ''name'' = (name, buf, st)"
    by (metis prod_cases3)
  have "recover lib st buf = xpath v"
    using recoversD [OF assms(1) kv] assms(2) [of v] Some by (auto split: option.splits)
  moreover have "(case new_val c of Some _ \<Rightarrow> c\<lparr>new_val := Some v\<rparr> | None \<Rightarrow> c\<lparr>old_val := Some v\<rparr>) = c"
    using Some by (auto split: option.splits)
  ultimately show ?thesis
    using kv Some by (cases name) (simp_all add: addr_step_buf_def addr_step_def)
qed (simp add: addr_step_buf_def addr_step_def)

lemma oc_interfaces_config_buf_eq:
  assumes "recovers lib" "\<And>d x. ds = Some d \<Longrightarrow> xp = Some x \<Longrightarrow> intact_changes (snd (sr_get_changes_iter d x))"
  shows "oc_interfaces_config_buf lib vom mem ds xp event s = oc_interfaces_config_cb (api_of lib) vom mem ds xp event s"
proof (cases "\<exists>d x. ds = Some d \<and> xp = Some x")
  case True
  then obtain d x rc cs where dx: "ds = Some d" "xp = Some x" "sr_get_changes_iter d x = (rc, cs)"
    by (metis prod.collapse)
  have "foreach_change event (oc_config_step_buf lib vom) cs l = foreach_change event (oc_config_step (api_of lib) vom) cs l" for l
    using assms(2) [OF dx(1,2)] dx(3) by (intro foreach_change_eq oc_config_step_buf_eq [OF assms(1)]) auto
  with dx show ?thesis
    by (cases "event = SR_EV_VERIFY") (simp_all add: oc_interfaces_config_buf_def oc_interfaces_config_cb_def intf_run_def)
qed (cases ds; cases xp; simp add: oc_interfaces_config_buf_def oc_interfaces_config_cb_def)

lemma ietf_interface_ipv46_address_change_buf_eq:
  assumes "recovers lib" "intact_changes (snd (sr_get_changes_iter ds xp))"
  shows "ietf_interface_ipv46_address_change_buf order lib net vom ds xp event s =
    ietf_interface_ipv46_address_change_cb order (api_of lib) net vom ds xp event s"
proof -
  obtain rc cs where cs: "sr_get_changes_iter ds xp = (rc, cs)"
    by fastforce
  have "foreach_change event (addr_step_buf order lib net vom) cs l =
      foreach_change event (addr_step order (api_of lib) net vom) cs l" for l
    using assms(2) cs by (intro foreach_change_eq addr_step_buf_eq [OF assms(1)]) auto
  with cs show ?thesis
    by (simp add: ietf_interface_ipv46_address_change_buf_def ietf_interface_ipv46_address_change_cb_def)
qed

text \<open>What a state callback leaves in the xpath of its request\<close>

definition left_in :: "'x xpath_lib \<Rightarrow> string \<Rightarrow> string" where
  "left_in lib xp =
     (case key_value lib xp ''interface'' ''name'' of (name, buf, st) \<Rightarrow> if name = Some [] then buf else xp)"

text \<open>What the state callbacks answer, and the xpath they leave\<close>

lemma interface_statistics_buf_eq:
  assumes "recovers lib" "intact xp"
  shows "interface_statistics_buf lib vom sr_new_values xp s =
    bindO (interface_statistics_cb (api_of lib) vom sr_new_values xp s) (\<lambda>a. Val (a, left_in lib xp))"
proof -
  obtain name buf st where kv: "key_value lib xp ''interface'' ''name'' = (name, buf, st)"
    by (metis prod_cases3)
  show ?thesis
    using recoversD [OF assms(1) kv assms(2)] kv
    by (cases name) (simp_all add: interface_statistics_buf_def interface_statistics_cb_def left_in_def bindO_assoc Let_def
        split: option.split)
qed

lemma oc_interfaces_state_buf_eq:
  assumes "recovers lib" "intact xp"
  shows "oc_interfaces_state_buf lib vom sr_new_values (Some xp) (Some ()) (Some ()) s =
    bindO (oc_interfaces_state_cb (api_of lib) vom sr_new_values (Some xp) (Some ()) (Some ()) s)
      (\<lambda>a. Val (a, Some (left_in lib xp)))"
proof -
  obtain name buf st where kv: "key_value lib xp ''interface'' ''name'' = (name, buf, st)"
    by (metis prod_cases3)
  show ?thesis
    using recoversD [OF assms(1) kv assms(2)] kv
    by (cases name) (auto simp: oc_interfaces_state_buf_def oc_interfaces_state_cb_def left_in_def bindO_assoc Let_def
        case_prod_unfold split: option.split list.split intro!: bindO_cong)
qed


section \<open>A concrete library\<close>

text \<open>
  As sysrepo does it: the quote behind the value is overwritten with the null character,
  and the context notes the place and the old character.
\<close>

definition sample_xpath_lib :: "(nat \<times> char) option xpath_lib" where
  "sample_xpath_lib = \<lparr>
     node_name_eq = (\<lambda>xp n. last_node (takeWhile (\<lambda>c. c \<noteq> CHR 0x00) xp) = n),
     key_value = (\<lambda>xp n k.
       case find_sub (n @ ''['' @ k @ ''='' @ [CHR 0x27]) xp of
         None \<Rightarrow> (None, xp, None)
       | Some rest \<Rightarrow>
           (let v = takeWhile (\<lambda>c. c \<noteq> CHR 0x27) rest; p = length xp - length rest + length v
            in (Some v, xp[p := CHR 0x00], Some (p, xp ! p)))),
     recover = (\<lambda>st xp. case st of None \<Rightarrow> xp | Some (p, c) \<Rightarrow> xp[p := c])\<rparr>"

lemma sample_recovers: "recovers sample_xpath_lib"
  by (simp add: recovers_def sample_xpath_lib_def Let_def split: option.split)

definition nameless_path :: string where
  "nameless_path = ''/if:interfaces-state/interface[name='' @ [CHR 0x27, CHR 0x27] @ '']/statistics''"


section \<open>Properties\<close>

text \<open>
  (C21) No callback sees an xpath that \<open>sr_xpath_key_value\<close> has cut: with the buffers written
  out, all have the outcomes of the callbacks on constant xpaths. The state callbacks give
  the xpath of sysrepo's request back as they found it, except where the name in it is
  empty: then they refuse the request and leave the string cut.
\<close>

theorem xpaths_recovered:
  assumes "recovers lib" "intact xp" "intact_changes (snd (sr_get_changes_iter ds sub))"
  shows "oc_interfaces_config_buf lib vom mem (Some ds) (Some sub) event s =
      oc_interfaces_config_cb (api_of lib) vom mem (Some ds) (Some sub) event s \<and>
    ietf_interface_ipv46_address_change_buf order lib net vom ds sub event s =
      ietf_interface_ipv46_address_change_cb order (api_of lib) net vom ds sub event s \<and>
    interface_statistics_buf lib vom sr_new_values xp s =
      bindO (interface_statistics_cb (api_of lib) vom sr_new_values xp s) (\<lambda>a. Val (a, left_in lib xp)) \<and>
    oc_interfaces_state_buf lib vom sr_new_values (Some xp) (Some ()) (Some ()) s =
      bindO (oc_interfaces_state_cb (api_of lib) vom sr_new_values (Some xp) (Some ()) (Some ()) s)
        (\<lambda>a. Val (a, Some (left_in lib xp)))"
  using assms by (auto simp: interface_statistics_buf_eq oc_interfaces_state_buf_eq
      intro!: oc_interfaces_config_buf_eq ietf_interface_ipv46_address_change_buf_eq)

theorem xpaths_recovered_witness:
  "oc_interfaces_config_buf sample_xpath_lib sample_vom zeroed (Some (sample_session oc_create_eth0)) (Some [])
      SR_EV_VERIFY sample_empty =
    oc_interfaces_config_cb (api_of sample_xpath_lib) sample_vom zeroed (Some (sample_session oc_create_eth0)) (Some [])
      SR_EV_VERIFY sample_empty \<and>
   interface_statistics_buf sample_xpath_lib sample_vom (\<lambda>n. SR_ERR_OK) nameless_path sample_empty =
    Val ((SR_ERR_INVAL_ARG, None), take 37 nameless_path @ CHR 0x00 # drop 38 nameless_path)"
proof -
  have p: "intact nameless_path" "intact_changes oc_create_eth0"
    by (simp_all add: nameless_path_def oc_create_eth0_def sample_created_def eth0_path_def)
  have "interface_statistics_cb (api_of sample_xpath_lib) sample_vom (\<lambda>n. SR_ERR_OK) nameless_path sample_empty =
      Val (SR_ERR_INVAL_ARG, None)"
    "left_in sample_xpath_lib nameless_path = take 37 nameless_path @ CHR 0x00 # drop 38 nameless_path"
    by code_simp+
  with xpaths_recovered [where vom = sample_vom and mem = zeroed and event = SR_EV_VERIFY and s = sample_empty and
      sr_new_values = "\<lambda>n. SR_ERR_OK" and ds = "sample_session oc_create_eth0" and sub = "[]", OF sample_recovers p(1)] p(2)
  show ?thesis
    by simp
qed

end
