(* ===== verification/Yang.thy ===== *)
theory Yang
  imports Sysrepo
begin

text \<open>
  The parts of the YANG modules under \<open>src/plugins/yang\<close> that the callbacks read and
  answer: the leaves with their types, and when a sysrepo value conforms to a type.
\<close>

section \<open>Types of leaves\<close>

text \<open>
  The built-in types of YANG that occur, with the restrictions that a value can violate:
  the names of an enumeration, the identities derived from the base of a reference, by
  module and name, the range of an integer and the pattern of a physical address. The
  string types with other patterns are kept as such.
\<close>

datatype yang_type =
    Y_string
  | Y_phys_address
  | Y_identityref "(string \<times> string) list"
  | Y_enumeration "string list"
  | Y_boolean
  | Y_uint8 nat nat
  | Y_uint16
  | Y_uint32
  | Y_uint64
  | Y_int32 int int
  | Y_other

record yang_leaf =
  ly_name :: string
  ly_type :: yang_type
  ly_mandatory :: bool

definition optional_leaf :: "string \<Rightarrow> yang_type \<Rightarrow> yang_leaf" where
  "optional_leaf n t = \<lparr>ly_name = n, ly_type = t, ly_mandatory = False\<rparr>"

definition mandatory_leaf :: "string \<Rightarrow> yang_type \<Rightarrow> yang_leaf" where
  "mandatory_leaf n t = \<lparr>ly_name = n, ly_type = t, ly_mandatory = True\<rparr>"

text \<open>The pattern \<open>([0-9a-fA-F]{2}(:[0-9a-fA-F]{2})*)?\<close> of \<open>yang:phys-address\<close>\<close>

definition hex_digit :: "char \<Rightarrow> bool" where
  "hex_digit c \<longleftrightarrow>
     (let n = of_char c :: nat in 48 \<le> n \<and> n \<le> 57 \<or> 65 \<le> n \<and> n \<le> 70 \<or> 97 \<le> n \<and> n \<le> 102)"

fun phys_octets :: "string \<Rightarrow> bool" where
  "phys_octets [] = True"
| "phys_octets (c # x # y # s) = (c = CHR '':'' \<and> hex_digit x \<and> hex_digit y \<and> phys_octets s)"
| "phys_octets _ = False"

fun phys_pattern :: "string \<Rightarrow> bool" where
  "phys_pattern [] = True"
| "phys_pattern (x # y # s) = (hex_digit x \<and> hex_digit y \<and> phys_octets s)"
| "phys_pattern _ = False"

text \<open>
  Values of a type, by the tag of the union and its content. sysrepo prints a reference to
  an identity of another module with the name of that module, not with the prefix by which
  the module calls itself.
\<close>

definition identity_text :: "string \<times> string \<Rightarrow> string" where
  "identity_text i = fst i @ '':'' @ snd i"

fun conforms :: "yang_type \<Rightarrow> sr_data \<Rightarrow> bool" where
  "conforms Y_string d = (case d of SR_STRING_T s \<Rightarrow> True | _ \<Rightarrow> False)"
| "conforms Y_phys_address d = (case d of SR_STRING_T s \<Rightarrow> phys_pattern s | _ \<Rightarrow> False)"
| "conforms (Y_identityref ids) d =
     (case d of SR_IDENTITYREF_T s \<Rightarrow> list_ex (\<lambda>i. s = identity_text i) ids | _ \<Rightarrow> False)"
| "conforms (Y_enumeration names) d = (case d of SR_ENUM_T s \<Rightarrow> s \<in> set names | _ \<Rightarrow> False)"
| "conforms Y_boolean d = (case d of SR_BOOL_T b \<Rightarrow> True | _ \<Rightarrow> False)"
| "conforms (Y_uint8 lo hi) d = (case d of SR_UINT8_T w \<Rightarrow> lo \<le> unat w \<and> unat w \<le> hi | _ \<Rightarrow> False)"
| "conforms Y_uint16 d = (case d of SR_UINT16_T w \<Rightarrow> True | _ \<Rightarrow> False)"
| "conforms Y_uint32 d = (case d of SR_UINT32_T w \<Rightarrow> True | _ \<Rightarrow> False)"
| "conforms Y_uint64 d = (case d of SR_UINT64_T w \<Rightarrow> True | _ \<Rightarrow> False)"
| "conforms (Y_int32 lo hi) d = (case d of SR_INT32_T w \<Rightarrow> lo \<le> sint w \<and> sint w \<le> hi | _ \<Rightarrow> False)"
| "conforms Y_other d = (d = SR_OTHER_T)"

text \<open>The tag alone: which member of the union a value of the type makes active.\<close>

fun has_tag :: "yang_type \<Rightarrow> sr_data \<Rightarrow> bool" where
  "has_tag Y_string d = (case d of SR_STRING_T s \<Rightarrow> True | _ \<Rightarrow> False)"
| "has_tag Y_phys_address d = (case d of SR_STRING_T s \<Rightarrow> True | _ \<Rightarrow> False)"
| "has_tag (Y_identityref ids) d = (case d of SR_IDENTITYREF_T s \<Rightarrow> True | _ \<Rightarrow> False)"
| "has_tag (Y_enumeration names) d = (case d of SR_ENUM_T s \<Rightarrow> True | _ \<Rightarrow> False)"
| "has_tag Y_boolean d = (case d of SR_BOOL_T b \<Rightarrow> True | _ \<Rightarrow> False)"
| "has_tag (Y_uint8 lo hi) d = (case d of SR_UINT8_T w \<Rightarrow> True | _ \<Rightarrow> False)"
| "has_tag Y_uint16 d = (case d of SR_UINT16_T w \<Rightarrow> True | _ \<Rightarrow> False)"
| "has_tag Y_uint32 d = (case d of SR_UINT32_T w \<Rightarrow> True | _ \<Rightarrow> False)"
| "has_tag Y_uint64 d = (case d of SR_UINT64_T w \<Rightarrow> True | _ \<Rightarrow> False)"
| "has_tag (Y_int32 lo hi) d = (case d of SR_INT32_T w \<Rightarrow> True | _ \<Rightarrow> False)"
| "has_tag Y_other d = (d = SR_OTHER_T)"

lemma conforms_has_tag: "conforms t d \<Longrightarrow> has_tag t d"
  by (cases t; cases d) simp_all


section \<open>Identities\<close>

text \<open>
  The types of interfaces: the identities of the module \<open>iana-if-type\<close>, all of them
  derived from \<open>interface-type\<close> of \<open>ietf-interfaces\<close>, the base of every leaf \<open>type\<close>. The
  module's prefix, \<open>ianaift\<close>, is not its name.
\<close>

definition iana_interface_types :: "string list" where
  "iana_interface_types = [
      ''iana-interface-type'', ''other'', ''regular1822'', ''hdh1822'', ''ddnX25'', ''rfc877x25'',
      ''ethernetCsmacd'', ''iso88023Csmacd'', ''iso88024TokenBus'', ''iso88025TokenRing'', ''iso88026Man'',
      ''starLan'', ''proteon10Mbit'', ''proteon80Mbit'', ''hyperchannel'', ''fddi'', ''lapb'', ''sdlc'',
      ''ds1'', ''e1'', ''basicISDN'', ''primaryISDN'', ''propPointToPointSerial'', ''ppp'',
      ''softwareLoopback'', ''eon'', ''ethernet3Mbit'', ''nsip'', ''slip'', ''ultra'', ''ds3'', ''sip'',
      ''frameRelay'', ''rs232'', ''para'', ''arcnet'', ''arcnetPlus'', ''atm'', ''miox25'', ''sonet'',
      ''x25ple'', ''iso88022llc'', ''localTalk'', ''smdsDxi'', ''frameRelayService'', ''v35'', ''hssi'',
      ''hippi'', ''modem'', ''aal5'', ''sonetPath'', ''sonetVT'', ''smdsIcip'', ''propVirtual'',
      ''propMultiplexor'', ''ieee80212'', ''fibreChannel'', ''hippiInterface'', ''frameRelayInterconnect'',
      ''aflane8023'', ''aflane8025'', ''cctEmul'', ''fastEther'', ''isdn'', ''v11'', ''v36'', ''g703at64k'',
      ''g703at2mb'', ''qllc'', ''fastEtherFX'', ''channel'', ''ieee80211'', ''ibm370parChan'', ''escon'',
      ''dlsw'', ''isdns'', ''isdnu'', ''lapd'', ''ipSwitch'', ''rsrb'', ''atmLogical'', ''ds0'', ''ds0Bundle'',
      ''bsc'', ''async'', ''cnr'', ''iso88025Dtr'', ''eplrs'', ''arap'', ''propCnls'', ''hostPad'', ''termPad'',
      ''frameRelayMPI'', ''x213'', ''adsl'', ''radsl'', ''sdsl'', ''vdsl'', ''iso88025CRFPInt'', ''myrinet'',
      ''voiceEM'', ''voiceFXO'', ''voiceFXS'', ''voiceEncap'', ''voiceOverIp'', ''atmDxi'', ''atmFuni'',
      ''atmIma'', ''pppMultilinkBundle'', ''ipOverCdlc'', ''ipOverClaw'', ''stackToStack'',
      ''virtualIpAddress'', ''mpc'', ''ipOverAtm'', ''iso88025Fiber'', ''tdlc'', ''gigabitEthernet'', ''hdlc'',
      ''lapf'', ''v37'', ''x25mlp'', ''x25huntGroup'', ''transpHdlc'', ''interleave'', ''fast'', ''ip'',
      ''docsCableMaclayer'', ''docsCableDownstream'', ''docsCableUpstream'', ''a12MppSwitch'', ''tunnel'',
      ''coffee'', ''ces'', ''atmSubInterface'', ''l2vlan'', ''l3ipvlan'', ''l3ipxvlan'', ''digitalPowerline'',
      ''mediaMailOverIp'', ''dtm'', ''dcn'', ''ipForward'', ''msdsl'', ''ieee1394'', ''if-gsn'',
      ''dvbRccMacLayer'', ''dvbRccDownstream'', ''dvbRccUpstream'', ''atmVirtual'', ''mplsTunnel'', ''srp'',
      ''voiceOverAtm'', ''voiceOverFrameRelay'', ''idsl'', ''compositeLink'', ''ss7SigLink'',
      ''propWirelessP2P'', ''frForward'', ''rfc1483'', ''usb'', ''ieee8023adLag'', ''bgppolicyaccounting'',
      ''frf16MfrBundle'', ''h323Gatekeeper'', ''h323Proxy'', ''mpls'', ''mfSigLink'', ''hdsl2'', ''shdsl'',
      ''ds1FDL'', ''pos'', ''dvbAsiIn'', ''dvbAsiOut'', ''plc'', ''nfas'', ''tr008'', ''gr303RDT'',
      ''gr303IDT'', ''isup'', ''propDocsWirelessMaclayer'', ''propDocsWirelessDownstream'',
      ''propDocsWirelessUpstream'', ''hiperlan2'', ''propBWAp2Mp'', ''sonetOverheadChannel'',
      ''digitalWrapperOverheadChannel'', ''aal2'', ''radioMAC'', ''atmRadio'', ''imt'', ''mvl'', ''reachDSL'',
      ''frDlciEndPt'', ''atmVciEndPt'', ''opticalChannel'', ''opticalTransport'', ''propAtm'',
      ''voiceOverCable'', ''infiniband'', ''teLink'', ''q2931'', ''virtualTg'', ''sipTg'', ''sipSig'',
      ''docsCableUpstreamChannel'', ''econet'', ''pon155'', ''pon622'', ''bridge'', ''linegroup'',
      ''voiceEMFGD'', ''voiceFGDEANA'', ''voiceDID'', ''mpegTransport'', ''sixToFour'', ''gtp'',
      ''pdnEtherLoop1'', ''pdnEtherLoop2'', ''opticalChannelGroup'', ''homepna'', ''gfp'', ''ciscoISLvlan'',
      ''actelisMetaLOOP'', ''fcipLink'', ''rpr'', ''qam'', ''lmp'', ''cblVectaStar'',
      ''docsCableMCmtsDownstream'', ''adsl2'', ''macSecControlledIF'', ''macSecUncontrolledIF'',
      ''aviciOpticalEther'', ''atmbond'', ''voiceFGDOS'', ''mocaVersion1'', ''ieee80216WMAN'', ''adsl2plus'',
      ''dvbRcsMacLayer'', ''dvbTdm'', ''dvbRcsTdma'', ''x86Laps'', ''wwanPP'', ''wwanPP2'', ''voiceEBS'',
      ''ifPwType'', ''ilan'', ''pip'', ''aluELP'', ''gpon'', ''vdsl2'', ''capwapDot11Profile'',
      ''capwapDot11Bss'', ''capwapWtpVirtualRadio'', ''bits'', ''docsCableUpstreamRfPort'',
      ''cableDownstreamRfPort'', ''vmwareVirtualNic'', ''ieee802154'', ''otnOdu'', ''otnOtu'', ''ifVfiType'',
      ''g9981'', ''g9982'', ''g9983'', ''aluEpon'', ''aluEponOnu'', ''aluEponPhysicalUni'',
      ''aluEponLogicalLink'', ''aluGponOnu'', ''aluGponPhysicalUni'', ''vmwareNicTeam'', ''docsOfdmDownstream'',
      ''docsOfdmaUpstream'', ''gfast'', ''sdci'', ''xboxWireless'', ''fastdsl'', ''docsCableScte55d1FwdOob'',
      ''docsCableScte55d1RetOob'', ''docsCableScte55d2DsOob'', ''docsCableScte55d2UsOob'', ''docsCableNdf'',
      ''docsCableNdr'', ''ptm'']"

definition interface_types :: "(string \<times> string) list" where
  "interface_types = map (\<lambda>n. (''iana-if-type'', n)) iana_interface_types"

abbreviation Y_interface_type :: yang_type where
  "Y_interface_type \<equiv> Y_identityref interface_types"

text \<open>A reference to a type of interface begins with the name of the module.\<close>

lemma conforms_interface_type:
  "conforms Y_interface_type (SR_IDENTITYREF_T s) \<longleftrightarrow> s \<in> (\<lambda>n. ''iana-if-type:'' @ n) ` set iana_interface_types"
  by (auto simp: interface_types_def identity_text_def list_ex_iff)

lemma ethernet_is_interface_type: "''ethernetCsmacd'' \<in> set iana_interface_types"
  by (simp add: iana_interface_types_def)


section \<open>Operational data\<close>

text \<open>\<open>/ietf-interfaces:interfaces-state/interface\<close>\<close>

definition interfaces_state_leaves :: "yang_leaf list" where
  "interfaces_state_leaves =
     [optional_leaf ''name'' Y_string,
      mandatory_leaf ''type'' Y_interface_type,
      mandatory_leaf ''admin-status'' (Y_enumeration [''up'', ''down'', ''testing'']),
      mandatory_leaf ''oper-status''
        (Y_enumeration [''up'', ''down'', ''testing'', ''unknown'', ''dormant'', ''not-present'', ''lower-layer-down'']),
      optional_leaf ''last-change'' Y_other,
      mandatory_leaf ''if-index'' (Y_int32 1 2147483647),
      optional_leaf ''phys-address'' Y_phys_address,
      optional_leaf ''speed'' Y_uint64]"

text \<open>\<open>/ietf-interfaces:interfaces-state/interface/statistics\<close>\<close>

definition statistics_leaves :: "yang_leaf list" where
  "statistics_leaves =
     [mandatory_leaf ''discontinuity-time'' Y_other,
      optional_leaf ''in-octets'' Y_uint64,
      optional_leaf ''in-unicast-pkts'' Y_uint64,
      optional_leaf ''in-broadcast-pkts'' Y_uint64,
      optional_leaf ''in-multicast-pkts'' Y_uint64,
      optional_leaf ''in-discards'' Y_uint32,
      optional_leaf ''in-errors'' Y_uint32,
      optional_leaf ''in-unknown-protos'' Y_uint32,
      optional_leaf ''out-octets'' Y_uint64,
      optional_leaf ''out-unicast-pkts'' Y_uint64,
      optional_leaf ''out-broadcast-pkts'' Y_uint64,
      optional_leaf ''out-multicast-pkts'' Y_uint64,
      optional_leaf ''out-discards'' Y_uint32,
      optional_leaf ''out-errors'' Y_uint32]"

text \<open>
  \<open>/openconfig-interfaces:interfaces/interface/state\<close>: the groupings
  \<open>interface-phys-config\<close> and \<open>interface-common-state\<close>
\<close>

definition oc_phys_config_leaves :: "yang_leaf list" where
  "oc_phys_config_leaves =
     [optional_leaf ''name'' Y_string,
      optional_leaf ''type'' Y_interface_type,
      optional_leaf ''mtu'' Y_uint16,
      optional_leaf ''loopback-mode'' Y_boolean,
      optional_leaf ''description'' Y_string,
      optional_leaf ''enabled'' Y_boolean]"

definition oc_common_state_leaves :: "yang_leaf list" where
  "oc_common_state_leaves =
     [optional_leaf ''ifindex'' Y_uint32,
      mandatory_leaf ''admin-status'' (Y_enumeration [''UP'', ''DOWN'', ''TESTING'']),
      mandatory_leaf ''oper-status''
        (Y_enumeration [''UP'', ''DOWN'', ''TESTING'', ''UNKNOWN'', ''DORMANT'', ''NOT_PRESENT'', ''LOWER_LAYER_DOWN'']),
      optional_leaf ''last-change'' Y_other,
      optional_leaf ''logical'' Y_boolean]"

text \<open>\<open>/ietf-nat:nat/instances/instance/capabilities\<close>: its leaves of type boolean and the rest\<close>

definition nat_capabilities_leaves :: "yang_leaf list" where
  "nat_capabilities_leaves =
     map (\<lambda>n. optional_leaf n Y_boolean)
       [''restricted-port-support'', ''static-mapping-support'', ''port-randomization-support'',
        ''port-range-allocation-support'', ''port-preservation-suport'', ''port-parity-preservation-support'',
        ''address-roundrobin-support'', ''paired-address-pooling-support'',
        ''endpoint-independent-mapping-support'', ''address-dependent-mapping-support'',
        ''address-and-port-dependent-mapping-support'', ''endpoint-independent-filtering-support'',
        ''address-dependent-filtering'', ''address-and-port-dependent-filtering''] @
     map (\<lambda>n. optional_leaf n Y_other) [''nat-flavor'', ''per-interface-binding'', ''fragment-behavior'']"


section \<open>Configuration data\<close>

text \<open>\<open>/ietf-interfaces:interfaces/interface\<close> and its \<open>ietf-ip\<close> addresses\<close>

definition interface_config_leaves :: "yang_leaf list" where
  "interface_config_leaves =
     [optional_leaf ''name'' Y_string, mandatory_leaf ''type'' Y_interface_type, optional_leaf ''enabled'' Y_boolean]"

definition ipv4_address_leaves :: "yang_leaf list" where
  "ipv4_address_leaves =
     [optional_leaf ''ip'' Y_string, optional_leaf ''prefix-length'' (Y_uint8 0 32), optional_leaf ''netmask'' Y_string]"

definition ipv6_address_leaves :: "yang_leaf list" where
  "ipv6_address_leaves =
     [optional_leaf ''ip'' Y_string, mandatory_leaf ''prefix-length'' (Y_uint8 0 128)]"

text \<open>The leaves of the grouping \<open>mapping-entry\<close> that the NAT callback reads.\<close>

definition mapping_entry_leaves :: "yang_leaf list" where
  "mapping_entry_leaves =
     [optional_leaf ''index'' Y_uint32,
      optional_leaf ''type'' (Y_enumeration [''static'', ''dynamic-implicit'', ''dynamic-explicit'']),
      optional_leaf ''internal-src-address'' Y_string,
      optional_leaf ''external-src-address'' Y_string,
      optional_leaf ''internal-dst-address'' Y_string,
      optional_leaf ''external-dst-address'' Y_string]"


section \<open>Conformance of values\<close>

text \<open>An answered value: a leaf below \<open>node\<close> with a value of its type.\<close>

definition answer_conforms :: "string \<Rightarrow> yang_leaf list \<Rightarrow> sr_val \<Rightarrow> bool" where
  "answer_conforms node leaves v \<longleftrightarrow>
     list_ex (\<lambda>l. xpath v = node @ ''/'' @ ly_name l \<and> conforms (ly_type l) (data v)) leaves"

text \<open>The mandatory leaves that an answer lacks.\<close>

definition missing_leaves :: "string \<Rightarrow> yang_leaf list \<Rightarrow> sr_val list \<Rightarrow> string list" where
  "missing_leaves node leaves vs =
     map ly_name (filter (\<lambda>l. ly_mandatory l \<and> node @ ''/'' @ ly_name l \<notin> set (map xpath vs)) leaves)"

text \<open>
  A changed value as sysrepo delivers it after validation: whatever leaf it is the value
  of, it has the tag of that leaf's type. Its content need not conform.
\<close>

definition validated :: "sr_api \<Rightarrow> yang_leaf list \<Rightarrow> sr_val \<Rightarrow> bool" where
  "validated api leaves v \<longleftrightarrow>
     list_all (\<lambda>l. sr_xpath_node_name_eq api (xpath v) (ly_name l) \<longrightarrow> has_tag (ly_type l) (data v)) leaves"

definition validated_change :: "sr_api \<Rightarrow> yang_leaf list \<Rightarrow> change \<Rightarrow> bool" where
  "validated_change api leaves c \<longleftrightarrow>
     list_all (\<lambda>v. case v of None \<Rightarrow> True | Some v \<Rightarrow> validated api leaves v) [old_val c, new_val c]"

lemmas leaf_constr_defs = optional_leaf_def mandatory_leaf_def

lemma validated_changeD:
  "validated_change api leaves c \<Longrightarrow> old_val c = Some v \<Longrightarrow> validated api leaves v"
  "validated_change api leaves c \<Longrightarrow> new_val c = Some v \<Longrightarrow> validated api leaves v"
  by (simp_all add: validated_change_def)


section \<open>Reading tagged values\<close>

text \<open>The members of the union that the tag makes active.\<close>

lemma tag_string_val:
  "has_tag Y_string (data v) \<Longrightarrow> is_val (string_val v)"
  "has_tag (Y_identityref ids) (data v) \<Longrightarrow> is_val (string_val v)"
  "has_tag (Y_enumeration ns) (data v) \<Longrightarrow> is_val (string_val v)"
  by (cases "data v"; simp)+

lemma tag_bool_val: "has_tag Y_boolean (data v) \<Longrightarrow> is_val (bool_val v)"
  by (cases "data v") simp_all

lemma tag_uint8_val: "has_tag (Y_uint8 lo hi) (data v) \<Longrightarrow> is_val (uint8_val v)"
  by (cases "data v") simp_all

lemma tag_uint32_val: "has_tag Y_uint32 (data v) \<Longrightarrow> is_val (uint32_val v)"
  by (cases "data v") simp_all

lemmas tag_reads = tag_string_val tag_bool_val tag_uint8_val tag_uint32_val

end
