(* ===== verification/Yang_Conformance.thy ===== *)
theory Yang_Conformance
  imports Yang Interface_State Openconfig_Interfaces Ietf_Nat
begin

text \<open>
  The callbacks against the YANG modules: which answers of the providers conform to the
  schema, and that changes which sysrepo has validated against the schema never make a
  configuration callback read an inactive member of the value union.
\<close>

section \<open>Physical addresses\<close>

lemma hex_digit_hex_char: "d < 16 \<Longrightarrow> hex_digit (hex_char d)"
  by (auto simp: hex_digit_def hex_char_def Let_def)

lemma hex_02x_digits:
  obtains x y where "hex_02x b = [x, y]" "hex_digit x" "hex_digit y"
proof
  show "hex_02x b = [hex_char (unat b div 16), hex_char (unat b mod 16)]"
    by (simp add: hex_02x_def)
  have "unat b < 256"
    using unsigned_less [of b, where ?'a = nat] by simp
  then show "hex_digit (hex_char (unat b div 16))" "hex_digit (hex_char (unat b mod 16))"
    by (auto intro: hex_digit_hex_char)
qed

lemma phys_octets_join: "bs \<noteq> [] \<Longrightarrow> phys_octets (CHR '':'' # colon_join (map hex_02x bs))"
proof (induction bs)
  case (Cons b bs)
  obtain x y where b: "hex_02x b = [x, y]" "hex_digit x" "hex_digit y"
    by (rule hex_02x_digits)
  show ?case
  proof (cases "bs = []")
    case True
    with b show ?thesis
      by simp
  next
    case False
    with b Cons.IH show ?thesis
      by (simp add: colon_join_Cons)
  qed
qed simp

lemma phys_pattern_mac_string: "phys_pattern (mac_string bs)"
proof (cases "take 6 bs")
  case (Cons b cs)
  obtain x y where "hex_02x b = [x, y]" "hex_digit x" "hex_digit y"
    by (rule hex_02x_digits)
  with Cons show ?thesis
    using phys_octets_join [of cs] by (cases "cs = []") (simp_all add: mac_string_def colon_join_Cons)
qed (simp add: mac_string_def)


section \<open>Answers\<close>

lemma answer_conforms_leaf:
  "answer_conforms node leaves \<lparr>xpath = node @ CHR ''/'' # n, data = d\<rparr> \<longleftrightarrow>
     list_ex (\<lambda>l. ly_name l = n \<and> conforms (ly_type l) d) leaves"
  by (auto simp: answer_conforms_def list_ex_iff)

text \<open>The list entry that the state callback answers for.\<close>

definition state_entry :: "string \<Rightarrow> string \<Rightarrow> string" where
  "state_entry xp n = xp @ ''[name='' @ [CHR 0x27] @ n @ [CHR 0x27] @ '']''"

lemma named_path_entry: "named_path xp n leaf = state_entry xp n @ CHR ''/'' # leaf"
  by (simp add: named_path_def state_entry_def)

lemma sint_in_range: "1 \<le> sint w \<and> sint w \<le> 2147483647 \<longleftrightarrow> 0 < w \<and> w < 0x80000000" for w :: "32 word"
proof -
  have w: "0 \<le> uint w" "uint w < 4294967296"
    using uint_lt2p [of w] by simp_all
  show ?thesis
  proof (cases "uint w < 2147483648")
    case True
    with w have "sint w = uint w"
      using order_trans [of "- 2147483648" 0 "uint w"] by (simp add: sint_uint signed_take_bit_int_eq_self_iff)
    with True w show ?thesis
      by (auto simp: word_less_def)
  next
    case False
    have "(uint w + 2147483648) mod 4294967296 = (uint w - 2147483648 + 4294967296) mod 4294967296"
      by (simp add: add.commute)
    also have "\<dots> = uint w - 2147483648"
      using w False by (subst mod_add_self2) (rule mod_pos_pos_trivial; simp)
    finally have "sint w = uint w - 4294967296"
      by (simp add: sint_uint signed_take_bit_eq_take_bit_shift take_bit_eq_mod)
    with False w show ?thesis
      by (auto simp: word_less_def)
  qed
qed


section \<open>Validated changes\<close>

text \<open>Outcomes that are not the read of an inactive union member.\<close>

abbreviation type_safe :: "'r outcome \<Rightarrow> bool" where
  "type_safe m \<equiv> m \<noteq> Undef InactiveMember"

lemma reads_type_safe:
  "type_safe (load x)" "type_safe (deref y)" "type_safe (free_ptr p)"
  by (auto simp: load_def deref_def split: option.split) (cases p; simp)

lemma walk_type_safe:
  assumes "\<And>c l. c \<in> set cs \<Longrightarrow> type_safe (step c l)"
  shows "type_safe (walk_changes step cs l)"
  using assms by (auto dest!: walk_changes_Undef)

lemma interface_config_reads:
  assumes "validated api interface_config_leaves v"
  shows "sr_xpath_node_name_eq api (xpath v) ''name'' \<Longrightarrow> is_val (string_val v)"
    and "sr_xpath_node_name_eq api (xpath v) ''type'' \<Longrightarrow> is_val (string_val v)"
    and "sr_xpath_node_name_eq api (xpath v) ''enabled'' \<Longrightarrow> is_val (bool_val v)"
  using assms tag_reads
  by (auto simp: validated_def interface_config_leaves_def leaf_constr_defs simp del: string_val.simps bool_val.simps
      has_tag.simps)

lemma intf_branches_type_safe:
  assumes "validated api interface_config_leaves v"
  shows "type_safe (intf_created api v l)" "type_safe (intf_modified api vom v l)" "type_safe (intf_deleted api v l)"
  using interface_config_reads [OF assms]
  by (auto simp: intf_created_def intf_modified_def intf_deleted_def outcome_simps is_val_iff reads_type_safe
      simp del: string_val.simps bool_val.simps split: if_splits option.splits)

lemma intf_steps_type_safe:
  assumes "validated_change api interface_config_leaves c"
  shows "type_safe (ietf_create_step api vom c l)" "type_safe (oc_config_step api vom c l)"
proof -
  have created: "type_safe (intf_created api v l)" and modified: "type_safe (intf_modified api vom v l)"
    if "new_val c = Some v" for v
    using intf_branches_type_safe validated_changeD(2) [OF assms that] by blast+
  have deleted: "type_safe (intf_deleted api v l)" if "old_val c = Some v" for v
    using intf_branches_type_safe(3) validated_changeD(1) [OF assms that] by blast
  show "type_safe (ietf_create_step api vom c l)"
    by (cases "oper c")
      (auto simp: ietf_create_step_def outcome_simps reads_type_safe dest: created modified deleted)
  show "type_safe (oc_config_step api vom c l)"
    by (cases "oper c")
      (auto simp: oc_config_step_def outcome_simps reads_type_safe dest: created modified deleted split: if_splits)
qed

lemma intf_finish_type_safe: "type_safe (intf_finish vom vals l)"
  by (auto simp: intf_finish_def build_def builder_to_string_def outcome_simps reads_type_safe
      split: if_splits prod.splits rc_t.splits)

lemma intf_run_type_safe:
  "(\<And>c l. c \<in> set cs \<Longrightarrow> type_safe (step c l)) \<Longrightarrow> type_safe (intf_run step vom mem ds SR_EV_VERIFY cs s)"
  by (auto simp: intf_run_def outcome_simps walk_type_safe intf_finish_type_safe split: flow.splits)

text \<open>
  A value below an address of either family; the module has no netmask for IPv6.
\<close>

definition address_value :: "sr_api \<Rightarrow> sr_val \<Rightarrow> bool" where
  "address_value api v \<longleftrightarrow> validated api ipv4_address_leaves v \<or>
     validated api ipv6_address_leaves v \<and> \<not> sr_xpath_node_name_eq api (xpath v) ''netmask''"

definition address_change :: "sr_api \<Rightarrow> change \<Rightarrow> bool" where
  "address_change api c \<longleftrightarrow>
     list_all (\<lambda>v. case v of None \<Rightarrow> True | Some v \<Rightarrow> address_value api v) [old_val c, new_val c]"

lemma address_reads:
  assumes "address_value api v"
  shows "sr_xpath_node_name_eq api (xpath v) ''ip'' \<Longrightarrow> is_val (string_val v)"
    and "sr_xpath_node_name_eq api (xpath v) ''prefix-length'' \<Longrightarrow> is_val (uint8_val v)"
    and "sr_xpath_node_name_eq api (xpath v) ''netmask'' \<Longrightarrow> is_val (string_val v)"
  using assms tag_reads
  by (auto simp: address_value_def validated_def ipv4_address_leaves_def ipv6_address_leaves_def leaf_constr_defs
      simp del: string_val.simps uint8_val.simps has_tag.simps)

lemma netmask_to_plen_type_safe: "type_safe (netmask_to_plen order net a)"
  by (auto simp: netmask_to_plen_def store_in_addr_def outcome_simps Let_def split: if_splits option.splits)

lemma parse_address_type_safe:
  assumes "\<And>v. val = Some v \<Longrightarrow> address_value api v"
  shows "type_safe (parse_interface_ipv46_address order api net val ap)"
proof (cases val)
  case (Some v)
  show ?thesis
    using address_reads [OF assms [OF Some]]
    by (auto simp: parse_interface_ipv46_address_def Some outcome_simps is_val_iff netmask_to_plen_type_safe
        simp del: string_val.simps uint8_val.simps split: if_splits option.splits)
qed (simp add: parse_interface_ipv46_address_def)

lemma catchO_eq_Undef: "catchO m h = Undef u \<longleftrightarrow> m = Undef u \<or> (\<exists>e. m = Throw e \<and> h e = Undef u)"
  by (cases m) auto

lemma addr_step_type_safe:
  assumes "address_change api c"
  shows "type_safe (addr_step order api net vom c l)"
proof -
  have parse: "type_safe (parse_interface_ipv46_address order api net (old_val c) ap)"
    "type_safe (parse_interface_ipv46_address order api net (new_val c) ap)" for ap
    using assms by (auto simp: address_change_def intro!: parse_address_type_safe)
  have "type_safe (addr_switch order api net c l)"
    by (cases "oper c") (auto simp: addr_switch_def Let_def outcome_simps catchO_eq_Undef parse)
  then show ?thesis
    by (auto simp: addr_step_def outcome_simps reads_type_safe split: if_splits)
qed

lemma mapping_reads:
  assumes "validated api mapping_entry_leaves v"
  shows "leaf_of api v = Index \<Longrightarrow> is_val (uint32_val v)"
    and "leaf_of api v \<notin> {Index, Other_Leaf} \<Longrightarrow> is_val (string_val v)"
  using assms tag_reads
  by (auto simp: leaf_of_def validated_def mapping_entry_leaves_def leaf_constr_defs
      simp del: string_val.simps uint32_val.simps has_tag.simps split: if_splits)

lemma nat_step_type_safe:
  assumes "validated_change api mapping_entry_leaves c"
  shows "type_safe (nat_step api net c l)"
proof -
  have created: "type_safe (nat_created api net v l)" if "new_val c = Some v" for v
    using mapping_reads [OF validated_changeD(2) [OF assms that]]
    by (cases "leaf_of api v")
      (auto simp: nat_created_leaf setter_defs outcome_simps is_val_iff make_prefix_no_undef
        simp del: string_val.simps uint32_val.simps)
  have deleted: "is_val (uint32_val v)" if "old_val c = Some v" "sr_xpath_node_name_eq api (xpath v) ''index''" for v
    using mapping_reads(1) [OF validated_changeD(1) [OF assms that(1)]] that(2) by (simp add: leaf_of_def)
  show ?thesis
    by (cases "oper c")
      (auto simp: nat_step_def outcome_simps is_val_iff reads_type_safe simp del: uint32_val.simps
        dest: created dest!: deleted split: if_splits)
qed

lemma nat_finish_type_safe: "type_safe (nat_finish net vom vals l st)"
proof -
  have "type_safe (both_present net p q)" for p q
    by (simp add: both_present_eq outcome_simps reads_type_safe)
  then have "type_safe (nat_build net b)" for b
    by (auto simp: nat_build_def outcome_simps Let_def split: if_splits)
  then show ?thesis
    by (auto simp: nat_finish_def nat_error_def outcome_simps reads_type_safe
        split: if_splits option.splits prod.splits rc_t.splits)
qed


section \<open>Properties\<close>

text \<open>
  (C15) Type safety of the configuration callbacks: whatever changes sysrepo delivers, as
  long as their values have the types that the YANG modules give their leaves, no callback
  reads a member of the value union that is not the active one.
\<close>

theorem validated_changes_type_safe:
  assumes "\<forall>c \<in> set (snd (sr_get_changes_iter ds xp)). validated_change api interface_config_leaves c"
    and "\<forall>c \<in> set (snd (sr_get_changes_iter ds' xp')). address_change api c"
    and "\<forall>c \<in> set (snd (sr_get_changes_iter ds'' xp'')). validated_change api mapping_entry_leaves c"
  shows "type_safe (ietf_interface_create_cb api vom mem ds xp event s) \<and>
    type_safe (oc_interfaces_config_cb api vom mem (Some ds) (Some xp) event s) \<and>
    type_safe (ietf_interface_ipv46_address_change_cb order api net vom ds' xp' event s) \<and>
    type_safe (nat_mapping_table_config_cb api net vom nmem (Some ds'') (Some xp'') event st)"
proof (intro conjI)
  show "type_safe (ietf_interface_create_cb api vom mem ds xp event s)"
    using assms(1)
    by (cases "sr_get_changes_iter ds xp") (auto simp: ietf_interface_create_cb_def intf_run_type_safe intf_steps_type_safe)
  show "type_safe (oc_interfaces_config_cb api vom mem (Some ds) (Some xp) event s)"
    using assms(1)
    by (cases "sr_get_changes_iter ds xp") (auto simp: oc_interfaces_config_cb_def intf_run_type_safe intf_steps_type_safe)
  show "type_safe (ietf_interface_ipv46_address_change_cb order api net vom ds' xp' event s)"
    using assms(2)
    by (cases "sr_get_changes_iter ds' xp'")
      (auto simp: ietf_interface_ipv46_address_change_cb_def foreach_change_def outcome_simps
        walk_type_safe addr_step_type_safe split: if_splits flow.splits)
  show "type_safe (nat_mapping_table_config_cb api net vom nmem (Some ds'') (Some xp'') event st)"
    using assms(3)
    by (cases "sr_get_changes_iter ds'' xp''")
      (auto simp: nat_mapping_table_config_cb_def nat_error_def outcome_simps reads_type_safe
        walk_type_safe nat_step_type_safe nat_finish_type_safe split: if_splits flow.splits)
qed

theorem validated_changes_type_safe_witness:
  "type_safe (ietf_interface_create_cb sample_api sample_vom zeroed (sample_session create_eth0) [] SR_EV_VERIFY sample_empty) \<and>
    type_safe (nat_mapping_table_config_cb sample_api sample_net sample_vom nat_zeroed
      (Some (sample_session (create_entry ''static'' ''src''))) (Some []) SR_EV_VERIFY (sample_empty, \<lambda>_. None))"
proof -
  have i: "\<forall>c \<in> set (snd (sr_get_changes_iter (sample_session create_eth0) [])).
      validated_change sample_api interface_config_leaves c"
    by code_simp
  have a: "\<forall>c \<in> set (snd (sr_get_changes_iter (sample_session (create_address ''10.0.0.1'' 24)) [])).
      address_change sample_api c"
    by code_simp
  have m: "\<forall>c \<in> set (snd (sr_get_changes_iter (sample_session (create_entry ''static'' ''src'')) [])).
      validated_change sample_api mapping_entry_leaves c"
    by code_simp
  show ?thesis
    using validated_changes_type_safe [OF i a m, where vom = sample_vom and mem = zeroed and event = SR_EV_VERIFY
        and s = sample_empty and net = sample_net and nmem = nat_zeroed and st = "(sample_empty, \<lambda>_. None)"
        and order = Little_Endian]
    by blast
qed

text \<open>
  (C25) The values that the state callback answers for an interface are leaves of
  \<open>interfaces-state/interface\<close> with values of their types, exactly if VPP's index is
  positive and below \<open>2 ^ 31\<close>; VPP's interface 0 violates the range of \<open>if-index\<close>. The
  mandatory leaf \<open>type\<close> is never answered.
\<close>

theorem ietf_state_conforms:
  "(list_all (answer_conforms (state_entry xp (interface_name d)) interfaces_state_leaves) (state_values xp d) \<longleftrightarrow>
      0 < sw_if_index d \<and> sw_if_index d < 0x80000000) \<and>
   missing_leaves (state_entry xp (interface_name d)) interfaces_state_leaves (state_values xp d) = [''type'']"
  by (simp add: state_values_def named_path_entry answer_conforms_leaf interfaces_state_leaves_def leaf_constr_defs
      phys_pattern_mac_string missing_leaves_def flip: sint_in_range)

text \<open>
  (C26) The other providers. Of the seven values of the OpenConfig state all but one conform
  to the module, and no mandatory leaf is missing; the one is the type, whose identity is
  given with the prefix \<open>ianaift\<close> instead of the name of the module \<open>iana-if-type\<close>, with
  which it would conform. All eight counters of the statistics conform, while the mandatory
  \<open>discontinuity-time\<close> is not answered. The one value of the NAT capabilities is not a leaf
  of the module, whose leaf is called \<open>static-mapping-support\<close>.
\<close>

theorem providers_conform:
  "filter (\<lambda>v. \<not> answer_conforms root (oc_phys_config_leaves @ oc_common_state_leaves) v) (oc_state_values root d) =
     [\<lparr>xpath = root @ ''/type'', data = SR_IDENTITYREF_T ''ianaift:ethernetCsmacd''\<rparr>] \<and>
   answer_conforms root (oc_phys_config_leaves @ oc_common_state_leaves)
     \<lparr>xpath = root @ ''/type'', data = SR_IDENTITYREF_T ''iana-if-type:ethernetCsmacd''\<rparr> \<and>
   missing_leaves root (oc_phys_config_leaves @ oc_common_state_leaves) (oc_state_values root d) = [] \<and>
   list_all (answer_conforms xp statistics_leaves) (statistics_values xp st) \<and>
   missing_leaves xp statistics_leaves (statistics_values xp st) = [''discontinuity-time''] \<and>
   \<not> list_ex (answer_conforms xp nat_capabilities_leaves) (cap_values xp)"
proof -
  have "\<not> conforms Y_interface_type (SR_IDENTITYREF_T ''ianaift:ethernetCsmacd'')"
    "conforms Y_interface_type (SR_IDENTITYREF_T ''iana-if-type:ethernetCsmacd'')"
    using ethernet_is_interface_type by (auto simp: conforms_interface_type simp del: conforms.simps)
  then show ?thesis
    by (simp add: oc_state_values_def statistics_values_def cap_values_def answer_conforms_leaf leaf_constr_defs
        oc_phys_config_leaves_def oc_common_state_leaves_def statistics_leaves_def nat_capabilities_leaves_def
        missing_leaves_def del: conforms.simps(3))
qed

end
