(* ===== verification/Vpp_Pid.thy ===== *)
theory Vpp_Pid
  imports Sysrepo
begin

text \<open>
  \<open>get_vpp_pid\<close> of \<open>src/plugins/sc_plugins.c\<close>: the search of \<open>/proc\<close> for a process
  whose command line starts with \<open>vpp\<close>. The file system is a parameter.
\<close>

section \<open>The file system\<close>

datatype d_type = DT_DIR | DT_OTHER

record dirent =
  d_name :: string
  d_type_of :: d_type

text \<open>
  What the C library sees of \<open>/proc\<close>: whether \<open>opendir\<close> fails and with which \<open>errno\<close>;
  the entries \<open>readdir\<close> delivers and the \<open>errno\<close> of its last call (0: the end of the
  directory, which leaves \<open>errno\<close> alone); per path, the \<open>errno\<close> of a failing \<open>fopen\<close>
  or the content of the file with the \<open>errno\<close> of reading it (0: no error). Successful
  calls leave \<open>errno\<close> alone.

  \<open>readdir\<close> hands out a pointer into the directory stream, which \<open>closedir\<close> frees.
  \<open>after_close\<close> says what the memory of an entry's name still holds once the stream is
  closed: \<open>None\<close> where reading it is undefined behaviour, which is all that C promises,
  and \<open>Some t\<close> where the freed memory happens to read as \<open>t\<close>.
\<close>

record proc_fs =
  opendir_errno :: "int option"
  entries :: "dirent list"
  readdir_errno :: int
  fopen_cmdline :: "string \<Rightarrow> int + int \<times> string"
  after_close :: "dirent \<Rightarrow> string option"

definition ESRCH :: int where "ESRCH = 3"
definition DIRENT_NAME :: nat where "DIRENT_NAME = 256"
definition CMDLINE_MAX :: nat where "CMDLINE_MAX = DIRENT_NAME + 15"
definition VPP_FULL_PATH :: string where "VPP_FULL_PATH = ''/usr/bin/vpp''"

text \<open>\<open>sizeof(VPP_FULL_PATH)\<close> counts the terminating zero.\<close>

definition sizeof_path :: nat where "sizeof_path = length VPP_FULL_PATH + 1"


section \<open>get\_vpp\_pid\<close>

definition proc_path :: "string \<Rightarrow> string" where
  "proc_path n = ''/proc/'' @ n @ ''/cmdline''"

definition cmdline_path :: "string \<Rightarrow> string" where
  "cmdline_path n = snprintf_str CMDLINE_MAX (proc_path n)"

text \<open>\<open>ptr->d_name\<close> after \<open>closedir(dir)\<close>.\<close>

definition closed_name :: "proc_fs \<Rightarrow> dirent \<Rightarrow> string outcome" where
  "closed_name fs d = (case after_close fs d of None \<Rightarrow> Undef UseAfterFree | Some t \<Rightarrow> Val t)"

text \<open>
  The loop over the directory, with \<open>errno\<close>. Once a VPP process is found the directory
  is closed first and the name of its entry read afterwards.
\<close>

fun pid_loop :: "proc_fs \<Rightarrow> dirent list \<Rightarrow> int \<Rightarrow> int outcome" where
  "pid_loop fs [] errno =
     (let errno' = (if readdir_errno fs \<noteq> 0 then readdir_errno fs else errno)
      in if errno' \<noteq> 0 then Val (- errno') else Val (- ESRCH))"
| "pid_loop fs (d # ds) errno =
     (if d_name d = ''.'' \<or> d_name d = ''..'' then pid_loop fs ds errno
      else if d_type_of d \<noteq> DT_DIR then pid_loop fs ds errno
      else (case fopen_cmdline fs (cmdline_path (d_name d)) of
        Inl e \<Rightarrow> pid_loop fs ds e
      | Inr (e, line) \<Rightarrow>
          (let filetext = take sizeof_path line;
               errno' = (if e \<noteq> 0 then e else errno) in
           if filetext = [] then pid_loop fs ds errno'
           else (case strtok_space filetext of
             None \<Rightarrow> pid_loop fs ds errno'
           | Some word \<Rightarrow>
               if word = ''vpp'' \<or> word = VPP_FULL_PATH then bindO (closed_name fs d) atoi
               else pid_loop fs ds 0))))"

definition get_vpp_pid :: "proc_fs \<Rightarrow> int \<Rightarrow> int outcome" where
  "get_vpp_pid fs errno =
     (case opendir_errno fs of
        Some e \<Rightarrow> Val (- e)
      | None \<Rightarrow> pid_loop fs (entries fs) errno)"


section \<open>What the loop looks for\<close>

text \<open>
  A process of VPP: a directory whose \<open>cmdline\<close>, read in full, has \<open>vpp\<close> or the full
  path as its first word.
\<close>

definition vpp_cmdline :: "string \<Rightarrow> bool" where
  "vpp_cmdline line \<longleftrightarrow> strtok_space line \<in> {Some ''vpp'', Some VPP_FULL_PATH}"

definition vpp_process :: "proc_fs \<Rightarrow> dirent \<Rightarrow> bool" where
  "vpp_process fs d \<longleftrightarrow>
     d_name d \<notin> {''.'', ''..''} \<and> d_type_of d = DT_DIR \<and>
     (case fopen_cmdline fs (proc_path (d_name d)) of
        Inl e \<Rightarrow> False
      | Inr (e, line) \<Rightarrow> vpp_cmdline line)"

text \<open>
  What the loop relies on: names as long as \<open>d_name\<close> allows, and command lines that do
  not begin with a space.
\<close>

definition plain_proc :: "proc_fs \<Rightarrow> bool" where
  "plain_proc fs \<longleftrightarrow>
     list_all (\<lambda>d. length (d_name d) < DIRENT_NAME \<and>
       (case fopen_cmdline fs (proc_path (d_name d)) of
          Inl e \<Rightarrow> True
        | Inr (e, line) \<Rightarrow> (case line of [] \<Rightarrow> True | c # _ \<Rightarrow> c \<noteq> CHR '' ''))) (entries fs)"

lemmas path_consts = DIRENT_NAME_def CMDLINE_MAX_def VPP_FULL_PATH_def sizeof_path_def

text \<open>Error numbers are positive.\<close>

definition positive_errnos :: "proc_fs \<Rightarrow> bool" where
  "positive_errnos fs \<longleftrightarrow>
     (0 \<le> readdir_errno fs \<and> (case opendir_errno fs of None \<Rightarrow> True | Some e \<Rightarrow> 0 < e)) \<and>
     (\<forall>p. case fopen_cmdline fs p of Inl e \<Rightarrow> 0 < e | Inr (e, _) \<Rightarrow> 0 \<le> e)"

lemma cmdline_path_fits:
  "length n < DIRENT_NAME \<Longrightarrow> cmdline_path n = proc_path n"
  by (simp add: cmdline_path_def proc_path_def snprintf_str_fits path_consts)

lemma strtok_space_plain:
  assumes "line = [] \<or> hd line \<noteq> CHR '' ''"
  shows "strtok_space line =
    (let t = takeWhile (\<lambda>c. of_char c \<noteq> (0 :: nat) \<and> c \<noteq> CHR '' '') line in if t = [] then None else Some t)"
proof (cases line)
  case (Cons c cs)
  have merge: "takeWhile P (takeWhile Q xs) = takeWhile (\<lambda>c. Q c \<and> P c) xs" for P Q and xs :: string
    by (induction xs) auto
  from Cons assms show ?thesis
    by (simp add: strtok_space_def c_str_def merge Let_def)
qed (simp add: strtok_space_def c_str_def)

lemma takeWhile_take: "takeWhile P (take n xs) = take n (takeWhile P xs)"
proof (induction xs arbitrary: n)
  case (Cons x xs)
  then show ?case
    by (cases n) simp_all
qed simp

lemma take_eq_short: "length ys < n \<Longrightarrow> take n xs = ys \<longleftrightarrow> xs = ys"
  by (auto simp: take_all)

text \<open>The thirteen characters read decide as the whole command line would.\<close>

lemma truncated_vpp_cmdline:
  assumes "line = [] \<or> hd line \<noteq> CHR '' ''"
  shows "strtok_space (take sizeof_path line) \<in> {Some ''vpp'', Some VPP_FULL_PATH} \<longleftrightarrow> vpp_cmdline line"
proof -
  let ?t = "takeWhile (\<lambda>c. of_char c \<noteq> (0 :: nat) \<and> c \<noteq> CHR '' '') line"
  have "take sizeof_path line = [] \<or> hd (take sizeof_path line) \<noteq> CHR '' ''"
    using assms by (cases line) (auto simp: sizeof_path_def)
  then have short: "strtok_space (take sizeof_path line) =
      (if take sizeof_path ?t = [] then None else Some (take sizeof_path ?t))"
    by (simp add: strtok_space_plain takeWhile_take Let_def)
  have "take sizeof_path ?t = ''vpp'' \<longleftrightarrow> ?t = ''vpp''" "take sizeof_path ?t = VPP_FULL_PATH \<longleftrightarrow> ?t = VPP_FULL_PATH"
    by (simp_all add: take_eq_short path_consts)
  then show ?thesis
    unfolding short vpp_cmdline_def strtok_space_plain [OF assms] Let_def
    by (auto simp: sizeof_path_def VPP_FULL_PATH_def split: if_splits)
qed

lemma pid_loop_find:
  assumes "plain_proc (fs\<lparr>entries := ds\<rparr>)" "List.find (vpp_process fs) ds = Some d"
  shows "pid_loop fs ds errno = bindO (closed_name fs d) atoi"
  using assms
proof (induction ds arbitrary: errno)
  case (Cons x xs)
  have rest: "pid_loop fs xs e = bindO (closed_name fs d) atoi" if "\<not> vpp_process fs x" for e
    using Cons that by (simp add: plain_proc_def)
  have len: "length (d_name x) < DIRENT_NAME"
    using Cons.prems(1) by (simp add: plain_proc_def)
  show ?case
  proof (cases "d_name x \<notin> {''.'', ''..''} \<and> d_type_of x = DT_DIR")
    case False
    with rest show ?thesis
      by (auto simp: vpp_process_def)
  next
    case dir: True
    show ?thesis
    proof (cases "fopen_cmdline fs (proc_path (d_name x))")
      case (Inl e)
      with dir rest len show ?thesis
        by (simp add: vpp_process_def cmdline_path_fits)
    next
      case (Inr r)
      obtain e line where r: "r = (e, line)"
        by fastforce
      have "line = [] \<or> hd line \<noteq> CHR '' ''"
        using Cons.prems(1) Inr r by (cases line) (simp_all add: plain_proc_def)
      note short = truncated_vpp_cmdline [OF this]
      have vpp: "vpp_process fs x \<longleftrightarrow> vpp_cmdline line"
        using dir Inr r by (simp add: vpp_process_def)
      have empty: "line = [] \<Longrightarrow> \<not> vpp_cmdline line"
        by (simp add: vpp_cmdline_def strtok_space_def c_str_def)
      show ?thesis
        using dir Inr r len rest Cons.prems(2) vpp short empty
        by (auto simp: cmdline_path_fits Let_def sizeof_path_def split: option.split if_splits)
    qed
  qed
qed simp


text \<open>Entries that are no VPP processes are skipped; only \<open>errno\<close> may change.\<close>

lemma pid_loop_skip_one:
  assumes "length (d_name x) < DIRENT_NAME" "\<not> vpp_process fs x"
    and "case fopen_cmdline fs (proc_path (d_name x)) of
      Inl e \<Rightarrow> True | Inr (e, line) \<Rightarrow> (case line of [] \<Rightarrow> True | c # _ \<Rightarrow> c \<noteq> CHR '' '')"
  shows "\<exists>e. pid_loop fs (x # ds) errno = pid_loop fs ds e \<and>
    (e = errno \<or> e = 0 \<or> fopen_cmdline fs (proc_path (d_name x)) = Inl e \<or>
     (\<exists>line. fopen_cmdline fs (proc_path (d_name x)) = Inr (e, line)))"
proof (cases "d_name x \<notin> {''.'', ''..''} \<and> d_type_of x = DT_DIR")
  case dir: True
  show ?thesis
  proof (cases "fopen_cmdline fs (proc_path (d_name x))")
    case (Inl e)
    with dir assms(1) have "pid_loop fs (x # ds) errno = pid_loop fs ds e"
      by (simp add: cmdline_path_fits)
    with Inl show ?thesis
      by blast
  next
    case (Inr r)
    obtain e line where r: "r = (e, line)"
      by fastforce
    have "line = [] \<or> hd line \<noteq> CHR '' ''"
      using assms(3) Inr r by (cases line) simp_all
    from truncated_vpp_cmdline [OF this]
    have "strtok_space (take sizeof_path line) \<notin> {Some ''vpp'', Some VPP_FULL_PATH}"
      using assms(2) dir Inr r by (simp add: vpp_process_def)
    then show ?thesis
      using dir Inr r assms(1) by (auto simp: cmdline_path_fits Let_def split: option.split)
  qed
qed auto

lemma pid_loop_skip:
  assumes "plain_proc fs" "set ds \<subseteq> set (entries fs)" "\<forall>d \<in> set ds. \<not> vpp_process fs d"
  shows "\<exists>e. pid_loop fs (ds @ ds') errno = pid_loop fs ds' e \<and> (0 \<le> errno \<longrightarrow> positive_errnos fs \<longrightarrow> 0 \<le> e)"
  using assms(2,3)
proof (induction ds arbitrary: errno)
  case (Cons x xs)
  have "x \<in> set (entries fs)" "\<not> vpp_process fs x"
    using Cons.prems by auto
  with assms(1) obtain e where e: "pid_loop fs (x # xs @ ds') errno = pid_loop fs (xs @ ds') e"
    "e = errno \<or> e = 0 \<or> fopen_cmdline fs (proc_path (d_name x)) = Inl e \<or>
      (\<exists>line. fopen_cmdline fs (proc_path (d_name x)) = Inr (e, line))"
    using pid_loop_skip_one [of x fs "xs @ ds'" errno] unfolding plain_proc_def list_all_iff by blast
  have pos: "0 \<le> e" if "0 \<le> errno" "positive_errnos fs"
    using e(2) that(1) spec [OF that(2) [unfolded positive_errnos_def, THEN conjunct2], of "proc_path (d_name x)"]
    by (auto simp del: pid_loop.simps)
  have "set xs \<subseteq> set (entries fs)" "\<forall>d \<in> set xs. \<not> vpp_process fs d"
    using Cons.prems by auto
  from Cons.IH [OF this, of e] obtain e' where
    "pid_loop fs (xs @ ds') e = pid_loop fs ds' e'" "0 \<le> e \<longrightarrow> positive_errnos fs \<longrightarrow> 0 \<le> e'"
    by blast
  with e(1) pos have "pid_loop fs ((x # xs) @ ds') errno = pid_loop fs ds' e' \<and>
      (0 \<le> errno \<longrightarrow> positive_errnos fs \<longrightarrow> 0 \<le> e')"
    by (simp del: pid_loop.simps)
  then show ?case
    by blast
qed auto


section \<open>Properties\<close>

text \<open>
  (C31) \<open>get_vpp_pid\<close> selects the first directory of \<open>/proc\<close> whose command line names
  VPP: neither the truncation of the path nor that of the command line to thirteen
  characters changes the decision, whatever \<open>errno\<close> held on entry. What it returns is
  read from memory that \<open>closedir\<close> has freed: the result is undefined behaviour unless
  the freed memory can still be read, and it is the number of the process if that memory
  still holds the name of the directory.
\<close>

theorem get_vpp_pid_finds:
  assumes "opendir_errno fs = None" "plain_proc fs" "List.find (vpp_process fs) (entries fs) = Some d"
  shows "get_vpp_pid fs errno =
      (case after_close fs d of None \<Rightarrow> Undef UseAfterFree | Some t \<Rightarrow> atoi t) \<and>
    (after_close fs d = Some (d_name d) \<longrightarrow> d_name d = nat_to_dec n \<longrightarrow> n < 2 ^ 31 \<longrightarrow>
      get_vpp_pid fs errno = Val (int n))"
proof -
  have "get_vpp_pid fs errno = bindO (closed_name fs d) atoi"
    using assms pid_loop_find [where ds = "entries fs" and errno = errno] by (simp add: get_vpp_pid_def)
  then show ?thesis
    by (simp add: closed_name_def atoi_nat_to_dec split: option.split)
qed

definition sample_proc :: "(string \<times> string) list \<Rightarrow> proc_fs" where
  "sample_proc ps = \<lparr>
     opendir_errno = None,
     entries = [\<lparr>d_name = ''.'', d_type_of = DT_DIR\<rparr>, \<lparr>d_name = ''..'', d_type_of = DT_DIR\<rparr>] @
       map (\<lambda>(n, c). \<lparr>d_name = n, d_type_of = DT_DIR\<rparr>) ps @ [\<lparr>d_name = ''sys'', d_type_of = DT_DIR\<rparr>],
     readdir_errno = 0,
     fopen_cmdline = (\<lambda>p. case List.find (\<lambda>(n, c). p = proc_path n) ps of
        None \<Rightarrow> Inl 2 | Some (n, c) \<Rightarrow> Inr (0, c)),
     after_close = (\<lambda>d. Some (d_name d))\<rparr>"

theorem get_vpp_pid_finds_witness:
  "get_vpp_pid (sample_proc [(''1'', ''/sbin/init''), (''42'', ''/usr/bin/vpp -c /etc/vpp/startup.conf'')]) 0 = Val 42 \<and>
   get_vpp_pid ((sample_proc [(''42'', ''vpp'')])\<lparr>after_close := (\<lambda>d. None)\<rparr>) 0 = Undef UseAfterFree"
proof -
  let ?fs = "sample_proc [(''1'', ''/sbin/init''), (''42'', ''/usr/bin/vpp -c /etc/vpp/startup.conf'')]"
  let ?freed = "(sample_proc [(''42'', ''vpp'')])\<lparr>after_close := (\<lambda>d. None)\<rparr>"
  let ?d = "\<lparr>d_name = ''42'', d_type_of = DT_DIR\<rparr>"
  have "plain_proc ?fs" "plain_proc ?freed"
    by code_simp+
  moreover have "List.find (vpp_process ?fs) (entries ?fs) = Some ?d"
    "List.find (vpp_process ?freed) (entries ?freed) = Some ?d"
    by code_simp+
  moreover have "''42'' = nat_to_dec 42"
    by code_simp
  moreover have "opendir_errno ?fs = None" "opendir_errno ?freed = None"
    "after_close ?fs ?d = Some ''42''" "after_close ?freed ?d = None"
    by (simp_all add: sample_proc_def)
  ultimately show ?thesis
    using get_vpp_pid_finds [of ?fs ?d 0 42] get_vpp_pid_finds [of ?freed ?d 0 0]
    by (simp add: atoi_nat_to_dec)
qed

text \<open>
  Without a VPP process, the documented result \<open>- ESRCH\<close> is given up for a left-over
  error: if the last entry of \<open>/proc\<close> is a directory whose \<open>cmdline\<close> cannot be opened,
  as are the directories behind the processes, \<open>get_vpp_pid\<close> reports that \<open>errno\<close>
  although \<open>readdir\<close> did not fail.
\<close>

lemma get_vpp_pid_stale_errno:
  assumes "opendir_errno fs = None" "plain_proc fs" "\<forall>d \<in> set (entries fs). \<not> vpp_process fs d"
    and "entries fs = ds @ [d]" "d_type_of d = DT_DIR" "d_name d \<notin> {''.'', ''..''}"
    and "fopen_cmdline fs (proc_path (d_name d)) = Inl e" "e \<noteq> 0" "readdir_errno fs = 0"
  shows "get_vpp_pid fs errno = Val (- e)"
proof -
  have "set ds \<subseteq> set (entries fs)" "\<forall>d \<in> set ds. \<not> vpp_process fs d"
    using assms(3,4) by auto
  from pid_loop_skip [OF assms(2) this, of "[d]" errno]
  obtain e' where "pid_loop fs (ds @ [d]) errno = pid_loop fs [d] e'"
    by blast
  moreover have "length (d_name d) < DIRENT_NAME"
    using assms(2,4) by (simp add: plain_proc_def)
  ultimately show ?thesis
    using assms by (simp add: get_vpp_pid_def cmdline_path_fits)
qed

text \<open>
  Without a VPP process the result is always negative, so the callers see that VPP is
  down, provided error numbers are positive.
\<close>

lemma get_vpp_pid_none_negative:
  assumes "plain_proc fs" "\<forall>d \<in> set (entries fs). \<not> vpp_process fs d" "0 \<le> errno" "positive_errnos fs"
  shows "\<exists>r < 0. get_vpp_pid fs errno = Val r"
proof -
  obtain e where e: "pid_loop fs (entries fs @ []) errno = pid_loop fs [] e" "0 \<le> e"
    using pid_loop_skip [OF assms(1) subset_refl assms(2), of "[]" errno] assms(3,4) by blast
  then have "\<exists>r < 0. pid_loop fs (entries fs) errno = Val r"
    using assms(4) by (auto simp: ESRCH_def positive_errnos_def Let_def)
  then show ?thesis
    using assms(4) by (cases "opendir_errno fs") (auto simp: get_vpp_pid_def positive_errnos_def)
qed

end
