(* ===== verification/Sc_Plugins.thy ===== *)
theory Sc_Plugins
  imports Subscriptions Vpp_Pid
begin

text \<open>
  The entry points of \<open>src/plugins/sc_plugins.c\<close> that sysrepo's plugin daemon calls:
  initialisation, cleanup and the health check that replays the configuration after a
  restart of VPP.
\<close>

section \<open>Parameters and state\<close>

text \<open>
  The functions of VOM's \<open>HW\<close> and \<open>OM\<close> and \<open>sr_unsubscribe\<close>, over the state \<open>'s\<close> of
  the libraries, VPP and the system; \<open>None\<close> is the normal end of \<open>OM::populate\<close>.
  \<open>proc\<close> and \<open>errno_now\<close> are what \<open>get_vpp_pid\<close> finds in that state.
\<close>

record ('s, 'sess, 'sub) hw_api =
  HW_init :: "'s \<Rightarrow> 's"
  OM_init :: "'s \<Rightarrow> 's"
  HW_connect :: "'s \<Rightarrow> bool \<times> 's"
  HW_disconnect :: "'s \<Rightarrow> 's"
  OM_populate :: "string \<Rightarrow> 's \<Rightarrow> exn option \<times> 's"
  OM_replay :: "'s \<Rightarrow> 's"
  sr_unsubscribe :: "'sess option \<Rightarrow> 'sub \<Rightarrow> 's \<Rightarrow> 's"
  proc :: "'s \<Rightarrow> proc_fs"
  errno_now :: "'s \<Rightarrow> int"

text \<open>The static variables of the file, with the state of the libraries.\<close>

record ('s, 'sess, 'sub) plugin_state =
  sc_plugin_main :: "(plugin, ('sess, 'sub) plugin_ctx) sc_plugin_main_t"
  vpp_pid_start :: int
  vom_state :: 's

text \<open>\<open>while (HW::connect() != true);\<close> does not end as long as VPP is down.\<close>

partial_function (option) connect_loop :: "('s, 'sess, 'sub) hw_api \<Rightarrow> 's \<Rightarrow> 's option" where
  "connect_loop hw s = (case HW_connect hw s of (ok, s') \<Rightarrow> if ok then Some s' else connect_loop hw s')"


section \<open>sr\_plugin\_init\_cb\<close>

text \<open>
  The result code, the content of \<open>*private_ctx\<close> where it was written, and the new state.
  The outer option is \<open>None\<close> where the function does not return.
\<close>

definition sr_plugin_init_cb ::
    "('s, 'sess, 'sub) hw_api \<Rightarrow> ('sess, 'sub) subscriber \<Rightarrow> 'sess option \<Rightarrow> ('s, 'sess, 'sub) plugin_state \<Rightarrow>
     (sr_error \<times> 'sub option option \<times> ('s, 'sess, 'sub) plugin_state) outcome option" where
  "sr_plugin_init_cb hw subscribe se ps =
     (let pm = (sc_plugin_main ps)\<lparr>ctx := (ctx (sc_plugin_main ps))\<lparr>pm_session := se\<rparr>\<rparr> in
      case connect_loop hw (OM_init hw (HW_init hw (vom_state ps))) of
        None \<Rightarrow> None
      | Some s \<Rightarrow>
          (case OM_populate hw ''boot'' s of
             (Some exc, s') \<Rightarrow> Some (Exit 1)
           | (None, s') \<Rightarrow>
               (case sc_call_all_init_function (run_init subscribe) pm of
                  None \<Rightarrow> None
                | Some (rc, pm') \<Rightarrow>
                    (let ps' = ps\<lparr>sc_plugin_main := pm', vom_state := s'\<rparr> in
                     if rc \<noteq> SR_ERR_OK then Some (Val (rc, None, ps'))
                     else Some (bindO (get_vpp_pid (proc hw s') (errno_now hw s')) (\<lambda>pid.
                       (let ps'' = ps'\<lparr>vpp_pid_start := pid\<rparr>;
                            private_ctx = Some (pm_subscription (ctx pm')) in
                        if pid < 0 then Val (SR_ERR_DISCONNECT, private_ctx, ps'')
                        else Val (SR_ERR_OK, private_ctx, ps''))))))))"


section \<open>sr\_plugin\_cleanup\_cb\<close>

definition sr_plugin_cleanup_cb ::
    "('s, 'sess, 'sub) hw_api \<Rightarrow> 'sess option \<Rightarrow> 'sub option \<Rightarrow> ('s, 'sess, 'sub) plugin_state \<Rightarrow>
     ('s, 'sess, 'sub) plugin_state option" where
  "sr_plugin_cleanup_cb hw se private_ctx ps =
     (case sc_call_all_exit_function run_exit (sc_plugin_main ps) of
        None \<Rightarrow> None
      | Some pm \<Rightarrow>
          (let s = (case private_ctx of None \<Rightarrow> vom_state ps | Some sub \<Rightarrow> sr_unsubscribe hw se sub (vom_state ps))
           in Some (ps\<lparr>sc_plugin_main := pm, vom_state := HW_disconnect hw s\<rparr>)))"


section \<open>sr\_plugin\_health\_check\_cb\<close>

definition sr_plugin_health_check_cb ::
    "('s, 'sess, 'sub) hw_api \<Rightarrow> ('s, 'sess, 'sub) plugin_state \<Rightarrow>
     (sr_error \<times> ('s, 'sess, 'sub) plugin_state) outcome option" where
  "sr_plugin_health_check_cb hw ps =
     (let s = vom_state ps in
      case get_vpp_pid (proc hw s) (errno_now hw s) of
        Val vpp_pid_now \<Rightarrow>
          if vpp_pid_now = vpp_pid_start ps then Some (Val (SR_ERR_OK, ps))
          else (case connect_loop hw (HW_disconnect hw s) of
            None \<Rightarrow> None
          | Some s' \<Rightarrow>
              Some (Val (SR_ERR_OK, ps\<lparr>vom_state := OM_replay hw s', vpp_pid_start := vpp_pid_now\<rparr>)))
      | Throw e \<Rightarrow> Some (Throw e)
      | Exit n \<Rightarrow> Some (Exit n)
      | Undef u \<Rightarrow> Some (Undef u))"


section \<open>The connection loop\<close>

text \<open>The attempts as a sequence of states.\<close>

fun attempts :: "('s, 'sess, 'sub) hw_api \<Rightarrow> nat \<Rightarrow> 's \<Rightarrow> 's" where
  "attempts hw 0 s = s"
| "attempts hw (Suc n) s = attempts hw n (snd (HW_connect hw s))"

lemma connect_loop_step:
  "connect_loop hw s =
     (if fst (HW_connect hw s) then Some (snd (HW_connect hw s)) else connect_loop hw (snd (HW_connect hw s)))"
  by (subst connect_loop.simps) (simp add: case_prod_unfold)

lemma connect_loop_returns:
  "\<forall>k < n. \<not> fst (HW_connect hw (attempts hw k s)) \<Longrightarrow> fst (HW_connect hw (attempts hw n s)) \<Longrightarrow>
    connect_loop hw s = Some (attempts hw (Suc n) s)"
proof (induction n arbitrary: s)
  case 0
  then show ?case
    by (subst connect_loop_step) simp
next
  case (Suc n)
  have "\<not> fst (HW_connect hw s)"
    using Suc.prems(1) [rule_format, of 0] by simp
  moreover have "\<not> fst (HW_connect hw (attempts hw k (snd (HW_connect hw s))))" if "k < n" for k
    using Suc.prems(1) [rule_format, of "Suc k"] that by simp
  ultimately show ?case
    using Suc.IH [of "snd (HW_connect hw s)"] Suc.prems(2) by (subst connect_loop_step) simp
qed

lemma connect_loop_attempt:
  "connect_loop hw s = Some s' \<Longrightarrow> \<exists>k. fst (HW_connect hw (attempts hw k s))"
proof (erule connect_loop.raw_induct [rotated 1])
  fix rec hw s s'
  assume IH: "\<And>hw s s'. rec hw s = Some s' \<Longrightarrow> \<exists>k. fst (HW_connect hw (attempts hw k s))"
    and body: "(case HW_connect hw s of (ok, s') \<Rightarrow> if ok then Some s' else rec hw s') = Some s'"
  show "\<exists>k. fst (HW_connect hw (attempts hw k s))"
  proof (cases "fst (HW_connect hw s)")
    case True
    then show ?thesis
      by (intro exI [of _ 0]) simp
  next
    case False
    then have "rec hw (snd (HW_connect hw s)) = Some s'"
      using body by (simp add: case_prod_unfold)
    from IH [OF this] obtain k where "fst (HW_connect hw (attempts hw k (snd (HW_connect hw s))))" ..
    then show ?thesis
      by (intro exI [of _ "Suc k"]) simp
  qed
qed

lemma connect_loop_diverges:
  "\<forall>k. \<not> fst (HW_connect hw (attempts hw k s)) \<Longrightarrow> connect_loop hw s = None"
  by (cases "connect_loop hw s") (auto dest: connect_loop_attempt)


section \<open>Initialisation\<close>

text \<open>Calling the registered init functions for the first time makes all subscriptions.\<close>

lemma call_all_init_subscribes:
  assumes "init_members pm fs" "\<forall>f \<in> set fs. \<not> called_of (init_function_registrations pm) f"
  shows "\<exists>pm'. sc_call_all_init_function (run_init subscribe) pm =
      Some (fst (subscribe_seq subscribe (concat (map requests_of fs)) (ctx pm)), pm') \<and>
    ctx pm' = snd (subscribe_seq subscribe (concat (map requests_of fs)) (ctx pm))"
proof -
  have "distinct fs"
    using assms(1) by (simp add: registered_def)
  from run_list_subscribe_seq [OF this assms(2), of subscribe "ctx pm", symmetric] show ?thesis
    unfolding sc_call_all_init_run_list [OF assms(1)] by (auto split: prod.splits)
qed


section \<open>Concrete inputs\<close>

text \<open>
  A system state that counts attempts and replays: VPP runs with a pid (0: it is down) and
  comes back as the next pid at the third attempt to connect.
\<close>

record sample_sys =
  running :: nat
  tries :: nat
  replays :: nat

definition sample_hw :: "(sample_sys, unit, request list) hw_api" where
  "sample_hw = \<lparr>
     HW_init = (\<lambda>s. s), OM_init = (\<lambda>s. s),
     HW_connect = (\<lambda>s. if 2 \<le> tries s then (True, s\<lparr>running := 43\<rparr>) else (False, s\<lparr>tries := tries s + 1\<rparr>)),
     HW_disconnect = (\<lambda>s. s),
     OM_populate = (\<lambda>n s. (None, s)),
     OM_replay = (\<lambda>s. s\<lparr>replays := replays s + 1\<rparr>),
     sr_unsubscribe = (\<lambda>se sub s. s),
     proc = (\<lambda>s. sample_proc (if running s = 0 then [] else [(nat_to_dec (running s), ''vpp -c x'')])),
     errno_now = (\<lambda>s. 0)\<rparr>"

definition sample_state :: "nat \<Rightarrow> int \<Rightarrow> (sample_sys, unit, request list) plugin_state" where
  "sample_state p start =
     \<lparr>sc_plugin_main = fold sc_add_init_function [Ietf_nat, Openconfig_interface]
        (fresh_main \<lparr>pm_session = None, pm_subscription = None\<rparr>),
      vpp_pid_start = start, vom_state = \<lparr>running = p, tries = 0, replays = 0\<rparr>\<rparr>"

definition sample_subscriber :: "(unit, request list) subscriber" where
  "sample_subscriber q se sub = (SR_ERR_OK, Some (case sub of None \<Rightarrow> [q] | Some qs \<Rightarrow> qs @ [q]))"

lemma sample_connect: "connect_loop sample_hw \<lparr>running = p, tries = 0, replays = r\<rparr> =
    Some \<lparr>running = 43, tries = 2, replays = r\<rparr>"
  by (subst connect_loop_step, subst connect_loop_step, subst connect_loop_step) (simp add: sample_hw_def)

lemma sample_connect_again: "connect_loop sample_hw \<lparr>running = p, tries = 2, replays = r\<rparr> =
    Some \<lparr>running = 43, tries = 2, replays = r\<rparr>"
  by (subst connect_loop_step) (simp add: sample_hw_def)


section \<open>Properties\<close>

text \<open>
  (C32) The connection loop returns exactly if some attempt succeeds, and then in the state
  after the first successful attempt; otherwise it runs forever.
\<close>

theorem connect_loop_first_success:
  "connect_loop hw s =
     (if \<exists>k. fst (HW_connect hw (attempts hw k s))
      then Some (attempts hw (Suc (LEAST k. fst (HW_connect hw (attempts hw k s)))) s)
      else None)"
proof (cases "\<exists>k. fst (HW_connect hw (attempts hw k s))")
  case True
  let ?n = "LEAST k. fst (HW_connect hw (attempts hw k s))"
  have "fst (HW_connect hw (attempts hw ?n s))"
    using True by (rule LeastI_ex)
  moreover have "\<forall>k < ?n. \<not> fst (HW_connect hw (attempts hw k s))"
    using not_less_Least by blast
  ultimately show ?thesis
    using True by (simp only: connect_loop_returns if_True)
qed (simp add: connect_loop_diverges)

text \<open>
  (C16) Initialisation, once VPP accepts the connection: if the database cannot be
  populated the process exits with status 1; otherwise the registered plugins subscribe in
  list order, the first failing subscription ends the initialisation with its code and an
  unwritten private context, and on success the private context is the subscription
  context and the start pid is stored, with \<open>SR_ERR_DISCONNECT\<close> if no VPP process exists.
\<close>

theorem plugin_init_cases:
  assumes "init_members (sc_plugin_main ps) fs"
    and "\<forall>f \<in> set fs. \<not> called_of (init_function_registrations (sc_plugin_main ps)) f"
    and "connect_loop hw (OM_init hw (HW_init hw (vom_state ps))) = Some s"
    and "subscribe_seq subscribe (concat (map requests_of fs)) ((ctx (sc_plugin_main ps))\<lparr>pm_session := se\<rparr>) = (rc, c)"
    and "OM_populate hw ''boot'' s = (exc, s')"
    and "get_vpp_pid (proc hw s') (errno_now hw s') = Val pid"
  shows "\<exists>pm'. ctx pm' = c \<and>
    sr_plugin_init_cb hw subscribe se ps =
    (if exc \<noteq> None then Some (Exit 1)
     else if rc \<noteq> SR_ERR_OK then Some (Val (rc, None, ps\<lparr>sc_plugin_main := pm', vom_state := s'\<rparr>))
     else Some (Val (if pid < 0 then SR_ERR_DISCONNECT else SR_ERR_OK, Some (pm_subscription c),
       ps\<lparr>sc_plugin_main := pm', vpp_pid_start := pid, vom_state := s'\<rparr>)))"
proof -
  let ?pm = "(sc_plugin_main ps)\<lparr>ctx := (ctx (sc_plugin_main ps))\<lparr>pm_session := se\<rparr>\<rparr>"
  have "init_members ?pm fs" "\<forall>f \<in> set fs. \<not> called_of (init_function_registrations ?pm) f"
    using assms(1,2) by simp_all
  from call_all_init_subscribes [OF this, of subscribe] assms(4) obtain pm' where
    "sc_call_all_init_function (run_init subscribe) ?pm = Some (rc, pm')" "ctx pm' = c"
    by auto
  with assms(3,5,6) show ?thesis
    by (intro exI [of _ pm']) (simp add: sr_plugin_init_cb_def Let_def split: option.split)
qed

theorem plugin_init_cases_witness:
  "\<exists>ps'. sr_plugin_init_cb sample_hw sample_subscriber (Some ()) (sample_state 43 0) =
    Some (Val (SR_ERR_OK, Some (Some (openconfig_interface_requests @ ietf_nat_requests)), ps')) \<and>
    vpp_pid_start ps' = 43"
proof -
  let ?ps = "sample_state 43 0"
  let ?s = "\<lparr>running = 43, tries = 2, replays = 0\<rparr>"
  have m: "init_members (sc_plugin_main ?ps) [Openconfig_interface, Ietf_nat]"
    using init_list.add_all [of "fresh_main \<lparr>pm_session = None, pm_subscription = None\<rparr>" "[]"
        "[Ietf_nat, Openconfig_interface]"] by (simp add: sample_state_def)
  have fl: "\<forall>f \<in> set [Openconfig_interface, Ietf_nat]. \<not> called_of (init_function_registrations (sc_plugin_main ?ps)) f"
    by (simp add: sample_state_def sc_add_init_function_def sc_add_def fresh_main_def Let_def)
  have con: "connect_loop sample_hw (OM_init sample_hw (HW_init sample_hw (vom_state ?ps))) = Some ?s"
    using sample_connect [of 43 0] by (simp add: sample_hw_def sample_state_def)
  have sub: "subscribe_seq sample_subscriber (concat (map requests_of [Openconfig_interface, Ietf_nat]))
      ((ctx (sc_plugin_main ?ps))\<lparr>pm_session := Some ()\<rparr>) =
    (SR_ERR_OK, \<lparr>pm_session = Some (), pm_subscription = Some (openconfig_interface_requests @ ietf_nat_requests)\<rparr>)"
    by (simp add: sample_state_def sample_subscriber_def fresh_main_def sc_add_init_function_def
        openconfig_interface_requests_def ietf_nat_requests_def Let_def)
  have pop: "OM_populate sample_hw ''boot'' ?s = (None, ?s)"
    by (simp add: sample_hw_def)
  have pid: "get_vpp_pid (proc sample_hw ?s) (errno_now sample_hw ?s) = Val 43"
    by code_simp
  from plugin_init_cases [OF m fl con sub pop pid] show ?thesis
    by auto
qed

text \<open>
  The health check: an unchanged pid changes nothing; a changed one makes the check
  disconnect, wait for the connection, replay the configuration exactly once and store the
  pid it saw; if VPP never comes back, it does not return.
\<close>

lemma health_check_cases:
  assumes "get_vpp_pid (proc hw (vom_state ps)) (errno_now hw (vom_state ps)) = Val pid"
  shows "sr_plugin_health_check_cb hw ps =
    (if pid = vpp_pid_start ps then Some (Val (SR_ERR_OK, ps))
     else map_option (\<lambda>s. Val (SR_ERR_OK, ps\<lparr>vpp_pid_start := pid, vom_state := OM_replay hw s\<rparr>))
       (connect_loop hw (HW_disconnect hw (vom_state ps))))"
  using assms by (simp add: sr_plugin_health_check_cb_def Let_def split: option.split)

text \<open>
  (C36) The stored pid is the one read before the reconnection. If VPP was down at that
  moment and is back with another pid after the replay, the next check finds the pids
  different again, disconnects and replays the configuration a second time, although VPP
  did not crash in between.
\<close>

theorem health_check_replays_twice:
  assumes "get_vpp_pid (proc hw (vom_state ps)) (errno_now hw (vom_state ps)) = Val r" "r \<noteq> vpp_pid_start ps"
    and "connect_loop hw (HW_disconnect hw (vom_state ps)) = Some s1"
    and "get_vpp_pid (proc hw (OM_replay hw s1)) (errno_now hw (OM_replay hw s1)) = Val p" "p \<noteq> r"
    and "connect_loop hw (HW_disconnect hw (OM_replay hw s1)) = Some s2"
  shows "\<exists>ps1. sr_plugin_health_check_cb hw ps = Some (Val (SR_ERR_OK, ps1)) \<and>
    sr_plugin_health_check_cb hw ps1 =
      Some (Val (SR_ERR_OK, ps\<lparr>vpp_pid_start := p, vom_state := OM_replay hw s2\<rparr>))"
  using assms by (simp add: sr_plugin_health_check_cb_def Let_def)

theorem health_check_replays_twice_witness:
  "\<exists>ps1 ps2. sr_plugin_health_check_cb sample_hw (sample_state 0 42) = Some (Val (SR_ERR_OK, ps1)) \<and>
    sr_plugin_health_check_cb sample_hw ps1 = Some (Val (SR_ERR_OK, ps2)) \<and>
    replays (vom_state ps2) = 2 \<and> vpp_pid_start ps2 = 43"
proof -
  let ?ps = "sample_state 0 42"
  let ?s1 = "\<lparr>running = 43, tries = 2, replays = 0\<rparr>"
  let ?s2 = "\<lparr>running = 43, tries = 2, replays = 1\<rparr>"
  have p1: "get_vpp_pid (proc sample_hw (vom_state ?ps)) (errno_now sample_hw (vom_state ?ps)) = Val (- 2)"
    by code_simp
  have c1: "connect_loop sample_hw (HW_disconnect sample_hw (vom_state ?ps)) = Some ?s1"
    using sample_connect [of 0 0] by (simp add: sample_hw_def sample_state_def)
  have p2: "get_vpp_pid (proc sample_hw (OM_replay sample_hw ?s1)) (errno_now sample_hw (OM_replay sample_hw ?s1)) = Val 43"
    by code_simp
  have c2: "connect_loop sample_hw (HW_disconnect sample_hw (OM_replay sample_hw ?s1)) = Some ?s2"
    using sample_connect_again [of 43 1] by (simp add: sample_hw_def)
  have ne: "(- 2 :: int) \<noteq> vpp_pid_start ?ps" "(43 :: int) \<noteq> - 2"
    by (simp_all add: sample_state_def)
  have "replays (OM_replay sample_hw ?s2) = 2"
    by (simp add: sample_hw_def)
  with health_check_replays_twice [OF p1 ne(1) c1 p2 ne(2) c2] show ?thesis
    by auto
qed

text \<open>
  Cleanup on a well-formed exit list always returns: the subscription is given back
  exactly if a private context was set, and VPP is disconnected afterwards.
\<close>

lemma plugin_cleanup:
  assumes "exit_members (sc_plugin_main ps) fs"
  shows "\<exists>ps'. sr_plugin_cleanup_cb hw se private_ctx ps = Some ps' \<and>
    ctx (sc_plugin_main ps') = ctx (sc_plugin_main ps) \<and>
    vom_state ps' = HW_disconnect hw
      (case private_ctx of None \<Rightarrow> vom_state ps | Some sub \<Rightarrow> sr_unsubscribe hw se sub (vom_state ps)) \<and>
    list_all (called_of (exit_function_registrations (sc_plugin_main ps'))) fs"
proof -
  have "distinct fs"
    using assms by (simp add: registered_def)
  then show ?thesis
    by (simp add: sr_plugin_cleanup_cb_def sc_call_all_exit_run_list [OF assms] run_list_exit fold_ignore Let_def list_all_iff)
qed

end
