(* ===== verification/Vom_Calls.thy ===== *)
theory Vom_Calls
  imports System
begin

text \<open>
  What the configuration callbacks do to VOM and VPP: nothing but a sequence of calls of
  VOM's functions. Any property that each single call keeps is therefore kept by every
  callback, on all of its paths.
\<close>

section \<open>Sequences of calls\<close>

inductive vom_call :: "('s, 'i, 'p, 'a) vom_api \<Rightarrow> 's \<Rightarrow> 's \<Rightarrow> bool" for vom where
  make: "vom_call vom s (snd (make_interface vom n t b s))"
| set: "vom_call vom s (interface_set vom i b s)"
| write_interface: "vom_call vom s (snd (om_write_interface vom key i s))"
| write_l3: "vom_call vom s (snd (om_write_l3 vom key i p s))"
| write_nat: "vom_call vom s (snd (om_write_nat vom key x y s))"
| remove: "vom_call vom s (om_remove vom key s)"

abbreviation vom_calls :: "('s, 'i, 'p, 'a) vom_api \<Rightarrow> 's \<Rightarrow> 's \<Rightarrow> bool" where
  "vom_calls vom \<equiv> (vom_call vom)\<^sup>*\<^sup>*"

lemma one_call [simp]:
  "vom_calls vom s (snd (make_interface vom n t b s))" "vom_calls vom s (interface_set vom i b s)"
  "vom_calls vom s (snd (om_write_interface vom key i s))" "vom_calls vom s (snd (om_write_l3 vom key i p s))"
  "vom_calls vom s (snd (om_write_nat vom key x y s))" "vom_calls vom s (om_remove vom key s)"
  by (rule r_into_rtranclp, rule vom_call.intros)+


section \<open>The interface callbacks\<close>

abbreviation intf_calls :: "('s, 'i, 'p, 'a) vom_api \<Rightarrow> ('s, 'i) intf_locals \<Rightarrow> ('s, 'i) intf_locals \<Rightarrow> bool" where
  "intf_calls vom l m \<equiv> vom_calls vom (db l) (db m)"

lemma intf_branch_calls:
  "intf_created api v l = Val f \<Longrightarrow> intf_calls vom l (flow_state f)"
  "intf_modified api vom v l = Val f \<Longrightarrow> intf_calls vom l (flow_state f)"
  "intf_deleted api v l = Val f \<Longrightarrow> intf_calls vom l (flow_state f)"
  by (auto simp: intf_created_def intf_modified_def intf_deleted_def outcome_simps
      simp del: string_val.simps bool_val.simps split: if_splits option.splits)

interpretation ietf_calls: change_body "ietf_create_step api vom" "\<lambda>c. True" "intf_calls vom" for api vom
proof unfold_locales
  fix c l f
  assume "ietf_create_step api vom c l = Val f"
  then show "intf_calls vom l (flow_state f)"
    by (cases "oper c") (auto simp: ietf_create_step_def outcome_simps intro: intf_branch_calls)
qed auto

interpretation oc_calls: change_body "oc_config_step api vom" "\<lambda>c. True" "intf_calls vom" for api vom
proof unfold_locales
  fix c l f
  assume "oc_config_step api vom c l = Val f"
  then show "intf_calls vom l (flow_state f)"
    by (cases "oper c") (auto simp: oc_config_step_def outcome_simps split: if_splits intro: intf_branch_calls)
qed auto

lemma intf_finish_calls:
  assumes "intf_finish vom vals l = Val (rc, s')"
  shows "vom_calls vom (db l) s'"
proof -
  have built: "vom_calls vom (db l) t" if "build vom (builder l) (db l) = Val (i, t)" for i t
    using that one_call(1) [of vom "db l"] by (auto simp: build_def outcome_simps case_prod_unfold split: if_splits)
  obtain c where c: "create l = Some c"
    using assms by (auto simp: intf_finish_def outcome_simps)
  show ?thesis
  proof (cases c)
    case True
    with c intf_finish_created [OF assms] show ?thesis
      by (auto intro: built rtranclp_trans [OF _ one_call(3)])
  next
    case False
    with c intf_finish_not_created [OF assms] show ?thesis
      by (auto intro: one_call)
  qed
qed

lemma intf_run_calls:
  assumes "intf_run step vom mem ds SR_EV_VERIFY cs s = Val (rc, s')"
    and "\<And>f. walk_changes step cs (intf_start mem s) = Val f \<Longrightarrow> intf_calls vom (intf_start mem s) (flow_state f)"
  shows "vom_calls vom s s'"
proof -
  obtain f where f: "walk_changes step cs (intf_start mem s) = Val f"
    and r: "(case f of Leave rc l \<Rightarrow> Val (rc, db l) | Next l \<Rightarrow> intf_finish vom (vals_after_loop ds cs) l) = Val (rc, s')"
    using assms(1) by (auto simp: intf_run_def outcome_simps)
  have "vom_calls vom s (db (flow_state f))"
    using assms(2) [OF f] by (simp add: intf_start_db)
  with r show ?thesis
    by (cases f) (auto dest: intf_finish_calls)
qed

lemma ietf_interface_calls:
  assumes "ietf_interface_create_cb api vom mem ds xp event s = Val (rc, s')"
  shows "vom_calls vom s s'"
proof (cases "event = SR_EV_VERIFY \<and> fst (sr_get_changes_iter ds xp) = SR_ERR_OK")
  case True
  then have "intf_run (ietf_create_step api vom) vom mem ds SR_EV_VERIFY (snd (sr_get_changes_iter ds xp)) s = Val (rc, s')"
    using assms by (simp add: ietf_interface_create_cb_def split: prod.splits)
  then show ?thesis
    by (rule intf_run_calls) (auto dest: ietf_calls.walk_keeps)
next
  case False
  with assms show ?thesis
    by (auto simp: ietf_interface_create_cb_def split: prod.splits if_splits)
qed

lemma openconfig_calls:
  assumes "oc_interfaces_config_cb api vom mem (Some ds) (Some xp) event s = Val (rc, s')"
  shows "vom_calls vom s s'"
proof (cases "event = SR_EV_VERIFY \<and> fst (sr_get_changes_iter ds xp) = SR_ERR_OK")
  case True
  then have "intf_run (oc_config_step api vom) vom mem ds SR_EV_VERIFY (snd (sr_get_changes_iter ds xp)) s = Val (rc, s')"
    using assms by (simp add: oc_interfaces_config_cb_def split: prod.splits)
  then show ?thesis
    by (rule intf_run_calls) (auto dest: oc_calls.walk_keeps)
next
  case False
  with assms show ?thesis
    by (auto simp: oc_interfaces_config_cb_def split: prod.splits if_splits)
qed


section \<open>The address and the mapping callback\<close>

lemma ipv46_config_calls: "vom_calls vom s (snd (ipv46_config_add_remove vom n a p add s))"
proof -
  have "vom_calls vom s s'" if "om_write_l3 vom k i pfx s = (r, s')" for k i pfx r s'
    using one_call(4) [of vom s k i pfx] that by simp
  then show ?thesis
    by (auto simp: ipv46_config_add_remove_def Let_def intro: one_call
        split: option.split sum.split prod.split rc_t.split)
qed

lemma addr_apply_calls: "vom_calls vom (addr_db l) (addr_db (addr_apply vom n l))"
  by (auto simp: addr_apply_def Let_def case_prod_unfold intro: ipv46_config_calls rtranclp_trans)

interpretation addr_calls: change_body "addr_step order api net vom" "\<lambda>c. True"
  "\<lambda>l m. vom_calls vom (addr_db l) (addr_db m)" for order api net vom
proof unfold_locales
  fix c l f
  assume "addr_step order api net vom c l = Val f"
  then have "addr_db (flow_state f) = addr_db l \<or>
      (\<exists>n l'. addr_db l = addr_db l' \<and> f = Next (addr_apply vom n l'))"
    by (auto simp: addr_step_def outcome_simps split: if_splits dest: addr_switch_db [symmetric])
  then show "vom_calls vom (addr_db l) (addr_db (flow_state f))"
    using addr_apply_calls by fastforce
qed auto

lemma ietf_address_calls:
  assumes "ietf_interface_ipv46_address_change_cb order api net vom ds xp event s = Val (rc, s')"
  shows "vom_calls vom s s'"
proof (cases "event = SR_EV_APPLY \<or> fst (sr_get_changes_iter ds xp) \<noteq> SR_ERR_OK")
  case True
  with assms show ?thesis
    by (auto simp: ietf_interface_ipv46_address_change_cb_def split: prod.splits if_splits)
next
  case False
  with assms obtain f where f:
    "foreach_change event (addr_step order api net vom) (snd (sr_get_changes_iter ds xp)) (addr_start s) = Val f"
    and r: "(case f of Leave rc l \<Rightarrow> Val (rc, addr_db l) | Next l \<Rightarrow> Val (op_rc l, addr_db l)) = Val (rc, s')"
    by (auto simp: ietf_interface_ipv46_address_change_cb_def outcome_simps split: prod.splits)
  have "addr_db (flow_state f) = s'"
    using r by (cases f) simp_all
  with addr_calls.foreach_keeps [OF f] show ?thesis
    by (simp add: addr_start_def)
qed

lemma nat_finish_calls:
  assumes "nat_finish net vom vals l st = Val (rc, st')"
  shows "vom_calls vom (fst st) (fst st')"
proof -
  obtain c where c: "nat_create l = Some c"
    using assms by (auto simp: nat_finish_def outcome_simps)
  show ?thesis
  proof (cases c)
    case True
    with c assms obtain r b where b: "nat_build net (nat_builder l) = Val (r, b)"
      by (auto simp: nat_finish_def outcome_simps)
    show ?thesis
    proof (cases r)
      case None
      with True c b assms show ?thesis
        by (auto simp: nat_finish_def nat_error_def outcome_simps)
    next
      case (Some io)
      with True c b assms obtain x where x: "xindex l = Some x"
        by (cases io) (auto simp: nat_finish_def outcome_simps)
      obtain w s where w: "om_write_nat vom (nat_key x) (fst io) (snd io) (fst st) = (w, s)"
        by fastforce
      with True c b Some x assms have "fst st' = s"
        by (cases io; cases w) (auto simp: nat_finish_def nat_error_def outcome_simps)
      with w show ?thesis
        by (metis one_call(5) snd_conv)
    qed
  next
    case False
    with c assms show ?thesis
      by (auto simp: nat_finish_def outcome_simps split: if_splits)
  qed
qed

lemma nat_mapping_calls:
  assumes "nat_mapping_table_config_cb api net vom mem ds xp event st = Val (rc, st')"
  shows "vom_calls vom (fst st) (fst st')"
proof (cases "\<exists>d x. ds = Some d \<and> xp = Some x \<and> event = SR_EV_VERIFY \<and> fst (sr_get_changes_iter d x) = SR_ERR_OK")
  case False
  then have "st' = st"
    using assms
    by (cases ds; cases xp) (auto simp: nat_mapping_table_config_cb_def nat_error_def outcome_simps
        split: if_splits prod.splits)
  then show ?thesis
    by simp
next
  case True
  then obtain d x cs where dx: "ds = Some d" "xp = Some x" "event = SR_EV_VERIFY"
    and cs: "sr_get_changes_iter d x = (SR_ERR_OK, cs)"
    by (metis prod.collapse)
  from assms obtain f where
    "(case f of Leave rc l \<Rightarrow> nat_error Live Live (rc, st)
      | Next l \<Rightarrow> nat_finish net vom (vals_after_loop d cs) l st) = Val (rc, st')"
    by (auto simp: dx nat_cb_verify [OF cs] outcome_simps)
  then show ?thesis
    by (cases f) (auto dest: nat_finish_calls)
qed


section \<open>All callbacks\<close>

lemma sys_step_calls:
  assumes "sys_step order api net vom cs st st'"
  shows "vom_calls vom (fst st) (fst st')"
  using assms
  by cases (auto simp: nat_instance_config_cb_def dest: ietf_interface_calls ietf_address_calls openconfig_calls
      nat_mapping_calls)

lemma vom_calls_keep:
  assumes "vom_calls vom s s'" "\<And>s s'. vom_call vom s s' \<Longrightarrow> P s \<Longrightarrow> P s'" "P s"
  shows "P s'"
  using assms(1,3) by (induction rule: rtranclp_induct) (auto intro: assms(2))

lemma sys_step_keeps:
  assumes "sys_step order api net vom cs st st'" "\<And>s s'. vom_call vom s s' \<Longrightarrow> P s \<Longrightarrow> P s'" "P (fst st)"
  shows "P (fst st')"
  by (rule vom_calls_keep [where P = P, OF sys_step_calls [OF assms(1)] assms(2,3)])

end
