(* ===== verification/Lifecycle.thy ===== *)
theory Lifecycle
  imports Sc_Plugins Vom_Calls
begin

text \<open>
  The life of the shared object in sysrepo's plugin daemon: the constructors run when it is
  loaded, then \<open>sr_plugin_init_cb\<close>, then callbacks and health checks in any order while VPP
  may restart, then \<open>sr_plugin_cleanup_cb\<close>, and the destructors when it is unloaded.
\<close>

section \<open>Loading and unloading\<close>

text \<open>The uses of \<open>SC_INIT_FUNCTION\<close> and \<open>SC_EXIT_FUNCTION\<close> at the end of the three files\<close>

datatype registration = Init_of plugin | Exit_of plugin

definition ietf_interface_registrations :: "registration list" where
  "ietf_interface_registrations = [Init_of Ietf_interface, Exit_of Ietf_interface]"

definition ietf_nat_registrations :: "registration list" where
  "ietf_nat_registrations = [Init_of Ietf_nat, Exit_of Ietf_nat]"

definition openconfig_interface_registrations :: "registration list" where
  "openconfig_interface_registrations = [Init_of Openconfig_interface, Exit_of Openconfig_interface]"

definition all_registrations :: "registration list" where
  "all_registrations = ietf_interface_registrations @ openconfig_interface_registrations @ ietf_nat_registrations"

type_synonym ('sess, 'sub) plugin_main = "(plugin, ('sess, 'sub) plugin_ctx) sc_plugin_main_t"

fun run_constructor :: "registration \<Rightarrow> ('sess, 'sub) plugin_main \<Rightarrow> ('sess, 'sub) plugin_main" where
  "run_constructor (Init_of f) pm = sc_add_init_function f pm"
| "run_constructor (Exit_of f) pm = sc_add_exit_function f pm"

fun run_destructor :: "registration \<Rightarrow> ('sess, 'sub) plugin_main \<Rightarrow> ('sess, 'sub) plugin_main outcome option" where
  "run_destructor (Init_of f) pm = sc_rm_init_function f pm"
| "run_destructor (Exit_of f) pm = sc_rm_exit_function f pm"

definition sc_get_plugin_main :: "('s, 'sess, 'sub) plugin_state \<Rightarrow> ('sess, 'sub) plugin_main" where
  "sc_get_plugin_main ps = sc_plugin_main ps"

text \<open>The order of constructors and destructors across files is the linker's.\<close>

definition load_library :: "registration list \<Rightarrow> ('s, 'sess, 'sub) plugin_state \<Rightarrow> ('s, 'sess, 'sub) plugin_state" where
  "load_library rs ps = ps\<lparr>sc_plugin_main := fold run_constructor rs (sc_get_plugin_main ps)\<rparr>"

definition unload_library ::
    "registration list \<Rightarrow> ('s, 'sess, 'sub) plugin_state \<Rightarrow> ('s, 'sess, 'sub) plugin_state outcome option" where
  "unload_library rs ps =
     map_option (\<lambda>m. bindO m (\<lambda>pm. Val (ps\<lparr>sc_plugin_main := pm\<rparr>)))
       (unregister run_destructor rs (sc_get_plugin_main ps))"

text \<open>The static variables of a freshly mapped library\<close>

definition mapped :: "'s \<Rightarrow> ('s, 'sess, 'sub) plugin_state" where
  "mapped s = \<lparr>sc_plugin_main = fresh_main \<lparr>pm_session = None, pm_subscription = None\<rparr>, vpp_pid_start = 0, vom_state = s\<rparr>"


section \<open>Both lists at once\<close>

definition inits :: "registration list \<Rightarrow> plugin list" where
  "inits = List.map_filter (\<lambda>r. case r of Init_of f \<Rightarrow> Some f | Exit_of f \<Rightarrow> None)"

definition exits :: "registration list \<Rightarrow> plugin list" where
  "exits = List.map_filter (\<lambda>r. case r of Init_of f \<Rightarrow> None | Exit_of f \<Rightarrow> Some f)"

lemma inits_simps [simp]:
  "inits [] = []" "inits (Init_of f # rs) = f # inits rs" "inits (Exit_of f # rs) = inits rs"
  by (simp_all add: inits_def)

lemma exits_simps [simp]:
  "exits [] = []" "exits (Init_of f # rs) = exits rs" "exits (Exit_of f # rs) = f # exits rs"
  by (simp_all add: exits_def)

lemma set_inits_exits [simp]:
  "f \<in> set (inits rs) \<longleftrightarrow> Init_of f \<in> set rs" "f \<in> set (exits rs) \<longleftrightarrow> Exit_of f \<in> set rs"
  by (induction rs) (auto simp: inits_def exits_def split: registration.splits)

lemma remove1_inits_exits [simp]:
  "inits (remove1 (Init_of f) rs) = remove1 f (inits rs)" "exits (remove1 (Init_of f) rs) = exits rs"
  "inits (remove1 (Exit_of f) rs) = inits rs" "exits (remove1 (Exit_of f) rs) = remove1 f (exits rs)"
proof (induction rs)
  case (Cons r rs)
  {
    case 1 with Cons show ?case by (cases r) auto
  next
    case 2 with Cons show ?case by (cases r) auto
  next
    case 3 with Cons show ?case by (cases r) auto
  next
    case 4 with Cons show ?case by (cases r) auto
  }
qed simp_all

definition loaded :: "('sess, 'sub) plugin_main \<Rightarrow> registration list \<Rightarrow> bool" where
  "loaded pm rs \<longleftrightarrow> init_members pm (inits rs) \<and> exit_members pm (exits rs)"

lemma add_keeps_other [simp]:
  "exit_members (sc_add_init_function f pm) = exit_members pm" "init_members (sc_add_exit_function f pm) = init_members pm"
  by (simp_all add: sc_add_init_function_def sc_add_exit_function_def)

lemma rm_keeps_other:
  "sc_rm_init_function f pm = Some (Val pm') \<Longrightarrow> exit_members pm' = exit_members pm"
  "sc_rm_exit_function f pm = Some (Val pm') \<Longrightarrow> init_members pm' = init_members pm"
  by (auto simp: sc_rm_init_function_def sc_rm_exit_function_def outcome_simps)

interpretation library: registration_list run_constructor run_destructor loaded
proof unfold_locales
  fix pm :: "('sess, 'sub) plugin_main" and rs r
  show "loaded (run_constructor r pm) (r # rs)" if "loaded pm rs" "r \<notin> set rs"
    using that by (cases r) (auto simp: loaded_def intro: init_list.add_members exit_list.add_members)
  show "\<exists>pm'. run_destructor r pm = Some (Val pm') \<and> loaded pm' (remove1 r rs)" if "loaded pm rs" "r \<in> set rs"
  proof (cases r)
    case (Init_of f)
    with that init_list.rm_members [of pm "inits rs" f] show ?thesis
      by (auto simp: loaded_def rm_keeps_other)
  next
    case (Exit_of f)
    with that exit_list.rm_members [of pm "exits rs" f] show ?thesis
      by (auto simp: loaded_def rm_keeps_other)
  qed
  show "run_destructor r pm = Some (Undef NullPointer)" if "loaded pm []"
    using that by (cases r) (simp_all add: loaded_def init_list.rm_empty exit_list.rm_empty)
qed

lemma mapped_loaded: "loaded (sc_plugin_main (mapped s)) []"
  by (simp add: mapped_def loaded_def)

lemma load_library_loaded:
  assumes "distinct rs"
  shows "loaded (sc_plugin_main (load_library rs (mapped s))) (rev rs)"
  using library.add_all [OF mapped_loaded [of s], of rs] assms by (simp add: load_library_def sc_get_plugin_main_def)

lemma constructors_flags:
  "\<not> called_of (init_function_registrations pm) f \<Longrightarrow>
    \<not> called_of (init_function_registrations (fold run_constructor rs pm)) f"
proof (induction rs arbitrary: pm)
  case (Cons r rs)
  then show ?case
    by (cases r) (auto simp: sc_add_init_function_def sc_add_exit_function_def sc_add_def)
qed simp

lemma load_library_flags:
  "\<not> called_of (init_function_registrations (sc_plugin_main (load_library rs (mapped s)))) f"
  unfolding load_library_def sc_get_plugin_main_def
  by (simp add: constructors_flags mapped_def fresh_main_def Let_def)

lemma constructors_ctx: "ctx (fold run_constructor rs pm) = ctx pm"
proof (induction rs arbitrary: pm)
  case (Cons r rs)
  then show ?case
    by (cases r) (simp_all add: sc_add_init_function_def sc_add_exit_function_def)
qed simp

lemma load_library_rest [simp]:
  "vom_state (load_library rs (mapped s)) = s"
  "ctx (sc_plugin_main (load_library rs (mapped s))) = \<lparr>pm_session = None, pm_subscription = None\<rparr>"
  by (simp_all add: load_library_def sc_get_plugin_main_def constructors_ctx mapped_def fresh_main_def Let_def)


section \<open>Serving\<close>

abbreviation pid_now :: "('s, 'sess, 'sub) hw_api \<Rightarrow> 's \<Rightarrow> int outcome" where
  "pid_now hw s \<equiv> get_vpp_pid (proc hw s) (errno_now hw s)"

text \<open>
  What happens between initialisation and cleanup: configuration callbacks, health checks
  that return, and VPP going down or coming up. A VPP that comes up has another process id
  than the one the plugin has stored.
\<close>

inductive serve ::
    "byte_order \<Rightarrow> sr_api \<Rightarrow> 'a net_api \<Rightarrow> ('s, 'i, 'p, 'a) vom_api \<Rightarrow> ('s, 'sess, 'sub) hw_api \<Rightarrow>
     ('s, 'sess, 'sub) plugin_state \<times> 'a nat_table_t \<Rightarrow> ('s, 'sess, 'sub) plugin_state \<times> 'a nat_table_t \<Rightarrow> bool"
  for order api net vom hw where
  configure:
    "sys_step order api net vom cs (vom_state ps, tbl) (s', tbl') \<Longrightarrow>
      serve order api net vom hw (ps, tbl) (ps\<lparr>vom_state := s'\<rparr>, tbl')"
| health_check:
    "sr_plugin_health_check_cb hw ps = Some (Val (rc, ps')) \<Longrightarrow> serve order api net vom hw (ps, tbl) (ps', tbl)"
| vpp_restart:
    "(\<And>p. pid_now hw s' = Val p \<Longrightarrow> 0 \<le> p \<Longrightarrow> p \<noteq> vpp_pid_start ps) \<Longrightarrow>
      serve order api net vom hw (ps, tbl) (ps\<lparr>vom_state := s'\<rparr>, tbl)"

inductive_cases serveE: "serve order api net vom hw st st'"

abbreviation serves where
  "serves order api net vom hw \<equiv> (serve order api net vom hw)\<^sup>*\<^sup>*"

lemma health_check_Val:
  assumes "sr_plugin_health_check_cb hw ps = Some (Val (rc, ps'))"
  obtains "ps' = ps" | p s where "pid_now hw (vom_state ps) = Val p" "p \<noteq> vpp_pid_start ps"
    "connect_loop hw (HW_disconnect hw (vom_state ps)) = Some s" "ps' = ps\<lparr>vom_state := OM_replay hw s, vpp_pid_start := p\<rparr>"
  using assms by (auto simp: sr_plugin_health_check_cb_def Let_def split: outcome.splits if_splits option.splits)

lemma serves_main:
  assumes "serves order api net vom hw st st'"
  shows "sc_plugin_main (fst st') = sc_plugin_main (fst st)"
  using assms
proof (induction rule: rtranclp_induct)
  case (step st' st'')
  from step.hyps(2) have "sc_plugin_main (fst st'') = sc_plugin_main (fst st')"
    by cases (auto elim: health_check_Val)
  with step.IH show ?case
    by simp
qed simp


section \<open>Restarts of VPP\<close>

text \<open>
  \<open>stale s\<close>: VPP has been restarted since the configuration was last replayed. Calls of VOM
  do not restart VPP, and \<open>OM::replay\<close> brings a running VPP up to date.
\<close>

definition restart_laws :: "('s, 'sess, 'sub) hw_api \<Rightarrow> ('s, 'i, 'p, 'a) vom_api \<Rightarrow> ('s \<Rightarrow> bool) \<Rightarrow> bool" where
  "restart_laws hw vom stale \<longleftrightarrow>
     (\<forall>s s'. vom_call vom s s' \<longrightarrow>
        (stale s' \<longrightarrow> stale s) \<and> (\<forall>p. 0 \<le> p \<longrightarrow> pid_now hw s' = Val p \<longrightarrow> pid_now hw s = Val p)) \<and>
     (\<forall>s. \<not> stale (OM_replay hw s))"

text \<open>A restart that was not handled yet shows in the process id of the running VPP.\<close>

definition noticeable :: "('s, 'sess, 'sub) hw_api \<Rightarrow> ('s \<Rightarrow> bool) \<Rightarrow> int \<Rightarrow> 's \<Rightarrow> bool" where
  "noticeable hw stale start s \<longleftrightarrow> (stale s \<longrightarrow> (\<forall>p. 0 \<le> p \<longrightarrow> pid_now hw s = Val p \<longrightarrow> p \<noteq> start))"

lemma vom_call_noticeable:
  "restart_laws hw vom stale \<Longrightarrow> vom_call vom s s' \<Longrightarrow> noticeable hw stale start s \<Longrightarrow> noticeable hw stale start s'"
  unfolding restart_laws_def noticeable_def by blast

lemma serve_noticeable:
  assumes "restart_laws hw vom stale" "serve order api net vom hw (ps, tbl) (ps', tbl')"
    and "noticeable hw stale (vpp_pid_start ps) (vom_state ps)"
  shows "noticeable hw stale (vpp_pid_start ps') (vom_state ps')"
  using assms(2)
proof cases
  case (configure cs s')
  have "noticeable hw stale (vpp_pid_start ps) s'"
    using sys_step_keeps [where P = "noticeable hw stale (vpp_pid_start ps)", OF configure(2)]
      vom_call_noticeable [OF assms(1)] assms(3) by simp
  with configure(1) show ?thesis
    by simp
next
  case (health_check rc)
  from health_check(2) show ?thesis
  proof (cases rule: health_check_Val)
    case (2 p s)
    then show ?thesis
      using assms(1) by (simp add: noticeable_def restart_laws_def)
  qed (use assms(3) in simp)
qed (auto simp: noticeable_def)

lemma serves_noticeable:
  assumes "restart_laws hw vom stale" "serves order api net vom hw st st'"
    and "noticeable hw stale (vpp_pid_start (fst st)) (vom_state (fst st))"
  shows "noticeable hw stale (vpp_pid_start (fst st')) (vom_state (fst st'))"
  using assms(2,3)
proof (induction rule: rtranclp_induct)
  case (step st' st'')
  then show ?case
    using serve_noticeable [OF assms(1)] by (metis prod.collapse)
qed simp


section \<open>Initialisation and cleanup keep the lists\<close>

lemma call_all_init_loaded:
  assumes "sc_call_all_init_function run pm = Some (rc, pm')" "loaded pm rs"
  shows "loaded pm' rs"
  using assms sc_call_all_init_run_list [of pm "inits rs" run] by (auto simp: loaded_def split: prod.splits)

lemma call_all_exit_loaded:
  assumes "sc_call_all_exit_function run pm = Some pm'" "loaded pm rs"
  shows "loaded pm' rs"
  using assms sc_call_all_exit_run_list [of pm "exits rs" run] by (auto simp: loaded_def split: prod.splits)

lemma loaded_ctx [simp]: "loaded (pm\<lparr>ctx := m\<rparr>) = loaded pm"
  by (simp add: fun_eq_iff loaded_def)

text \<open>Initialisation up to the subscriptions\<close>

lemma init_after_populate:
  assumes "connect_loop hw (OM_init hw (HW_init hw (vom_state ps))) = Some s1" "OM_populate hw ''boot'' s1 = (None, s2)"
    and "sc_call_all_init_function (run_init subscribe)
      ((sc_plugin_main ps)\<lparr>ctx := (ctx (sc_plugin_main ps))\<lparr>pm_session := se\<rparr>\<rparr>) = Some (SR_ERR_OK, pm)"
    and "pid_now hw s2 = Val pid" "0 \<le> pid"
  shows "sr_plugin_init_cb hw subscribe se ps =
    Some (Val (SR_ERR_OK, Some (pm_subscription (ctx pm)), ps\<lparr>sc_plugin_main := pm, vom_state := s2, vpp_pid_start := pid\<rparr>))"
  using assms by (simp add: sr_plugin_init_cb_def Let_def)

lemma unload_loaded:
  assumes "loaded (sc_plugin_main ps) rs" "distinct rs" "distinct rs'" "set rs' = set rs"
  shows "\<exists>ps'. unload_library rs' ps = Some (Val ps') \<and> loaded (sc_plugin_main ps') [] \<and> vom_state ps' = vom_state ps"
  using library.rm_all [OF assms] by (auto simp: unload_library_def sc_get_plugin_main_def)

lemma cleanup_loaded:
  assumes "loaded (sc_plugin_main ps) rs"
  shows "\<exists>ps'. sr_plugin_cleanup_cb hw se priv ps = Some ps' \<and> loaded (sc_plugin_main ps') rs \<and>
    vom_state ps' = HW_disconnect hw
      (case priv of None \<Rightarrow> vom_state ps | Some sub \<Rightarrow> sr_unsubscribe hw se sub (vom_state ps))"
proof -
  have "exit_members (sc_plugin_main ps) (exits rs)"
    using assms by (simp add: loaded_def)
  from sc_call_all_exit_run_list [OF this, of run_exit]
  obtain pm where pm: "sc_call_all_exit_function run_exit (sc_plugin_main ps) = Some pm"
    by (auto simp: case_prod_unfold)
  with call_all_exit_loaded [OF pm assms] show ?thesis
    by (simp add: sr_plugin_cleanup_cb_def Let_def)
qed


text \<open>A failed initialisation marks the failing function and all before it; the next one starts behind it.\<close>

lemma call_all_init_failed:
  assumes "init_members pm (xs @ g # ys)" "\<forall>f \<in> set (xs @ g # ys). \<not> called_of (init_function_registrations pm) f"
    and "subscribe_seq subscribe (concat (map requests_of xs)) (ctx pm) = (SR_ERR_OK, c1)"
    and "subscribe_seq subscribe (requests_of g) c1 = (e, c2)" "e \<noteq> SR_ERR_OK"
  shows "\<exists>pm'. sc_call_all_init_function (run_init subscribe) pm = Some (e, pm') \<and> ctx pm' = c2 \<and>
    init_members pm' (xs @ g # ys) \<and>
    called_of (init_function_registrations pm') = (\<lambda>f. called_of (init_function_registrations pm) f \<or> f \<in> set (xs @ [g]))"
proof -
  let ?c = "called_of (init_function_registrations pm)"
  have d: "distinct (xs @ g # ys)"
    using assms(1) by (simp add: registered_def)
  obtain c where r: "run_list (run_init subscribe) ?c xs (ctx pm) = (SR_ERR_OK, c, c1)"
    using run_list_subscribe_seq [of xs ?c subscribe "ctx pm"] d assms(2,3) by (auto split: prod.splits)
  have "c = (\<lambda>f. ?c f \<or> f \<in> set xs)"
    using run_list_flags [OF r] .
  moreover from this have "\<not> c g"
    using d assms(2) by simp
  ultimately show ?thesis
    using assms(1,4,5) r by (simp add: sc_call_all_init_run_list [OF assms(1)] run_list_append run_init_eq fun_eq_iff)
qed

lemma call_all_init_resumes:
  assumes "init_members pm (xs @ ys)" "\<forall>f \<in> set xs. called_of (init_function_registrations pm) f"
    and "\<forall>f \<in> set ys. \<not> called_of (init_function_registrations pm) f"
    and "subscribe_seq subscribe (concat (map requests_of ys)) (ctx pm) = (rc, c)"
  shows "\<exists>pm'. sc_call_all_init_function (run_init subscribe) pm = Some (rc, pm') \<and> ctx pm' = c"
proof -
  have "distinct ys"
    using assms(1) by (simp add: registered_def)
  from run_list_subscribe_seq [OF this assms(3), of subscribe "ctx pm"] assms(4) obtain f where
    "run_list (run_init subscribe) (called_of (init_function_registrations pm)) ys (ctx pm) = (rc, f, c)"
    by (auto split: prod.splits)
  with assms(2) show ?thesis
    by (simp add: sc_call_all_init_run_list [OF assms(1)] run_list_append run_list_all_called)
qed


section \<open>Concrete inputs\<close>

text \<open>A VOM whose functions succeed and change nothing\<close>

definition idle_vom :: "('s, nat, nat, 8 word list) vom_api" where
  "idle_vom = \<lparr>
     make_interface = (\<lambda>n t b s. (0, s)), interface_find = (\<lambda>n s. None), interface_set = (\<lambda>i b s. s),
     interface_key = (\<lambda>i s. []), interface_itf_name = (\<lambda>i s. []), get_stats = (\<lambda>i s. get_stats sample_vom [] sample_empty),
     prefix_t = (\<lambda>a l. Inr 0), prefix_t_to_string = (\<lambda>p. []),
     om_write_interface = (\<lambda>k i s. (RC_OK, s)), om_write_l3 = (\<lambda>k i p s. (RC_OK, s)), om_write_nat = (\<lambda>k x y s. (RC_OK, s)),
     om_remove = (\<lambda>k s. s), dump = (\<lambda>p s. []), name_filter_size = 64\<rparr>"

definition sample_boot :: sample_sys where
  "sample_boot = \<lparr>running = 0, tries = 0, replays = 0\<rparr>"

definition sample_stale :: "sample_sys \<Rightarrow> bool" where
  "sample_stale s \<longleftrightarrow> replays s = 0"

lemma idle_call: "vom_call idle_vom s s' \<Longrightarrow> s' = s"
  by (cases rule: vom_call.cases) (auto simp: idle_vom_def)

lemma sample_restart_laws: "restart_laws sample_hw idle_vom sample_stale"
  by (auto simp: restart_laws_def sample_stale_def sample_hw_def dest: idle_call)

text \<open>A subscriber that refuses everything\<close>

definition refusing_subscriber :: "(unit, request list) subscriber" where
  "refusing_subscriber q se sub = (SR_ERR_DISCONNECT, sub)"

lemma sample_subscriber_ok [simp]: "fst (sample_subscriber q se sub) = SR_ERR_OK"
  by (simp add: sample_subscriber_def)

lemma sample_pid: "pid_now sample_hw \<lparr>running = 43, tries = 2, replays = 0\<rparr> = Val 43"
  by code_simp

lemma sample_hw_boot:
  "connect_loop sample_hw (OM_init sample_hw (HW_init sample_hw sample_boot)) = Some \<lparr>running = 43, tries = 2, replays = 0\<rparr>"
  "OM_populate sample_hw n s = (None, s)"
  using sample_connect [of 0 0] by (simp_all add: sample_hw_def sample_boot_def)


section \<open>Properties\<close>

text \<open>
  (C7) A whole life of the plugin, whatever order the linker gives the constructors and the
  destructors: if VPP can be reached and every subscription is accepted, initialisation
  makes the subscriptions of all three files; after any sequence of commits, health checks
  and restarts of VPP, cleanup gives exactly that subscription context back and
  disconnects; and unloading leaves both registration lists empty without ever following
  a null pointer.
\<close>

theorem plugin_lifecycle:
  assumes "distinct rs" "set rs = set all_registrations" "distinct rs'" "set rs' = set all_registrations"
    and "connect_loop hw (OM_init hw (HW_init hw s)) = Some s1" "OM_populate hw ''boot'' s1 = (None, s2)"
    and "\<And>q se sub. fst (subscribe q se sub) = SR_ERR_OK" "pid_now hw s2 = Val pid" "0 \<le> pid"
  shows "\<exists>ps1. let sub = fold (\<lambda>q sub. snd (subscribe q se sub)) (concat (map requests_of (inits (rev rs)))) None in
    sr_plugin_init_cb hw subscribe se (load_library rs (mapped s)) = Some (Val (SR_ERR_OK, Some sub, ps1)) \<and>
    (\<forall>tbl ps2 tbl'. serves order api net vom hw (ps1, tbl) (ps2, tbl') \<longrightarrow>
      (\<exists>ps3 ps4. sr_plugin_cleanup_cb hw se sub ps2 = Some ps3 \<and>
        vom_state ps3 = HW_disconnect hw
          (case sub of None \<Rightarrow> vom_state ps2 | Some u \<Rightarrow> sr_unsubscribe hw se u (vom_state ps2)) \<and>
        unload_library rs' ps3 = Some (Val ps4) \<and>
        init_members (sc_plugin_main ps4) [] \<and> exit_members (sc_plugin_main ps4) []))"
proof -
  let ?ps = "load_library rs (mapped s)"
  let ?pm = "(sc_plugin_main ?ps)\<lparr>ctx := (ctx (sc_plugin_main ?ps))\<lparr>pm_session := se\<rparr>\<rparr>"
  let ?qs = "concat (map requests_of (inits (rev rs)))"
  let ?sub = "fold (\<lambda>q sub. snd (subscribe q se sub)) ?qs None"
  have l: "loaded ?pm (rev rs)"
    using load_library_loaded [OF assms(1)] by simp
  have flags: "\<forall>f \<in> set (inits (rev rs)). \<not> called_of (init_function_registrations ?pm) f"
    by (simp add: load_library_flags)
  have "subscribe_seq subscribe ?qs (ctx ?pm) = (SR_ERR_OK, \<lparr>pm_session = se, pm_subscription = ?sub\<rparr>)"
    using subscribe_seq_ok [of ?qs subscribe "ctx ?pm"] assms(7) by simp
  then obtain pm where pm: "sc_call_all_init_function (run_init subscribe) ?pm = Some (SR_ERR_OK, pm)"
    "ctx pm = \<lparr>pm_session = se, pm_subscription = ?sub\<rparr>"
    using call_all_init_subscribes [of ?pm "inits (rev rs)" subscribe] l flags by (auto simp: loaded_def)
  let ?ps1 = "?ps\<lparr>sc_plugin_main := pm, vom_state := s2, vpp_pid_start := pid\<rparr>"
  have init: "sr_plugin_init_cb hw subscribe se ?ps = Some (Val (SR_ERR_OK, Some ?sub, ?ps1))"
    using init_after_populate [of hw ?ps s1 s2 subscribe se pm pid] assms pm by simp
  have "\<exists>ps3 ps4. sr_plugin_cleanup_cb hw se ?sub ps2 = Some ps3 \<and>
        vom_state ps3 = HW_disconnect hw
          (case ?sub of None \<Rightarrow> vom_state ps2 | Some u \<Rightarrow> sr_unsubscribe hw se u (vom_state ps2)) \<and>
        unload_library rs' ps3 = Some (Val ps4) \<and>
        init_members (sc_plugin_main ps4) [] \<and> exit_members (sc_plugin_main ps4) []"
    if "serves order api net vom hw (?ps1, tbl) (ps2, tbl')" for tbl ps2 tbl'
  proof -
    have "loaded (sc_plugin_main ps2) (rev rs)"
      using serves_main [OF that] call_all_init_loaded [OF pm(1) l] by simp
    from cleanup_loaded [OF this, of hw se ?sub] obtain ps3 where ps3:
      "sr_plugin_cleanup_cb hw se ?sub ps2 = Some ps3" "loaded (sc_plugin_main ps3) (rev rs)"
      "vom_state ps3 = HW_disconnect hw
        (case ?sub of None \<Rightarrow> vom_state ps2 | Some u \<Rightarrow> sr_unsubscribe hw se u (vom_state ps2))"
      by blast
    from unload_loaded [OF ps3(2), of rs'] assms(1-4) ps3(1,3) show ?thesis
      by (auto simp: loaded_def)
  qed
  with init show ?thesis
    unfolding Let_def by blast
qed

theorem plugin_lifecycle_witness:
  "\<exists>ps1 ps3 ps4 sub.
    sr_plugin_init_cb sample_hw sample_subscriber (Some ()) (load_library all_registrations (mapped sample_boot)) =
      Some (Val (SR_ERR_OK, Some sub, ps1)) \<and>
    sr_plugin_cleanup_cb sample_hw (Some ()) sub ps1 = Some ps3 \<and>
    unload_library (rev all_registrations) ps3 = Some (Val ps4) \<and> init_members (sc_plugin_main ps4) []"
proof -
  have d: "distinct all_registrations"
    by code_simp
  have rs: "distinct (rev all_registrations)" "set (rev all_registrations) = set all_registrations"
    using d by simp_all
  from plugin_lifecycle [where subscribe = sample_subscriber and se = "Some ()" and order = Little_Endian
      and api = sample_api and net = sample_net and vom = idle_vom, OF d refl rs sample_hw_boot sample_subscriber_ok sample_pid]
  show ?thesis
    unfolding Let_def by (auto dest!: spec2 spec)
qed

text \<open>
  (C12) No restart of VPP is missed. As long as the operating system does not give a new VPP
  the process id that the plugin remembers, and calls of VOM do not restart VPP: after any
  sequence of commits, health checks and restarts, a running VPP that has not got the
  configuration back yet is found by the next health check, which reconnects, replays the
  configuration once and stores the new process id. Health checks that found VPP down do
  not hide a later restart.
\<close>

theorem restart_detected:
  assumes "restart_laws hw vom stale" "\<not> stale (vom_state ps0)"
    and "serves order api net vom hw (ps0, tbl0) (ps, tbl)" "stale (vom_state ps)"
    and "pid_now hw (vom_state ps) = Val p" "0 \<le> p"
    and "connect_loop hw (HW_disconnect hw (vom_state ps)) = Some s"
  shows "sr_plugin_health_check_cb hw ps =
      Some (Val (SR_ERR_OK, ps\<lparr>vom_state := OM_replay hw s, vpp_pid_start := p\<rparr>)) \<and>
    \<not> stale (OM_replay hw s)"
proof -
  have "noticeable hw stale (vpp_pid_start ps0) (vom_state ps0)"
    using assms(2) by (simp add: noticeable_def)
  with serves_noticeable [OF assms(1,3)] have "noticeable hw stale (vpp_pid_start ps) (vom_state ps)"
    by simp
  with assms(4-6) have "p \<noteq> vpp_pid_start ps"
    by (simp add: noticeable_def)
  with assms(1,5,7) show ?thesis
    by (simp add: sr_plugin_health_check_cb_def restart_laws_def Let_def)
qed

theorem restart_detected_witness:
  "\<exists>ps'. sr_plugin_health_check_cb sample_hw (sample_state 43 42) = Some (Val (SR_ERR_OK, ps')) \<and>
    vpp_pid_start ps' = 43 \<and> replays (vom_state ps') = 1"
proof -
  let ?ps0 = "(sample_state 42 42)\<lparr>vom_state := \<lparr>running = 42, tries = 2, replays = 1\<rparr>\<rparr>"
  let ?s = "vom_state (sample_state 43 42)"
  have pid: "pid_now sample_hw ?s = Val 43"
    by code_simp
  have "serve Little_Endian sample_api sample_net idle_vom sample_hw (?ps0, Map.empty) (?ps0\<lparr>vom_state := ?s\<rparr>, Map.empty)"
    using pid by (intro serve.vpp_restart) (simp add: sample_state_def)
  then have "serves Little_Endian sample_api sample_net idle_vom sample_hw (?ps0, Map.empty) (sample_state 43 42, Map.empty)"
    by (simp add: sample_state_def r_into_rtranclp)
  moreover have "\<not> sample_stale (vom_state ?ps0)" "sample_stale ?s"
    by (simp_all add: sample_stale_def sample_state_def)
  moreover have "connect_loop sample_hw (HW_disconnect sample_hw ?s) = Some \<lparr>running = 43, tries = 2, replays = 0\<rparr>"
    using sample_connect [of 43 0] by (simp add: sample_hw_def sample_state_def)
  ultimately show ?thesis
    using restart_detected [OF sample_restart_laws, of ?ps0 Little_Endian sample_api sample_net Map.empty "sample_state 43 42" Map.empty 43] pid
    by (simp add: sample_hw_def)
qed

text \<open>
  (C29) A failed initialisation is not made up for. Where a subscription of one plugin file
  is refused, the flags of that file and of all before it stay set. When initialisation is
  tried again and sysrepo now accepts everything, it reports success, but makes only the
  subscriptions of the files behind the failed one: the refused ones are never made.
\<close>

theorem failed_init_not_retried:
  assumes "init_members (sc_plugin_main ps) (xs @ g # ys)"
    and "\<forall>f \<in> set (xs @ g # ys). \<not> called_of (init_function_registrations (sc_plugin_main ps)) f"
    and "connect_loop hw (OM_init hw (HW_init hw (vom_state ps))) = Some s1" "OM_populate hw ''boot'' s1 = (None, s2)"
    and "subscribe_seq subscribe (concat (map requests_of xs)) ((ctx (sc_plugin_main ps))\<lparr>pm_session := se\<rparr>) = (SR_ERR_OK, c1)"
    and "subscribe_seq subscribe (requests_of g) c1 = (e, c2)" "e \<noteq> SR_ERR_OK"
    and "connect_loop hw (OM_init hw (HW_init hw s2)) = Some s3" "OM_populate hw ''boot'' s3 = (None, s4)"
    and "\<And>q se sub. fst (subscribe' q se sub) = SR_ERR_OK" "pid_now hw s4 = Val pid" "0 \<le> pid"
  shows "\<exists>ps1 ps2. sr_plugin_init_cb hw subscribe se ps = Some (Val (e, None, ps1)) \<and>
    sr_plugin_init_cb hw subscribe' se ps1 = Some (Val (SR_ERR_OK,
      Some (fold (\<lambda>q sub. snd (subscribe' q se sub)) (concat (map requests_of ys)) (pm_subscription c2)), ps2))"
proof -
  let ?pm = "(sc_plugin_main ps)\<lparr>ctx := (ctx (sc_plugin_main ps))\<lparr>pm_session := se\<rparr>\<rparr>"
  obtain pm where pm: "sc_call_all_init_function (run_init subscribe) ?pm = Some (e, pm)" "ctx pm = c2"
    "init_members pm (xs @ g # ys)"
    "called_of (init_function_registrations pm) =
      (\<lambda>f. called_of (init_function_registrations (sc_plugin_main ps)) f \<or> f \<in> set (xs @ [g]))"
    using call_all_init_failed [of ?pm xs g ys subscribe c1 e c2] assms(1,2,5-7) by auto
  let ?ps1 = "ps\<lparr>sc_plugin_main := pm, vom_state := s2\<rparr>"
  let ?pm1 = "pm\<lparr>ctx := c2\<lparr>pm_session := se\<rparr>\<rparr>"
  have first: "sr_plugin_init_cb hw subscribe se ps = Some (Val (e, None, ?ps1))"
    using assms(3,4,7) pm(1) by (simp add: sr_plugin_init_cb_def Let_def)
  have d: "distinct (xs @ g # ys)"
    using pm(3) by (simp add: registered_def)
  have flags: "\<forall>f \<in> set (xs @ [g]). called_of (init_function_registrations pm) f"
    "\<forall>f \<in> set ys. \<not> called_of (init_function_registrations pm) f"
    using d assms(2) by (auto simp: fun_cong [OF pm(4)])
  let ?c = "c2\<lparr>pm_session := se, pm_subscription := fold (\<lambda>q sub. snd (subscribe' q se sub))
    (concat (map requests_of ys)) (pm_subscription c2)\<rparr>"
  have "subscribe_seq subscribe' (concat (map requests_of ys)) (ctx ?pm1) = (SR_ERR_OK, ?c)"
    using subscribe_seq_ok [of "concat (map requests_of ys)" subscribe' "ctx ?pm1"] assms(10) by simp
  then obtain pm' where pm': "sc_call_all_init_function (run_init subscribe') ?pm1 = Some (SR_ERR_OK, pm')" "ctx pm' = ?c"
    using call_all_init_resumes [of ?pm1 "xs @ [g]" ys subscribe'] pm(3) flags by auto
  then have "sr_plugin_init_cb hw subscribe' se ?ps1 = Some (Val (SR_ERR_OK, Some (pm_subscription ?c),
      ?ps1\<lparr>sc_plugin_main := pm', vom_state := s4, vpp_pid_start := pid\<rparr>))"
    using init_after_populate [of hw ?ps1 s3 s4 subscribe' se pm' pid] assms(8,9,11,12) pm(2) by simp
  with first show ?thesis
    by auto
qed

theorem failed_init_not_retried_witness:
  "\<exists>ps1 ps2. sr_plugin_init_cb sample_hw refusing_subscriber (Some ()) (sample_state 42 0) =
      Some (Val (SR_ERR_DISCONNECT, None, ps1)) \<and>
    sr_plugin_init_cb sample_hw sample_subscriber (Some ()) ps1 =
      Some (Val (SR_ERR_OK, Some (Some ietf_nat_requests), ps2))"
proof -
  let ?ps = "sample_state 42 0"
  let ?s = "\<lparr>running = 43, tries = 2, replays = 0\<rparr>"
  let ?c = "\<lparr>pm_session = Some (), pm_subscription = None\<rparr>"
  have m: "init_members (sc_plugin_main ?ps) ([] @ Openconfig_interface # [Ietf_nat])"
    using init_list.add_all [of "fresh_main \<lparr>pm_session = None, pm_subscription = None\<rparr>" "[]"
        "[Ietf_nat, Openconfig_interface]"] by (simp add: sample_state_def)
  have fl: "\<forall>f \<in> set ([] @ Openconfig_interface # [Ietf_nat]). \<not> called_of (init_function_registrations (sc_plugin_main ?ps)) f"
    by (simp add: sample_state_def sc_add_init_function_def sc_add_def fresh_main_def Let_def)
  have con: "connect_loop sample_hw (OM_init sample_hw (HW_init sample_hw (vom_state ?ps))) = Some ?s"
    "connect_loop sample_hw (OM_init sample_hw (HW_init sample_hw ?s)) = Some ?s"
    using sample_connect [of 42 0] sample_connect_again [of 43 0] by (simp_all add: sample_hw_def sample_state_def)
  have x: "subscribe_seq refusing_subscriber (concat (map requests_of [])) ((ctx (sc_plugin_main ?ps))\<lparr>pm_session := Some ()\<rparr>) =
      (SR_ERR_OK, ?c)"
    by (simp add: sample_state_def sc_add_init_function_def fresh_main_def Let_def)
  have g: "subscribe_seq refusing_subscriber (requests_of Openconfig_interface) ?c = (SR_ERR_DISCONNECT, ?c)"
    by code_simp
  have "fold (\<lambda>q sub. snd (sample_subscriber q (Some ()) sub)) (concat (map requests_of [Ietf_nat])) None = Some ietf_nat_requests"
    by code_simp
  with failed_init_not_retried [where subscribe' = sample_subscriber, OF m fl con(1) sample_hw_boot(2) x g _ con(2) sample_hw_boot(2) sample_subscriber_ok
      sample_pid] show ?thesis
    by auto
qed

end
