(* ===== verification/Vpp_Pid_Handles.thy ===== *)
theory Vpp_Pid_Handles
  imports Vpp_Pid
begin

text \<open>
  \<open>get_vpp_pid\<close> of \<open>src/plugins/sc_plugins.c\<close> once more, with the streams it opens: the
  directory \<open>/proc\<close> and the \<open>cmdline\<close> files. The health check calls it again and again
  in one process, so what it leaves open adds up.
\<close>

section \<open>get\_vpp\_pid with open streams\<close>

text \<open>The number of open directory streams and of open files of the process.\<close>

record handles =
  dirs_open :: nat
  files_open :: nat

definition opendir_h :: "handles \<Rightarrow> handles" where
  "opendir_h h = h\<lparr>dirs_open := dirs_open h + 1\<rparr>"

definition closedir_h :: "handles \<Rightarrow> handles" where
  "closedir_h h = h\<lparr>dirs_open := dirs_open h - 1\<rparr>"

definition fopen_h :: "handles \<Rightarrow> handles" where
  "fopen_h h = h\<lparr>files_open := files_open h + 1\<rparr>"

definition fclose_h :: "handles \<Rightarrow> handles" where
  "fclose_h h = h\<lparr>files_open := files_open h - 1\<rparr>"

fun pid_loop_io :: "proc_fs \<Rightarrow> dirent list \<Rightarrow> int \<Rightarrow> handles \<Rightarrow> (int \<times> handles) outcome" where
  "pid_loop_io fs [] errno h =
     (let errno' = (if readdir_errno fs \<noteq> 0 then readdir_errno fs else errno)
      in if errno' \<noteq> 0 then Val (- errno', h) else Val (- ESRCH, closedir_h h))"
| "pid_loop_io fs (d # ds) errno h =
     (if d_name d = ''.'' \<or> d_name d = ''..'' then pid_loop_io fs ds errno h
      else if d_type_of d \<noteq> DT_DIR then pid_loop_io fs ds errno h
      else (case fopen_cmdline fs (cmdline_path (d_name d)) of
        Inl e \<Rightarrow> pid_loop_io fs ds e h
      | Inr (e, line) \<Rightarrow>
          (let filetext = take sizeof_path line;
               errno' = (if e \<noteq> 0 then e else errno);
               h = fopen_h h in
           if filetext = [] then pid_loop_io fs ds errno' (fclose_h h)
           else (case strtok_space filetext of
             None \<Rightarrow> pid_loop_io fs ds errno' (fclose_h h)
           | Some word \<Rightarrow>
               if word = ''vpp'' \<or> word = VPP_FULL_PATH
               then (let h = closedir_h (fclose_h h) in bindO (bindO (closed_name fs d) atoi) (\<lambda>n. Val (n, h)))
               else pid_loop_io fs ds 0 (fclose_h h)))))"

definition get_vpp_pid_io :: "proc_fs \<Rightarrow> int \<Rightarrow> handles \<Rightarrow> (int \<times> handles) outcome" where
  "get_vpp_pid_io fs errno h =
     (case opendir_errno fs of
        Some e \<Rightarrow> Val (- e, h)
      | None \<Rightarrow> pid_loop_io fs (entries fs) errno (opendir_h h))"

text \<open>The searches of a number of health checks; \<open>errno\<close> on entry to each is arbitrary.\<close>

fun searches :: "proc_fs \<Rightarrow> int list \<Rightarrow> handles \<Rightarrow> handles outcome" where
  "searches fs [] h = Val h"
| "searches fs (e # es) h = bindO (get_vpp_pid_io fs e h) (\<lambda>(n, h'). searches fs es h')"


section \<open>What is closed\<close>

lemmas handle_defs = opendir_h_def closedir_h_def fopen_h_def fclose_h_def

lemma fclose_fopen_h [simp]: "fclose_h (fopen_h h) = h"
  by (simp add: handle_defs)

lemma closedir_opendir_h [simp]: "closedir_h (opendir_h h) = h"
  by (simp add: handle_defs)

text \<open>The result does not depend on the streams, and each file is closed.\<close>

lemma pid_loop_io_result:
  "bindO (pid_loop_io fs ds errno h) (\<lambda>(n, h'). Val n) = pid_loop fs ds errno"
  by (induction ds arbitrary: errno)
    (auto simp: Let_def bindO_assoc split: sum.split option.split)

lemma pid_loop_io_handles:
  "pid_loop_io fs ds errno h = Val (n, h') \<Longrightarrow> h' = h \<or> h' = closedir_h h"
  by (induction ds arbitrary: errno)
    (auto simp: Let_def bindO_eq_Val split: if_splits sum.splits option.splits)

text \<open>A search that does not reach the end of the directory closes it.\<close>

lemma pid_loop_io_found:
  "vpp_process fs d \<Longrightarrow> d \<in> set ds \<Longrightarrow> plain_proc (fs\<lparr>entries := ds\<rparr>) \<Longrightarrow>
    pid_loop_io fs ds errno h = Val (n, h') \<Longrightarrow> h' = closedir_h h"
proof (induction ds arbitrary: errno)
  case (Cons x xs)
  have rest: "h' = closedir_h h" if "pid_loop_io fs xs e h = Val (n, h')" "x \<noteq> d" for e
    using Cons that by (auto simp: plain_proc_def)
  show ?case
  proof (cases "x = d")
    case False
    with rest Cons.prems(4) show ?thesis
      by (auto simp: Let_def bindO_eq_Val split: if_splits sum.splits option.splits)
  next
    case True
    obtain e line where d: "d_name d \<notin> {''.'', ''..''}" "d_type_of d = DT_DIR"
      "fopen_cmdline fs (proc_path (d_name d)) = Inr (e, line)" "vpp_cmdline line"
      using Cons.prems(1) by (auto simp: vpp_process_def split: sum.splits)
    have len: "length (d_name d) < DIRENT_NAME"
      using Cons.prems(3) True by (simp add: plain_proc_def)
    have "line = [] \<or> hd line \<noteq> CHR '' ''"
      using Cons.prems(3) True d(3) by (cases line) (simp_all add: plain_proc_def)
    from truncated_vpp_cmdline [OF this] d(4)
    have word: "strtok_space (take sizeof_path line) \<in> {Some ''vpp'', Some VPP_FULL_PATH}"
      by blast
    moreover have "strtok_space [] = None"
      by (simp add: strtok_space_def c_str_def)
    ultimately have "take sizeof_path line \<noteq> []"
      by force
    with word d len Cons.prems(4) True show ?thesis
      by (auto simp: Let_def cmdline_path_fits bindO_eq_Val)
  qed
qed simp


text \<open>An entry that is no VPP process is skipped with the streams as they were.\<close>

lemma pid_loop_io_skip_one:
  assumes "plain_proc fs" "x \<in> set (entries fs)" "\<not> vpp_process fs x"
  shows "\<exists>e. pid_loop_io fs (x # ds) errno h = pid_loop_io fs ds e h"
proof (cases "d_name x \<notin> {''.'', ''..''} \<and> d_type_of x = DT_DIR")
  case dir: True
  have len: "length (d_name x) < DIRENT_NAME"
    using assms(1,2) by (simp add: plain_proc_def list_all_iff)
  show ?thesis
  proof (cases "fopen_cmdline fs (proc_path (d_name x))")
    case (Inl e)
    with dir len show ?thesis
      by (auto simp: cmdline_path_fits)
  next
    case (Inr r)
    obtain e line where r: "r = (e, line)"
      by fastforce
    have "line = [] \<or> hd line \<noteq> CHR '' ''"
      using assms(1,2) Inr r by (cases line) (auto simp: plain_proc_def list_all_iff)
    from truncated_vpp_cmdline [OF this]
    have "strtok_space (take sizeof_path line) \<notin> {Some ''vpp'', Some VPP_FULL_PATH}"
      using assms(3) dir Inr r by (simp add: vpp_process_def)
    then show ?thesis
      using dir Inr r len by (auto simp: cmdline_path_fits Let_def split: option.split)
  qed
qed auto

lemma pid_loop_io_skip:
  assumes "plain_proc fs" "set ds \<subseteq> set (entries fs)" "\<forall>d \<in> set ds. \<not> vpp_process fs d"
  shows "\<exists>e. pid_loop_io fs (ds @ ds') errno h = pid_loop_io fs ds' e h"
  using assms(2,3)
proof (induction ds arbitrary: errno)
  case (Cons x xs)
  obtain e where "pid_loop_io fs (x # xs @ ds') errno h = pid_loop_io fs (xs @ ds') e h"
    using pid_loop_io_skip_one [OF assms(1)] Cons.prems by (meson list.set_intros(1) subsetD)
  with Cons show ?case
    by (auto simp del: pid_loop_io.simps)
qed auto


section \<open>Properties\<close>

text \<open>
  \<open>get_vpp_pid\<close> closes every \<open>cmdline\<close> file it opens, on each of its branches, and
  it closes the directory whenever a VPP process runs; the streams do not influence its
  result.
\<close>

lemma get_vpp_pid_closes:
  "bindO (get_vpp_pid_io fs errno h) (\<lambda>(n, h'). Val n) = get_vpp_pid fs errno \<and>
   (get_vpp_pid_io fs errno h = Val (n, h') \<longrightarrow>
      files_open h' = files_open h \<and> dirs_open h' \<le> dirs_open h + 1 \<and>
      (plain_proc fs \<longrightarrow> (\<exists>d \<in> set (entries fs). vpp_process fs d) \<longrightarrow> h' = h))"
proof (cases "opendir_errno fs")
  case None
  have "h' = opendir_h h \<or> h' = h" if "get_vpp_pid_io fs errno h = Val (n, h')"
    using pid_loop_io_handles [of fs "entries fs" errno "opendir_h h"] that None by (simp add: get_vpp_pid_io_def)
  moreover have "h' = h" if "get_vpp_pid_io fs errno h = Val (n, h')" "plain_proc fs" "d \<in> set (entries fs)" "vpp_process fs d" for d
    using pid_loop_io_found [OF that(4,3), of errno "opendir_h h"] that None by (simp add: get_vpp_pid_io_def)
  ultimately show ?thesis
    using None pid_loop_io_result [of fs "entries fs" errno "opendir_h h"]
    by (auto simp: get_vpp_pid_io_def get_vpp_pid_def opendir_h_def)
qed (simp add: get_vpp_pid_io_def get_vpp_pid_def)

definition no_handles :: handles where
  "no_handles = \<lparr>dirs_open = 0, files_open = 0\<rparr>"

text \<open>
  (C40) While VPP is down, every health check loses a directory stream: where the last entry
  of \<open>/proc\<close> is a directory whose \<open>cmdline\<close> cannot be opened, \<open>get_vpp_pid\<close> reports that
  left-over \<open>errno\<close> instead of \<open>- ESRCH\<close>, although \<open>readdir\<close> did not fail, and takes the
  branch for errors of \<open>readdir\<close>, which does not close the directory. After any number of
  searches that many streams are open.
\<close>

theorem searches_lose_directories:
  assumes "opendir_errno fs = None" "plain_proc fs" "\<forall>d \<in> set (entries fs). \<not> vpp_process fs d"
    and "entries fs = ds @ [d]" "d_type_of d = DT_DIR" "d_name d \<notin> {''.'', ''..''}"
    and "fopen_cmdline fs (proc_path (d_name d)) = Inl e" "e \<noteq> 0" "readdir_errno fs = 0"
  shows "get_vpp_pid_io fs errno h = Val (- e, h\<lparr>dirs_open := dirs_open h + 1\<rparr>) \<and>
    searches fs es h = Val (h\<lparr>dirs_open := dirs_open h + length es\<rparr>)"
proof -
  have "set ds \<subseteq> set (entries fs)" "\<forall>d \<in> set ds. \<not> vpp_process fs d"
    using assms(3,4) by auto
  note skip = pid_loop_io_skip [OF assms(2) this, of "[d]"]
  have "length (d_name d) < DIRENT_NAME"
    using assms(2,4) by (simp add: plain_proc_def)
  then have io: "get_vpp_pid_io fs errno h = Val (- e, opendir_h h)" for errno h
    using skip [of errno "opendir_h h"] assms by (auto simp: get_vpp_pid_io_def cmdline_path_fits Let_def)
  then have "searches fs es h = Val (h\<lparr>dirs_open := dirs_open h + length es\<rparr>)" for h
    by (induction es arbitrary: h) (simp_all add: opendir_h_def)
  with io show ?thesis
    by (simp add: opendir_h_def)
qed

theorem searches_lose_directories_witness:
  "get_vpp_pid_io (sample_proc [(''1'', ''/sbin/init'')]) 0 no_handles = Val (- 2, no_handles\<lparr>dirs_open := 1\<rparr>) \<and>
    searches (sample_proc [(''1'', ''/sbin/init'')]) [0, 0, 0] no_handles = Val (no_handles\<lparr>dirs_open := 3\<rparr>)"
proof -
  let ?fs = "sample_proc [(''1'', ''/sbin/init'')]"
  let ?ds = "[\<lparr>d_name = ''.'', d_type_of = DT_DIR\<rparr>, \<lparr>d_name = ''..'', d_type_of = DT_DIR\<rparr>,
    \<lparr>d_name = ''1'', d_type_of = DT_DIR\<rparr>]"
  let ?d = "\<lparr>d_name = ''sys'', d_type_of = DT_DIR\<rparr>"
  have "plain_proc ?fs" "\<forall>d \<in> set (entries ?fs). \<not> vpp_process ?fs d"
    by code_simp+
  moreover have "opendir_errno ?fs = None" "entries ?fs = ?ds @ [?d]" "readdir_errno ?fs = 0"
    "fopen_cmdline ?fs (proc_path (d_name ?d)) = Inl 2"
    by (simp_all add: sample_proc_def proc_path_def)
  ultimately show ?thesis
    using searches_lose_directories [of ?fs ?ds ?d 2 0 no_handles "[0, 0, 0]"]
    by (simp add: no_handles_def eval_nat_numeral del: searches.simps)
qed

end
