(* ===== verification/Spec2Isabelle.thy ===== *)
theory Spec2Isabelle
  imports Commit_Delete Interface_Datastore Nat_Datastore Exceptions Xpath_Buffer Yang_Conformance Lifecycle Vpp_Pid_Handles
begin

text \<open>
  \<^bold>\<open>Sweetcomb\<close>: a set of sysrepo plugins that configure VPP through its object model VOM.
  This development models the C and C++ code under \<open>src/src/plugins/\<close>.

  \<^bold>\<open>The program\<close>. Sysrepo's plugin daemon loads one shared object. Before \<open>main\<close>, static
  constructors enter the init and exit functions of three YANG model implementations into
  two linked lists (\<open>sc_init.h\<close>). \<open>sr_plugin_init_cb\<close> (\<open>sc_plugins.c\<close>) connects to VPP,
  populates VOM, calls the init functions, which subscribe callbacks with sysrepo, and
  remembers VPP's process id; \<open>sr_plugin_health_check_cb\<close> compares that id with the current
  one and replays VOM's configuration when it changed. A configuration callback gets the
  changes of a commit one by one, collects them in local variables, and writes or removes
  one object in VOM behind the loop (\<open>ietf_interface.cpp\<close>, \<open>ietf_nat.cpp\<close>,
  \<open>openconfig_interfaces.cpp\<close>); a state callback answers a request with an array of values
  read from VPP (\<open>vpp-oper/interface.cpp\<close>) or VOM.

  \<^bold>\<open>Theories and sources\<close>.
  \<^item> \<open>Prelude\<close>: the outcome of a C++ computation (value, exception, exit, undefined behaviour
    with its cause), indeterminate variables and null pointers as options, the lifetime of
    freed pointers; lemmas on words and lists.
  \<^item> \<open>Cpp_Text\<close>: the library's conversions of text the sources use (\<open>to_string\<close>, \<open>stoi\<close>,
    \<open>atoi\<close>, \<open>strtok\<close>, \<open>snprintf\<close>, \<open>%02x\<close>).
  \<^item> \<open>Sysrepo\<close>: sysrepo's types, the macros \<open>foreach_change\<close> and \<open>ARG_CHECK\<close> of
    \<open>sys_util.h\<close>, and two contracts: a loop body that keeps a relation (locale
    \<open>change_body\<close>) and a callback that acts on \<open>SR_EV_VERIFY\<close> only (locale
    \<open>verify_only\<close>).
  \<^item> \<open>Sys_Util\<close>: \<open>netmask_to_plen\<close> and the class \<open>utils::prefix\<close> (\<open>sys_util.h\<close>,
    \<open>sys_util.cpp\<close>).
  \<^item> \<open>Vom\<close>: the functions of VOM the plugins call, as a record over an abstract state.
  \<^item> \<open>Interface_Builder\<close>: the class \<open>interface_builder\<close> and the statements that the two
    interface callbacks share, with their contract (locale \<open>intf_body\<close>).
  \<^item> \<open>Ietf_Interface\<close>: \<open>ietf_interface_create_cb\<close>, the address callback and its helpers.
  \<^item> \<open>Openconfig_Interfaces\<close>: the second class \<open>interface_builder\<close> (\<open>oc_new_builder\<close>,
    \<open>oc_build\<close> and so on), \<open>oc_interfaces_config_cb\<close> branch by branch, and
    \<open>oc_interfaces_state_cb\<close>. Both classes and the branches are shown to be equal to those of
    \<open>ietf_interface.cpp\<close>, so that the lemmas of \<open>Interface_Builder\<close> serve both files.
  \<^item> \<open>Ietf_Nat\<close>: the builder of static mappings, \<open>nat_mapping_table_config_cb\<close> with the
    table \<open>static_mapping_table\<close>, \<open>nat_cap_state_cb\<close>.
  \<^item> \<open>Vpp_Oper\<close>, \<open>Sr_Values\<close>, \<open>Interface_State\<close>: the dump command, arrays of values with the
    contract of a provider (locale \<open>provider\<close>), and the IETF state and statistics callbacks.
  \<^item> \<open>Sc_Init\<close>: the registration lists as linked nodes in a store, and the loops that call
    the registered functions (locale \<open>registration_list\<close>, with an interpretation for the
    init list and one for the exit list).
  \<^item> \<open>Subscriptions\<close>: the init and exit functions of the three plugin files.
  \<^item> \<open>Vpp_Pid\<close>: \<open>get_vpp_pid\<close>; \<open>Vpp_Pid_Handles\<close>: the same function with the streams it
    opens and closes. \<open>Sc_Plugins\<close>: the three entry points of \<open>sc_plugins.c\<close>.
  \<^item> \<open>System\<close>: the configuration callbacks together, as a step relation on VOM's state and
    the NAT table.
  \<^item> \<open>Sr_Memory\<close>: the four configuration callbacks with the iterator and the values that
    sysrepo allocates for them, and the contract of a loop body that reads the values
    (locale \<open>reading_body\<close>). The statements are those of the callbacks; the pointer
    variables \<open>old_val\<close>/\<open>ol\<close>, \<open>new_val\<close>/\<open>ne\<close>, \<open>iter\<close>/\<open>it\<close> are added.
  \<^item> \<open>Yang\<close>, \<open>Yang_Conformance\<close>: the leaves of the YANG modules under
    \<open>src/src/plugins/yang/\<close> that the callbacks read or answer, with their types.
  \<^item> \<open>Exceptions\<close>: which callbacks an exception can leave, and what stack unwinding leaves
    of the loop over the changes.
  \<^item> \<open>Xpath_Buffer\<close>: the callbacks that use \<open>sr_xpath_key_value\<close>, with the string that it
    changes and \<open>sr_xpath_recover\<close> restores.
  \<^item> \<open>Datastore\<close>: sequences of commits, and the contract of a plugin that mirrors the
    configuration datastore (locale \<open>datastore\<close>). \<open>Nat_Datastore\<close>, \<open>Interface_Datastore\<close> and
    \<open>Address_Datastore\<close> interpret it: the mapping table for the NAT callback, the interfaces
    for the IETF and the OpenConfig callback together, and the address bindings of an
    interface for the address callback.
  \<^item> \<open>Vom_Calls\<close>, \<open>Lifecycle\<close>: the callbacks as sequences of calls of VOM; the library from
    its constructors to its destructors, with the interface of one list interpreted for
    both lists at once, and the relation \<open>serve\<close> of what happens between initialisation
    and cleanup (commits, health checks, restarts of VPP).
  \<^item> \<open>Commit\<close>: a commit that touches several subscribed subtrees, as a sequence of
    notifications in the order of the subscription priorities; \<open>Commit_Delete\<close>: one that
    deletes an interface together with its addresses, with VOM's objects counted by
    reference.

  \<^bold>\<open>State and parameters\<close>. The callbacks are functions from the state of VOM (and the NAT
  table) to an outcome with a result code and the new state. Sysrepo, VOM, Boost, \<open>inet_pton\<close>
  and the file system are parameters: records of functions that every definition takes as
  an argument (\<open>sr_api\<close>, \<open>session\<close>, \<open>vom_api\<close>, \<open>net_api\<close>, \<open>proc_fs\<close>, \<open>hw_api\<close>). What a
  property needs of them is a hypothesis of that property. Variables without initialiser are
  options filled from an argument (\<open>uninit\<close>, \<open>nat_uninit\<close>), so that a property can speak
  of indeterminate contents as well as of any particular contents. Memory that was freed and
  is read all the same is undefined, unless the parameter says what it still holds:
  \<open>after_close\<close> of \<open>proc_fs\<close> does for the entry of \<open>/proc\<close> whose name \<open>get_vpp_pid\<close> reads
  after \<open>closedir\<close>, and a property that speaks of a process id assumes that it could be read.

  Exceptions: those of the sources themselves, of the prefix constructor of VOM and of
  \<open>OM::write\<close> are modelled, and propagated or caught as the code does; they derive from
  \<open>std::exception\<close>. The lookups and the setter of VOM, \<open>make_shared\<close>, \<open>OM::remove\<close>,
  \<open>OM::replay\<close> and the functions of \<open>HW\<close> are taken not to throw, and memory is not exhausted. \<open>OM::populate\<close> may fail, which its
  caller catches.

  \<^bold>\<open>What is shown\<close>.
  \<^item> Functional behaviour of every callback on created, modified and deleted nodes, with the
    error branches; equality of the two implementations of the interface configuration on
    their common inputs.
  \<^item> Refinement: the linked registration lists implement lists of functions, the calling
    loops implement \<open>run_list\<close>, the address callback implements a fold of single additions
    and removals over the changed addresses; over sequences of commits the mapping callback
    implements a table, and the two interface callbacks together implement a map of
    interfaces. The address bindings are characterised exactly, stale ones included.
  \<^item> Erasing the pointers of \<open>Sr_Memory\<close> gives the callbacks of the other theories; every
    object is released whenever a callback returns, with one exception in the OpenConfig
    callback. Likewise the buffers of \<open>Xpath_Buffer\<close>: no xpath is read while it is cut.
    \<open>get_vpp_pid\<close> closes its files, but not always its directory.
  \<^item> Types: on changes whose values have the types of the YANG modules, no callback reads an
    inactive member of a value; the answers of the providers are leaves of the modules with
    values of their types, with the exceptions that the properties state. References to
    identities are checked against the identities of \<open>iana-if-type\<close>, by the name of the
    module.
  \<^item> Composition: with the subscribed priorities a commit that creates an interface and its
    addresses succeeds; in the other order it is refused; a failing commit leaves what was
    written before the failure; a commit that deletes both removes every binding it names,
    but is refused where its last call no longer finds the interface, as with two addresses
    of the same prefix length.
  \<^item> The whole life of the library: for every order of constructors and destructors all
    subscriptions are made, their context is given back, and both lists end empty; no
    restart of VPP is missed; a failed initialisation is not made up for by a second one.
  \<^item> Round trips and text: prefixes, netmasks, MAC addresses, keys and xpaths.
  \<^item> Termination: the shift loop of \<open>netmask_to_plen\<close> by a measure; the list loops on every
    well-formed list; the connection loop exactly if an attempt succeeds. The latter are
    partial functions into options, where \<open>None\<close> is divergence; no fuel is used.
  \<^item> Invariant: the NAT table is backed by objects of VOM in every state that is reachable
    without interfaces whose names consist of digits only, under VOM's contract; the
    condition on names is shown to be needed.
  \<^item> Where the code is undefined or does not do what it documents: uninitialised flags,
    null dereference on OpenConfig deletions, freed iterators freed again, the process id
    read from a closed directory, rounded netmasks,
    the unreachable branch for destination mappings, a stale \<open>errno\<close>, a second replay,
    exceptions that leave a callback, objects changed and not written, bindings that
    nobody configured and nobody removes.

  \<^bold>\<open>Bounds\<close>. Machine integers keep their width (\<open>8 word\<close> prefix lengths, \<open>16 word\<close> prefix
  lengths of \<open>utils::prefix\<close>, \<open>32 word\<close> indices and the \<open>in_addr_t\<close> of \<open>netmask_to_plen\<close>,
  \<open>64 word\<close> counters); \<open>int\<close> results of \<open>stoi\<close> and \<open>atoi\<close> are checked against 32 bits;
  the buffers have the sizes of the sources (\<open>XPATH_SIZE\<close>, \<open>CMDLINE_MAX\<close>).

  \<^bold>\<open>Not modelled\<close>. Logging; the arrays of a provider that are handed to sysrepo and freed
  there; concurrency, since sysrepo calls the callbacks of one subscription
  context one after the other. Of the YANG modules only the leaves that the callbacks touch
  are modelled; none of them has a \<open>when\<close> or \<open>must\<close> condition, and the features that enable
  some of them are taken as set. Build files, scripts and Python tests
  hold no code of the plugins.
\<close>

end
